theory Spec2Isabelle
  imports Complex_Main "HOL-Library.Multiset" "HOL-Library.Sublist" "HOL-Library.AList"
begin

section \<open>Values, errors and numpy arithmetic\<close>

text \<open>
  The script is Python 2.7 over numpy, MV2/cdms2 and cdutil. A floating-point number is
  modelled as a real number or the not-a-number value \<open>NaN\<close>, which the script tests for
  (\<^verbatim>\<open>N.isnan\<close>) and which numpy returns for the mean of an empty array; rounding is not
  modelled. An uncaught Python exception is the \<open>Inl\<close> branch of a sum.
\<close>

datatype error = KeyError | NameError | ValueError | IndexError | IOError | TypeError

definition ebind :: "error + 'a \<Rightarrow> ('a \<Rightarrow> error + 'b) \<Rightarrow> error + 'b" where
  "ebind m f = (case m of Inl e \<Rightarrow> Inl e | Inr x \<Rightarrow> f x)"

datatype flt = Fin real | NaN

fun isnan :: "flt \<Rightarrow> bool" where
  "isnan NaN = True"
| "isnan (Fin x) = False"

fun fadd :: "flt \<Rightarrow> flt \<Rightarrow> flt" where
  "fadd (Fin x) (Fin y) = Fin (x + y)"
| "fadd _ _ = NaN"

fun fsub :: "flt \<Rightarrow> flt \<Rightarrow> flt" where
  "fsub (Fin x) (Fin y) = Fin (x - y)"
| "fsub _ _ = NaN"

fun fmul :: "flt \<Rightarrow> flt \<Rightarrow> flt" where
  "fmul (Fin x) (Fin y) = Fin (x * y)"
| "fmul _ _ = NaN"

fun fdiv :: "flt \<Rightarrow> flt \<Rightarrow> flt" where
  "fdiv (Fin x) (Fin y) = (if y = 0 then NaN else Fin (x / y))"
| "fdiv _ _ = NaN"

fun fsqrt :: "flt \<Rightarrow> flt" where
  "fsqrt (Fin x) = (if x < 0 then NaN else Fin (sqrt x))"
| "fsqrt NaN = NaN"

text \<open>
  An elementwise operation of two one-dimensional arrays: equal lengths, or one operand
  of length one broadcast over the other; any other pair of shapes raises ValueError.
\<close>

definition np_binop :: "('a \<Rightarrow> 'b \<Rightarrow> 'c) \<Rightarrow> 'a list \<Rightarrow> 'b list \<Rightarrow> error + 'c list" where
  "np_binop f xs ys =
     (if length xs = length ys then Inr (map2 f xs ys)
      else if length xs = 1 then Inr (map (f (hd xs)) ys)
      else if length ys = 1 then Inr (map (\<lambda>x. f x (hd ys)) xs)
      else Inl ValueError)"

definition np_sum :: "flt list \<Rightarrow> flt" where
  "np_sum xs = foldr fadd xs (Fin 0)"

text \<open>\<^verbatim>\<open>N.average\<close> and \<^verbatim>\<open>N.std\<close> (population form, \<^verbatim>\<open>ddof=0\<close>); both are nan on an empty array.\<close>

definition np_average :: "flt list \<Rightarrow> flt" where
  "np_average xs = (if xs = [] then NaN else fdiv (np_sum xs) (Fin (real (length xs))))"

definition np_std :: "flt list \<Rightarrow> flt" where
  "np_std xs =
     (if xs = [] then NaN
      else let m = np_average xs
           in fsqrt (np_average (map (\<lambda>x. fmul (fsub x m) (fsub x m)) xs)))"

section \<open>Masked arrays\<close>

text \<open>
  A masked array (numpy.ma, MV2) is a list of optional values, \<open>None\<close> for a masked
  element. A reconstruction variable read from a file lives on a latitude-longitude
  grid: one entry per grid cell, the cell's area weight (what \<^verbatim>\<open>cdutil.area_weights\<close>
  derives from the grid's bounds) and the cell's value. A model variable has a time axis
  in front: one masked row per year, and its own grid.
\<close>

type_synonym 'a marray = "'a option list"

type_synonym tvar = "(real \<times> flt option) list"

record mvar =
  rows :: "flt marray list"
  cells :: "real list"

definition compressed :: "'a marray \<Rightarrow> 'a list" where
  "compressed xs = concat (map (\<lambda>x. case x of None \<Rightarrow> [] | Some y \<Rightarrow> [y]) xs)"

definition getGrid :: "tvar \<Rightarrow> real list" where
  "getGrid v = map fst v"

definition mask_of :: "tvar \<Rightarrow> bool list" where
  "mask_of v = map (\<lambda>(a, x). x = None) v"

definition ma_count :: "tvar \<Rightarrow> nat" where
  "ma_count v = length (filter (\<lambda>(a, x). x \<noteq> None) v)"

text \<open>
  \<^verbatim>\<open>N.isnan\<close> of a masked variable is masked where the variable is, and
  \<^verbatim>\<open>masked_where\<close> reads a masked condition as true.
\<close>

definition np_isnan :: "tvar \<Rightarrow> bool list" where
  "np_isnan v = map (\<lambda>(a, x). case x of None \<Rightarrow> True | Some y \<Rightarrow> isnan y) v"

text \<open>
  \<^verbatim>\<open>MV.masked_where(condition, x)\<close>: the mask of the result is the condition or the mask of
  \<open>x\<close>; shapes that differ raise IndexError.
\<close>

definition masked_where :: "bool list \<Rightarrow> tvar \<Rightarrow> error + tvar" where
  "masked_where cond v =
     (if length cond \<noteq> length v then Inl IndexError
      else Inr (map2 (\<lambda>c (a, x). (a, if c then None else x)) cond v))"

text \<open>
  \<^verbatim>\<open>cdutil.area_weights(ds)\<close>: the area weights of the grid of \<open>ds\<close>, masked where
  \<open>ds\<close> is masked.
\<close>

definition area_weights :: "tvar \<Rightarrow> real marray" where
  "area_weights ds = map (\<lambda>(a, x). map_option (\<lambda>y. a) x) ds"

text \<open>
  \<^verbatim>\<open>recweights /= N.sum(recweights)\<close>: the sum of a masked array runs over its unmasked
  elements, and the in-place division of a masked array masks every element where the
  divisor is zero.
\<close>

definition ma_sum :: "real marray \<Rightarrow> real" where
  "ma_sum w = sum_list (compressed w)"

definition idiv :: "real marray \<Rightarrow> real \<Rightarrow> real marray" where
  "idiv w d = (if d = 0 then map (\<lambda>x. None) w else map (map_option (\<lambda>x. x / d)) w)"

section \<open>Random numbers\<close>

text \<open>
  Python's \<^verbatim>\<open>random\<close> module and \<^verbatim>\<open>numpy.random\<close> are two generators with their own
  states. Each is modelled by the stream it produces and a position in that stream:
  \<open>zs\<close> are the standard normal deviates of \<^verbatim>\<open>random.gauss\<close>, \<open>us\<close> the values that
  \<^verbatim>\<open>rk_interval\<close> of numpy's generator returns.

  \<^verbatim>\<open>random.gauss(mu, sigma)\<close> draws one deviate \<open>z\<close> and returns \<^verbatim>\<open>mu + z*sigma\<close>
  (Lib/random.py). The script passes two arrays, so the sum and the product are numpy's
  elementwise operations with the one scalar \<open>z\<close>.
\<close>

definition gauss :: "(nat \<Rightarrow> real) \<Rightarrow> flt list \<Rightarrow> flt list \<Rightarrow> nat \<Rightarrow> error + (flt list \<times> nat)" where
  "gauss zs mu sigma p =
     (let z = zs p
      in ebind (np_binop fadd mu (map (fmul (Fin z)) sigma)) (\<lambda>r. Inr (r, Suc p)))"

text \<open>
  \<^verbatim>\<open>N.random.choice(a, size, replace=0)\<close> without probabilities is
  \<^verbatim>\<open>a[permutation(len(a))[:size]]\<close>; \<^verbatim>\<open>permutation\<close> shuffles \<^verbatim>\<open>arange(n)\<close> with
  \<^verbatim>\<open>for i in reversed(range(1, n)): j = rk_interval(i); x[i], x[j] = x[j], x[i]\<close>.
  An empty population, or a sample larger than the population, raises ValueError.

  \<^verbatim>\<open>rk_interval(max)\<close> (randomkit.c) returns an integer between 0 and \<open>max\<close>: it draws raw
  words of the Mersenne twister, masks each with the smallest \<open>2^k - 1\<close> that is at least
  \<open>max\<close>, and rejects the word as long as the masked value exceeds \<open>max\<close>. How many raw
  words a call uses depends on the words, so the stream lists what the calls return:
  \<open>us q mx\<close> is the value of call number \<open>q\<close> when it is asked for the bound \<open>mx\<close>, and the
  position of the generator counts the calls of \<^verbatim>\<open>rk_interval\<close>. That the value is at most
  \<open>mx\<close> is \<open>in_range\<close> below.
\<close>

definition swap :: "nat \<Rightarrow> nat \<Rightarrow> 'a list \<Rightarrow> 'a list" where
  "swap i j x = x[i := x ! j, j := x ! i]"

definition rk_interval :: "(nat \<Rightarrow> nat \<Rightarrow> nat) \<Rightarrow> nat \<Rightarrow> nat \<Rightarrow> nat \<times> nat" where
  "rk_interval us mx q = (us q mx, Suc q)"

fun shuffle_loop :: "(nat \<Rightarrow> nat \<Rightarrow> nat) \<Rightarrow> nat \<Rightarrow> nat list \<times> nat \<Rightarrow> nat list \<times> nat" where
  "shuffle_loop us 0 (x, q) = (x, q)"
| "shuffle_loop us (Suc i) (x, q) =
     (let (j, q') = rk_interval us (Suc i) q
      in shuffle_loop us i (swap (Suc i) j x, q'))"

definition permutation :: "(nat \<Rightarrow> nat \<Rightarrow> nat) \<Rightarrow> nat \<Rightarrow> nat \<Rightarrow> nat list \<times> nat" where
  "permutation us n q = shuffle_loop us (n - 1) ([0..<n], q)"

definition choice :: "(nat \<Rightarrow> nat \<Rightarrow> nat) \<Rightarrow> 'a list \<Rightarrow> nat \<Rightarrow> nat \<Rightarrow> error + ('a list \<times> nat)" where
  "choice us a k q =
     (if a = [] then Inl ValueError
      else if length a < k then Inl ValueError
      else let (idx, q') = permutation us (length a) q
           in Inr (map (\<lambda>i. a ! i) (take k idx), q'))"

section \<open>Monte Carlo averages\<close>

definition niter :: nat where
  "niter = 10000"

definition nbyrs :: nat where
  "nbyrs = 50"

text \<open>
  Lines 521-523: \<^verbatim>\<open>for n in range(niter): rrave += [N.sum(random.gauss(rme,rse)*recwei)]\<close>.
  The first argument counts the iterations that remain.
\<close>

fun rrave_loop ::
  "(nat \<Rightarrow> real) \<Rightarrow> nat \<Rightarrow> flt list \<Rightarrow> flt list \<Rightarrow> real list \<Rightarrow> flt list \<times> nat \<Rightarrow>
   error + (flt list \<times> nat)" where
  "rrave_loop zs 0 rme rse recwei (rrave, p) = Inr (rrave, p)"
| "rrave_loop zs (Suc n) rme rse recwei (rrave, p) =
     ebind (gauss zs rme rse p) (\<lambda>(draw, p').
     ebind (np_binop fmul draw (map Fin recwei)) (\<lambda>prod.
     rrave_loop zs n rme rse recwei (rrave @ [np_sum prod], p')))"

text \<open>Lines 518-526: the mean and the standard deviation of the realisations.\<close>

definition reconstruction_average ::
  "(nat \<Rightarrow> real) \<Rightarrow> flt list \<Rightarrow> flt list \<Rightarrow> real list \<Rightarrow> nat \<Rightarrow> error + (flt \<times> flt \<times> nat)" where
  "reconstruction_average zs rme rse recwei p =
     ebind (rrave_loop zs niter rme rse recwei ([], p)) (\<lambda>(rrave, p').
     Inr (np_average rrave, np_std rrave, p'))"

text \<open>
  Lines 631-642, for one case: \<open>vpi\<close> and \<open>vpast\<close> are the two annual time series of
  \<^verbatim>\<open>dic_stat_vars[case]\<close>.
\<close>

fun dist_loop ::
  "(nat \<Rightarrow> nat \<Rightarrow> nat) \<Rightarrow> nat \<Rightarrow> flt list \<Rightarrow> flt list \<Rightarrow> flt list \<times> flt list \<times> nat \<Rightarrow>
   error + (flt list \<times> flt list \<times> nat)" where
  "dist_loop us 0 vpi vpast (distpi, distpast, q) = Inr (distpi, distpast, q)"
| "dist_loop us (Suc n) vpi vpast (distpi, distpast, q) =
     ebind (choice us vpi nbyrs q) (\<lambda>(spi, q1).
     ebind (choice us vpast nbyrs q1) (\<lambda>(spast, q2).
     dist_loop us n vpi vpast (distpi @ [np_average spi], distpast @ [np_average spast], q2)))"

definition delta_statistics ::
  "(nat \<Rightarrow> nat \<Rightarrow> nat) \<Rightarrow> flt list \<Rightarrow> flt list \<Rightarrow> nat \<Rightarrow> error + (flt \<times> flt \<times> nat)" where
  "delta_statistics us vpi vpast q =
     ebind (dist_loop us niter vpi vpast ([], [], q)) (\<lambda>(distpi, distpast, q').
     ebind (np_binop fsub distpast distpi) (\<lambda>deltam.
     Inr (np_average deltam, np_std deltam, q')))"

section \<open>Unit conversion of the model fields\<close>

text \<open>
  Lines 575-582. \<^verbatim>\<open>vpi -= 273.15\<close> and \<^verbatim>\<open>vpi *= 86400.*365\<close>: in-place arithmetic of a
  masked array with a scalar acts on every unmasked element.
\<close>

definition isub :: "mvar \<Rightarrow> real \<Rightarrow> mvar" where
  "isub v c = v\<lparr>rows := map (map (map_option (\<lambda>x. fsub x (Fin c)))) (rows v)\<rparr>"

definition imul :: "mvar \<Rightarrow> real \<Rightarrow> mvar" where
  "imul v c = v\<lparr>rows := map (map (map_option (\<lambda>x. fmul x (Fin c)))) (rows v)\<rparr>"

definition change_units :: "string \<Rightarrow> string \<Rightarrow> mvar \<times> mvar \<Rightarrow> mvar \<times> mvar" where
  "change_units var model v =
     (let (vpi, vpast) = v;
          (vpi, vpast) =
            (if var \<in> set [''MAT'', ''MTCO'', ''MTWA'', ''MATocean'']
             then (isub vpi 273.15, isub vpast 273.15)
             else (vpi, vpast));
          (vpi, vpast) =
            (if var \<in> set [''MAP'']
             then (if model \<notin> set [''iLOVECLIM-ICE-6G'', ''iLOVECLIM-GLAC1D'']
                   then (imul vpi (86400 * 365), imul vpast (86400 * 365))
                   else (vpi, vpast))
             else (vpi, vpast))
      in (vpi, vpast))"

section \<open>Dictionaries, strings and files\<close>

text \<open>
  A Python dictionary is an association list; \<open>getitem\<close> is \<^verbatim>\<open>d[k]\<close>, which raises
  KeyError for a missing key. A dictionary literal that repeats a key keeps the last
  value. Reading a name that was never assigned raises NameError: a script variable that
  is assigned only under a condition is an optional value.
\<close>

definition getitem :: "('k \<times> 'v) list \<Rightarrow> 'k \<Rightarrow> error + 'v" where
  "getitem d k = (case map_of d k of None \<Rightarrow> Inl KeyError | Some v \<Rightarrow> Inr v)"

definition keys :: "('k \<times> 'v) list \<Rightarrow> 'k list" where
  "keys d = map fst d"

definition bound :: "'a option \<Rightarrow> error + 'a" where
  "bound x = (case x of None \<Rightarrow> Inl NameError | Some v \<Rightarrow> Inr v)"

text \<open>The loop \<^verbatim>\<open>for x in xs: body\<close> over a state; an exception leaves the loop.\<close>

fun foldM :: "('a \<Rightarrow> 's \<Rightarrow> error + 's) \<Rightarrow> 'a list \<Rightarrow> 's \<Rightarrow> error + 's" where
  "foldM f [] s = Inr s"
| "foldM f (x # xs) s = ebind (f x s) (foldM f xs)"

text \<open>
  The values stored in \<^verbatim>\<open>dic_res\<close>: floats, the point count, the mask array, and nested
  dictionaries. \<open>get_path d [k1, ..., kn]\<close> is \<^verbatim>\<open>d[k1]...[kn]\<close> and
  \<open>set_path d [k1, ..., kn] k v\<close> is \<^verbatim>\<open>d[k1]...[kn][k] = v\<close>; every nested dictionary
  of \<^verbatim>\<open>dic_res\<close> is created by its own \<^verbatim>\<open>{}\<close>, so no two paths share an object.
\<close>

datatype pyval = PFloat flt | PInt nat | PMask "bool list" | PDict "(string \<times> pyval) list"

fun py_getitem :: "pyval \<Rightarrow> string \<Rightarrow> error + pyval" where
  "py_getitem (PDict kvs) k = getitem kvs k"
| "py_getitem _ k = Inl TypeError"

fun py_setitem :: "pyval \<Rightarrow> string \<Rightarrow> pyval \<Rightarrow> error + pyval" where
  "py_setitem (PDict kvs) k v = Inr (PDict (AList.update k v kvs))"
| "py_setitem _ k v = Inl TypeError"

fun get_path :: "pyval \<Rightarrow> string list \<Rightarrow> error + pyval" where
  "get_path d [] = Inr d"
| "get_path d (k # ks) = ebind (py_getitem d k) (\<lambda>sub. get_path sub ks)"

fun set_path :: "pyval \<Rightarrow> string list \<Rightarrow> string \<Rightarrow> pyval \<Rightarrow> error + pyval" where
  "set_path d [] k v = py_setitem d k v"
| "set_path d (p # ps) k v =
     ebind (py_getitem d p) (\<lambda>sub.
     ebind (set_path sub ps k v) (\<lambda>sub'.
     py_setitem d p sub'))"

text \<open>A value formatted with \<^verbatim>\<open>%7.2f\<close> or used in arithmetic has to be a number.\<close>

fun as_float :: "pyval \<Rightarrow> error + flt" where
  "as_float (PFloat x) = Inr x"
| "as_float (PInt n) = Inr (Fin (real n))"
| "as_float _ = Inl TypeError"

text \<open>\<^verbatim>\<open>template % (a, b)\<close> with \<^verbatim>\<open>%s\<close> conversions, and \<^verbatim>\<open>os.path.join\<close>.\<close>

fun pyformat :: "string \<Rightarrow> string list \<Rightarrow> error + string" where
  "pyformat [] [] = Inr []"
| "pyformat [] (a # as) = Inl TypeError"
| "pyformat [c] as = (if c = CHR ''%'' then Inl ValueError else ebind (pyformat [] as) (\<lambda>r. Inr (c # r)))"
| "pyformat (c # c' # cs) as =
     (if c = CHR ''%'' then
        (if c' = CHR ''s'' then
           (case as of
              [] \<Rightarrow> Inl TypeError
            | a # as' \<Rightarrow> ebind (pyformat cs as') (\<lambda>r. Inr (a @ r)))
         else Inl ValueError)
      else ebind (pyformat (c' # cs) as) (\<lambda>r. Inr (c # r)))"

definition path_join2 :: "string \<Rightarrow> string \<Rightarrow> string" where
  "path_join2 a b =
     (if b \<noteq> [] \<and> hd b = CHR ''/'' then b
      else if a = [] \<or> last a = CHR ''/'' then a @ b
      else a @ ''/'' @ b)"

definition path_join :: "string \<Rightarrow> string list \<Rightarrow> string" where
  "path_join a bs = foldl path_join2 a bs"

text \<open>
  The world outside the script: which files cdms2 can open and what it reads from them
  for a variable name and a latitude-longitude selection, what \<^verbatim>\<open>glob.glob\<close> matches,
  the regridder and the area-weighted averager of cdutil, and the two random streams.
\<close>

type_synonym latlon = "int \<times> int \<times> string"

record env =
  can_open :: "string \<Rightarrow> bool"
  read_rec :: "string \<Rightarrow> string \<Rightarrow> latlon \<Rightarrow> latlon \<Rightarrow> error + tvar"
  read_model :: "string \<Rightarrow> string \<Rightarrow> latlon \<Rightarrow> latlon \<Rightarrow> error + mvar"
  glob_glob :: "string \<Rightarrow> string list"
  regrid :: "real list \<Rightarrow> mvar \<Rightarrow> mvar"
  averager :: "mvar \<Rightarrow> flt marray"
  gauss_deviates :: "nat \<Rightarrow> real"
  numpy_draws :: "nat \<Rightarrow> nat \<Rightarrow> nat"

definition c_open :: "env \<Rightarrow> string \<Rightarrow> error + string" where
  "c_open e fname = (if can_open e fname then Inr fname else Inl IOError)"

text \<open>
  A shelve file maps keys to pickled values; \<^verbatim>\<open>shelve.open\<close> creates the file when it
  does not exist. Pickling is taken to be lossless.
\<close>

type_synonym shelf = "string \<rightharpoonup> pyval"

type_synonym disk = "string \<rightharpoonup> shelf"

definition shelve_open :: "disk \<Rightarrow> string \<Rightarrow> disk \<times> shelf" where
  "shelve_open dk name =
     (case dk name of None \<Rightarrow> (dk(name \<mapsto> Map.empty), Map.empty) | Some s \<Rightarrow> (dk, s))"

definition shelve_get :: "shelf \<Rightarrow> string \<Rightarrow> error + pyval" where
  "shelve_get s k = (case s k of None \<Rightarrow> Inl KeyError | Some v \<Rightarrow> Inr v)"

definition shelve_set :: "disk \<Rightarrow> string \<Rightarrow> string \<Rightarrow> pyval \<Rightarrow> disk" where
  "shelve_set dk name k v = (let (dk', s) = shelve_open dk name in dk'(name \<mapsto> s(k \<mapsto> v)))"

section \<open>Configuration tables\<close>

datatype colour = Named string | RGB real real real

record options =
  compute_averages_again :: string
  compute_monte_carlo_averages :: string
  plot_deltaTland_vs_deltaTocean :: string

definition script_options :: options where
  "script_options =
     \<lparr>compute_averages_again = ''yes'', compute_monte_carlo_averages = ''yes'',
      plot_deltaTland_vs_deltaTocean = ''yes''\<rparr>"

definition shelve_name :: string where
  "shelve_name = ''DMC_LGM_MH_PMIP3_PMIP4_IPCC_save_res2''"

definition list_periods :: "string list" where
  "list_periods =
    [''LGM'', ''MH'']"

definition list_pmip3_models_lgm :: "string list" where
  "list_pmip3_models_lgm =
    [''IPSL'', ''CNRM'', ''MIROC'', ''MPI-p1'', ''MPI-p2'', ''MRI'', ''GISSE2-p1'',
     ''GISSE2-p2'', ''CESM'']"

definition list_pmip4_models_lgm :: "string list" where
  "list_pmip4_models_lgm =
    [''CESM2.1'', ''CESM1-2'', ''AWI-ESM-1-1-LR'', ''AWIESM2'', ''iLOVECLIM-ICE-6G'',
     ''iLOVECLIM-GLAC1D'', ''INM-CM4-8'', ''MIROC-ES2L'', ''MPI-ESM1-2-LR'',
     ''UT-CCSM4'', ''IPSLCM5A2'']"

definition list_models_lgm :: "string list" where
  "list_models_lgm = list_pmip3_models_lgm @ list_pmip4_models_lgm"

definition list_pmip3_models_mh :: "string list" where
  "list_pmip3_models_mh =
    [''bcc-csm1-1'', ''CCSM4'', ''CNRM-CM5'', ''CSIRO-Mk3-6-0'', ''CSIRO-Mk3L-1-2'',
     ''FGOALS-g2'', ''FGOALS-s2'', ''GISS-E2-R'', ''HadGEM2-ES'', ''IPSL-CM5A-LR'',
     ''MIROC-ESM'', ''MPI-ESM-P'', ''MRI-CGCM3'']"

definition list_pmip4_models_mh :: "string list" where
  "list_pmip4_models_mh =
    [''AWI-ESM-1-1-LR'', ''CESM2'', ''EC-Earth3-LR'', ''FGOALS-f3-L'', ''FGOALS-g3'',
     ''GISS-E2-1-G'', ''HadGEM3-GC31'', ''INM-CM4-8'', ''IPSL-CM6A-LR'', ''MIROC-ES2L'',
     ''MPI-ESM1-2-LR'', ''MRI-ESM2-0'', ''NESM3'', ''NorESM1-F'', ''NorESM2-LM'',
     ''UofT-CCSM-4'']"

definition list_models_mh :: "string list" where
  "list_models_mh = list_pmip3_models_mh @ list_pmip4_models_mh"

definition list_pmip3_models :: "string list" where
  "list_pmip3_models = list_pmip3_models_lgm @ list_pmip3_models_mh"

definition list_pmip4_models :: "string list" where
  "list_pmip4_models =
     list_pmip4_models_lgm @ list_pmip4_models_mh @ [''ACCESS-ESM1-5'', ''CNRM-CM6-1'']"

definition list_cmip6_models :: "string list" where
  "list_cmip6_models =
    [''ACCESS-ESM1-5'', ''AWI-ESM-1-1-LR'', ''CESM2'', ''CESM2.1'', ''EC-Earth3-LR'',
     ''FGOALS-f3-L'', ''FGOALS-g3'', ''GISS-E2-1-G'', ''HadGEM3-GC31'', ''INM-CM4-8'',
     ''IPSL-CM6A-LR'', ''MIROC-ES2L'', ''MPI-ESM1-2-LR'', ''MRI-ESM2-0'', ''NESM3'',
     ''NorESM2-LM'']"

definition dic_global_mean_lig :: "(string \<times> real) list" where
  "dic_global_mean_lig =
    [(''ACCESS-ESM1-5'', (33 / 100)),
     (''AWI-ESM-1-1-LR'', (- (1 / 4))),
     (''AWIESM2'', (- (1 / 5))),
     (''CESM2'', (- (11 / 100))),
     (''CNRM-CM6-1'', (2 / 5)),
     (''EC-Earth3-LR'', (9 / 20)),
     (''FGOALS-f3-L'', (- (12 / 25))),
     (''FGOALS-g3'', (19 / 50)),
     (''GISS-E2-1-G'', (- (3 / 25))),
     (''HadGEM3-GC31'', (14 / 25)),
     (''INM-CM4-8'', (- (1 / 5))),
     (''IPSL-CM6A-LR'', (- (29 / 100))),
     (''MIROC-ES2L'', (- (2 / 5))),
     (''MPI-ESM1-2-LR'', (- (3 / 25))),
     (''NESM3'', (7 / 100)),
     (''NorESM1-F'', (- (6 / 25))),
     (''NorESM2-LM'', (- (11 / 100)))]"

definition dic_global_mean_plio :: "(string \<times> real) list" where
  "dic_global_mean_plio =
    [(''CCSM4-plio'', (264831 / 100000)),
     (''CCSM4-UoT'', (75821 / 20000)),
     (''CCSM4-Utrecht'', (233987 / 50000)),
     (''CESM1.2'', (80653 / 20000)),
     (''CESM2'', (104539 / 20000)),
     (''COSMOS'', (332687 / 100000)),
     (''EC-Earth3-LR'', (242057 / 50000)),
     (''GISS-E2-1-G'', (208071 / 100000)),
     (''HadCM3'', (144527 / 50000)),
     (''IPSL-CM6A-LR'', (69473 / 20000)),
     (''IPSLCM5A'', (45939 / 20000)),
     (''IPSLCM5A2'', (108433 / 50000)),
     (''MIROC4m'', (156573 / 50000)),
     (''MRI-CGCM2.3'', (122779 / 50000)),
     (''NorESM-L'', (104597 / 50000)),
     (''NorESM1-F'', (173549 / 100000)),
     (''HadGEM3'', (252753 / 50000))]"

definition dic_global_mean_eocene :: "(string \<times> real) list" where
  "dic_global_mean_eocene =
    [(''CESM1.2_CAM5-deepmip_stand_6xCO2'', (41357 / 2500)),
     (''COSMOS-landveg_r2413-deepmip_sens_4xCO2'', (16303 / 1250)),
     (''GFDL_CM2.1-deepmip_stand_6xCO2'', (145911 / 10000)),
     (''GFDL_CM2.1-deepmip_sens_4xCO2'', (29637 / 2500)),
     (''INM-CM4-8-deepmip_stand_6xCO2'', (10149 / 1000)),
     (''NorESM1_F-deepmip_sens_4xCO2'', (24043 / 2500))]"

definition darrell_s_delta_gsat_estimates :: "(string \<times> real \<times> real) list" where
  "darrell_s_delta_gsat_estimates =
    [(''MH'', (1 / 5), 1),
     (''LGM'', (- 7), (- 4)),
     (''LIG'', (1 / 2), (3 / 2)),
     (''MPWP'', (5 / 2), 4),
     (''EECO'', 11, 17)]"

definition list_regions :: "string list" where
  "list_regions =
    [''Globe'', ''WesternEurope'', ''NAmerica'', ''WestAfrica'']"

definition list_reconstructions :: "string list" where
  "list_reconstructions =
    [''Tierney2019'', ''Bartlein2011'', ''Cleator2019'']"

definition dic_rds_masks :: "(string \<times> string) list" where
  "dic_rds_masks =
    [(''Bartlein2011'', ''own''),
     (''Cleator2019'', ''own''),
     (''Tierney2019'', ''own'')]"

definition rep_data :: string where
  "rep_data = ''/home/users/''"

definition dic_data_files :: "(string \<times> (string \<times> (string \<times> string) list) list) list" where
  "dic_data_files =
    [(''MARGO2009'',
        [(''MATocean'',
            [(''LGM'', ''masa/GRAPH/VCDAT/MARGO_data.nc'')])]),
     (''Tierney2019'',
        [(''MATocean'',
            [(''LGM'', ''masa/GRAPH/VCDAT/Scripts_PMIP/MarineData/Tierney2020_ProxyData_5x5_deltaSST.nc'')])]),
     (''Tierney2020DA'',
        [(''MATocean'',
            [(''LGM'', ''masa/GRAPH/VCDAT/Scripts_PMIP/MarineData/Tierney2020_DA_atm_cdmssed.nc'')])]),
     (''Bartlein2011'',
        [(''MAT'',
            [(''MH'', ''masa/GRAPH/VCDAT/Scripts_PMIP/Bartlein-et-al-data/mat_delta_06ka_ALL_grid_2x2.nc''),
             (''LGM'', ''masa/GRAPH/VCDAT/Scripts_PMIP/Bartlein-et-al-data/mat_delta_21ka_ALL_grid_2x2.nc'')]),
         (''MTCO'',
            [(''MH'', ''masa/GRAPH/VCDAT/Scripts_PMIP/Bartlein-et-al-data/coldtemp_delta_06ka_ALL_grid_2x2.nc''),
             (''LGM'', ''masa/GRAPH/VCDAT/Scripts_PMIP/Bartlein-et-al-data/coldtemp_delta_21ka_ALL_grid_2x2.nc'')]),
         (''MTWA'',
            [(''MH'', ''masa/GRAPH/VCDAT/Scripts_PMIP/Bartlein-et-al-data/warmtemp_delta_06ka_ALL_grid_2x2.nc''),
             (''LGM'', ''masa/GRAPH/VCDAT/Scripts_PMIP/Bartlein-et-al-data/warmtemp_delta_21ka_ALL_grid_2x2.nc'')]),
         (''MAP'',
            [(''MH'', ''masa/GRAPH/VCDAT/Scripts_PMIP/Bartlein-et-al-data/map_delta_06ka_ALL_grid_2x2.nc''),
             (''LGM'', ''masa/GRAPH/VCDAT/Scripts_PMIP/Bartlein-et-al-data/map_delta_21ka_ALL_grid_2x2.nc'')])]),
     (''Cleator2019'',
        [(''MAT'',
            [(''LGM'', ''jypeter/CDAT/Progs/Devel/PMIP4_CMIP6/Cleator_LGM/cleator_data_v200319.nc'')]),
         (''MTCO'',
            [(''LGM'', ''jypeter/CDAT/Progs/Devel/PMIP4_CMIP6/Cleator_LGM/cleator_data_v200319.nc'')]),
         (''MTWA'',
            [(''LGM'', ''jypeter/CDAT/Progs/Devel/PMIP4_CMIP6/Cleator_LGM/cleator_data_v200319.nc'')]),
         (''MAP'',
            [(''LGM'', ''jypeter/CDAT/Progs/Devel/PMIP4_CMIP6/Cleator_LGM/cleator_data_v200319.nc'')])]),
     (''Cleator2019_B2011pts'',
        [(''MAT'',
            [(''LGM'', ''jypeter/CDAT/Progs/Devel/PMIP4_CMIP6/Cleator_LGM/cleator_data_v200319.nc'')]),
         (''MTCO'',
            [(''LGM'', ''jypeter/CDAT/Progs/Devel/PMIP4_CMIP6/Cleator_LGM/cleator_data_v200319.nc'')]),
         (''MTWA'',
            [(''LGM'', ''jypeter/CDAT/Progs/Devel/PMIP4_CMIP6/Cleator_LGM/cleator_data_v200319.nc'')]),
         (''MAP'',
            [(''LGM'', ''jypeter/CDAT/Progs/Devel/PMIP4_CMIP6/Cleator_LGM/cleator_data_v200319.nc'')])])]"

definition dic_rec_varnames :: "(string \<times> (string \<times> string \<times> string \<times> string) list) list" where
  "dic_rec_varnames =
    [(''Bartlein2011'',
        [(''MTCO'', ''mtco'', ''_anm_mean'', ''_se_mean''),
         (''MAT'', ''mat'', ''_anm_mean'', ''_se_mean''),
         (''MTWA'', ''mtwa'', ''_anm_mean'', ''_se_mean''),
         (''MAP'', ''map'', ''_anm_mean'', ''_se_mean'')]),
     (''Cleator2019'',
        [(''MTCO'', ''MTCO'', '''', ''_SD''),
         (''MAT'', ''MAT'', '''', ''_SD''),
         (''MTWA'', ''MTWA'', '''', ''_SD''),
         (''MAP'', ''MAP'', '''', ''_SD'')]),
     (''Cleator2019_B2011pts'',
        [(''MTCO'', ''MTCO'', '''', ''_SD''),
         (''MAT'', ''MAT'', '''', ''_SD''),
         (''MTWA'', ''MTWA'', '''', ''_SD''),
         (''MAP'', ''MAP'', '''', ''_SD'')]),
     (''MARGO2009'',
        [(''SSTjfmanom'', ''lgmanomjfmsst'', ''lgmanomjfmmin'', ''lgmanomjfmmax''),
         (''SSTjasanom'', ''lgmanomjassst'', ''lgmanomjasmin'', ''lgmanomjasmax''),
         (''MATocean'', ''lgmanomann'', ''sst'', ''std'')]),
     (''Tierney2019'',
        [(''MATocean'', '''', ''deltaSST'', ''std'')]),
     (''Tierney2020DA'',
        [(''MATocean'', '''', ''deltaSAToverOceans'', ''errdeltaSAToverOceans'')])]"

definition dic_list_vars :: "(string \<times> (string \<times> string list) list) list" where
  "dic_list_vars =
    [(''LGM'',
        [(''Bartlein2011'', [''MTCO'', ''MAT'', ''MTWA'', ''MAP'']),
         (''Cleator2019'', [''MTCO'', ''MAT'', ''MTWA'', ''MAP'']),
         (''Tierney2019'', [''MATocean''])]),
     (''MH'',
        [(''Bartlein2011'', [''MTCO'', ''MAT'', ''MTWA'', ''MAP''])])]"

definition dic_model_varnames :: "(string \<times> string) list" where
  "dic_model_varnames =
    [(''MTCO'', ''tas''),
     (''MAT'', ''tas''),
     (''MTWA'', ''tas''),
     (''MAP'', ''pr''),
     (''MATocean'', ''tas'')]"

definition dic_model_diagnames :: "(string \<times> string) list" where
  "dic_model_diagnames =
    [(''MTCO'', ''MIN''),
     (''MAT'', ''YR''),
     (''MTWA'', ''MAX''),
     (''MAP'', ''YR''),
     (''MATocean'', ''YR'')]"

definition dic_color_models :: "(string \<times> colour) list" where
  "dic_color_models =
    [(''AWI-ESM-1-1-LR'', RGB (3 / 5) 0 1),
     (''AWIESM2'', Named ''sandybrown''),
     (''CESM1-2'', Named ''skyblue''),
     (''CESM2'', RGB (13 / 50) (7 / 10) (17 / 20)),
     (''CESM2.1'', RGB (13 / 50) (7 / 10) (17 / 20)),
     (''EC-Earth3-LR'', RGB (49 / 100) (39 / 100) (18 / 25)),
     (''FGOALS-f3-L'', RGB (97 / 100) (3 / 5) (11 / 100)),
     (''FGOALS-g3'', RGB (97 / 100) (3 / 5) (11 / 100)),
     (''GISS-E2-1-G'', RGB (47 / 100) (11 / 100) (12 / 25)),
     (''HadGEM3-GC31'', RGB (12 / 25) (11 / 20) (3 / 20)),
     (''INM-CM4-8'', RGB (97 / 100) (13 / 50) (13 / 50)),
     (''IPSL-CM6A-LR'', RGB (9 / 25) (33 / 100) (17 / 25)),
     (''IPSLCM5A2'', Named ''chocolate''),
     (''MIROC-ES2L'', RGB (18 / 25) (37 / 100) (71 / 100)),
     (''MPI-ESM1-2-LR'', RGB (9 / 25) (63 / 100) (16 / 25)),
     (''MRI-ESM2-0'', Named ''darkseagreen''),
     (''NESM3'', RGB (17 / 25) 1 (9 / 50)),
     (''NorESM1-F'', Named ''steelblue''),
     (''NorESM2-LM'', RGB (19 / 20) (23 / 100) (13 / 20)),
     (''UofT-CCSM-4'', Named ''darkgreen''),
     (''iLOVECLIM-ICE-6G'', Named ''darkviolet''),
     (''iLOVECLIM-GLAC1D'', Named ''slateblue''),
     (''UT-CCSM4'', Named ''darkgreen''),
     (''ACCESS-ESM1-5'', Named ''blue''),
     (''CNRM-CM6-1'', Named ''green'')]"

definition dic_regions :: "(string \<times> latlon \<times> latlon) list" where
  "dic_regions =
    [(''Globe'', (- 90, 90, ''cc''), (- 180, 180, ''co'')),
     (''WesternEurope'', (35, 70, ''cc''), (- 10, 30, ''cc'')),
     (''WestAfrica'', (0, 30, ''cc''), (- 20, 30, ''cc'')),
     (''NAmerica'', (20, 50, ''cc''), (- 140, - 60, ''cc''))]"

definition dic_labels :: "(string \<times> string) list" where
  "dic_labels =
    [(''Bartlein2011'', ''Bartlein et al., 2011''),
     (''GISSE2-p1'', ''GISS-E2-R-p150''),
     (''GISSE2-p2'', ''GISS-E2-R-p151''),
     (''MRI'', ''MRI-CGCM3''),
     (''MIROC'', ''MIROC-ESM-CMIP5''),
     (''MPI-p2'', ''MPI-ESM-P-p1''),
     (''MPI-p1'', ''MPI-ESM-P-p2''),
     (''CNRM'', ''CNRM-CM5''),
     (''IPSL'', ''IPSL-CM5A-LR''),
     (''FGOALS'', ''FGOALS-g2''),
     (''Cleator2019'', ''Cleator2020''),
     (''CESM'', ''CCSM4''),
     (''MPI-ESM1-2-LR'', ''MPI-ESM-1.2''),
     (''MIROC-ES2L'', ''MIROC-ES2L''),
     (''UT-CCSM4'', ''UoT-CCSM4''),
     (''Tierney2019'', ''Tierney2020''),
     (''CESM2'', ''CESM2''),
     (''INM-CM4-8'', ''INM-CM4-8''),
     (''iLOVECLIM'', ''iLOVECLIM''),
     (''CESM1-2'', ''CESM1.2''),
     (''IPSLCM5A2'', ''IPSLCM5A2''),
     (''AWI-ESM-1-1-LR'', ''AWI-ESM-1-1-LR''),
     (''AWIESM2'', ''AWI-ESM-2-1-LR'')]"

definition dir_lgm :: string where
  "dir_lgm = ''/home/clim01/masa/PMIP3-PMIP4-analyses-sept2020/''"

definition dir_mh :: string where
  "dir_mh = ''/home/clim01/masa/PMIP3-PMIP4-analyses2/PMIP4_MH_from_Chris2/''"

definition dic_models :: "(string \<times> (string \<times> string) list) list" where
  "dic_models =
    [(''PI'',
        [(''IPSL'', ''PMIP3/IPSL-CM5A-LR/%s_Amon_IPSL-CM5A-LR_piControl_r1i1p1_180001-279912_%s.nc''),
         (''CNRM'', ''PMIP3/CNRM-CM5/%s_Amon_CNRM-CM5_piControl_r1i1p1_185001-269912_%s.nc''),
         (''MIROC'', ''PMIP3/MIROC-ESM/%s_Amon_MIROC-ESM_piControl_r1i1p1_180001-242912_%s.nc''),
         (''MPI-p1'', ''PMIP3/MPI-ESM-P/%s_Amon_MPI-ESM-P_piControl_r1i1p1_185001-300512_%s.nc''),
         (''MPI-p2'', ''PMIP3/MPI-ESM-P/%s_Amon_MPI-ESM-P_piControl_r1i1p1_185001-300512_%s.nc''),
         (''MRI'', ''PMIP3/MRI-CGCM3/%s_Amon_MRI-CGCM3_piControl_r1i1p1_185101-235012_%s.nc''),
         (''GISSE2-p1'', ''PMIP3/GISS-E2-R/%s_Amon_GISS-E2-R_piControl_r1i1p2_359001-412012_%s.nc''),
         (''GISSE2-p2'', ''PMIP3/GISS-E2-R/%s_Amon_GISS-E2-R_piControl_r1i1p2_359001-412012_%s.nc''),
         (''CESM'', ''PMIP3/CCSM4/%s_Amon_CCSM4_piControl_r1i1p1_025001-130012_%s.nc''),
         (''MIROC-ES2L'', ''PMIP4/MIROC-ES2L/%s_Amon_MIROC-ES2L_piControl_r1i1p1f2_gn_185001-234912_%s.nc''),
         (''MPI-ESM1-2-LR'', ''PMIP4/MPI-ESM1-2-LR/%s-MPI-ESM_lgm_ATM_2000-2099_PI_%s.nc''),
         (''UT-CCSM4'', ''PMIP4/UT-CCSM4/%s_Amon_UofT-CCSM4_PI_r1i1p1f1_gn_last100yrs_%s.nc''),
         (''CESM2'', ''PMIP4/CESM2/%s_Amon_CESM2_piControl_r1i1p1f1_gn_000101-120012_%s.nc''),
         (''CESM2.1'', ''PMIP4/CESM2.1/%s_CESM2.1_PI_%s.nc''),
         (''FGOALS-g3-r1'', ''PMIP4/%s/%s_Amon_FGOALS-g3_piControl_r1i1p1f1_gn_020001-089912_%s.nc''),
         (''FGOALS-g3-r2'', ''PMIP4/%s/%s_Amon_FGOALS-g3_piControl_r1i1p1f1_gn_020001-089912_%s.nc''),
         (''FGOALS-g3-r3'', ''PMIP4/%s/%s_Amon_FGOALS-g3_piControl_r1i1p1f1_gn_020001-089912_%s.nc''),
         (''IPSLCM6A-f1'', ''PMIP4/%s/%s_Amon_IPSL-CM6A-LR_piControl_r1i1p1f1_gr_185001-304912_%s.nc''),
         (''IPSLCM6A-f2'', ''PMIP4/%s/%s_Amon_IPSL-CM6A-LR_piControl_r1i1p1f1_gr_185001-304912_%s.nc''),
         (''IPSLCM6A-f3'', ''PMIP4/%s/%s_Amon_IPSL-CM6A-LR_piControl_r1i1p1f1_gr_185001-304912_%s.nc''),
         (''IPSLCM6A-f4'', ''PMIP4/%s/%s_Amon_IPSL-CM6A-LR_piControl_r1i1p1f1_gr_185001-304912_%s.nc''),
         (''MRI-ESM2'', ''PMIP4/%s/%s_Amon_MRI-ESM2-0_piControl_r1i1p1f1_gn_185001-255012_%s.nc''),
         (''NESM3'', ''PMIP4/%s/%s_Amon_NESM3_piControl_r1i1p1f1_gn_050001-079912_%s.nc''),
         (''NorESM1-F'', ''PMIP4/%s/%s_Amon_NorESM1-F_piControl_r1i1p1f1_gn_150101-170012_%s.nc''),
         (''AWI-ESM-1-1-LR'', ''PMIP4/AWIESM1/%s_PI-AWIESM1_lgm_ATM_%s.nc''),
         (''AWIESM2'', ''PMIP4/AWIESM2/%s_PI-AWIESM2_lgm_ATM_%s.nc''),
         (''INM-CM4-8'', ''PMIP4/INM-CM4-8/%s_Amon_INM-CM4-8_piControl_r1i1p1f1_gr1_185001-238012_%s.nc''),
         (''iLOVECLIM-GLAC1D'', ''PMIP4/iLOVECLIM-PI/%s_Amon_iLOVECLIM_PI_PI_%s.nc''),
         (''iLOVECLIM-ICE-6G'', ''PMIP4/iLOVECLIM-PI/%s_Amon_iLOVECLIM_PI_PI_%s.nc''),
         (''CESM1-2'', ''PMIP4/CESM1.2/%s_CESM1.2_PI_%s.nc''),
         (''IPSLCM5A2'', ''PMIP4/IPSLCM5A2/%s_IPSLCM5A2_PI_%s.nc'')]),
     (''MH'',
        [(''CESM'', ''PMIP3/%s/%s%s_Amon_CCSM4_midHolocene_r1i1p1_100001-130012.nc''),
         (''CNRM'', ''PMIP3/%s/%s%s_Amon_CNRM-CM5_midHolocene_r1i1p1.nc''),
         (''GISSE2-p1'', ''PMIP3/%s/%s%s_Amon_GISS-E2-R_midHolocene_r1i1p1.nc''),
         (''IPSL'', ''PMIP3/%s/%s%s_Amon_IPSL-CM5A-LR_midHolocene_r1i1p1_230101-280012.nc''),
         (''MIROC'', ''PMIP3/%s/%s%s_Amon_MIROC-ESM_midHolocene_r1i1p1_233001-242912.nc''),
         (''MPI-p1'', ''PMIP3/%s/%s%s_Amon_MPI-ESM-P_midHolocene_r1i1p1_185001-194912.nc''),
         (''MPI-p2'', ''PMIP3/%s/%s%s_Amon_MPI-ESM-P_midHolocene_r1i1p2_185001-194912.nc''),
         (''MRI'', ''PMIP3/%s/%s%s_Amon_MRI-CGCM3_midHolocene_r1i1p1_195101-205012.nc''),
         (''CESM2'', ''PMIP4/%s/%s%s_Amon_CESM2_midHolocene_r1i1p1f1_gn_000101-070012.nc''),
         (''FGOALS-f3'', ''PMIP4/%s/%s%s_Amon_FGOALS-f3-L_midHolocene_r1i1p1f1_gr_072001-121912.nc''),
         (''FGOALS-g3-r1'', ''PMIP4/%s/%s%s_Amon_FGOALS-g3_midHolocene_r1i1p1f1_gn_065701-112612.nc''),
         (''FGOALS-g3-r2'', ''PMIP4/%s/%s%s_Amon_FGOALS-g3_midHolocene_r2i1p1f1_gn_063001-109912.nc''),
         (''FGOALS-g3-r3'', ''PMIP4/%s/%s%s_Amon_FGOALS-g3_midHolocene_r3i1p1f1_gn_036001-083912.nc''),
         (''IPSLCM6A-f1'', ''PMIP4/%s/%s%s_Amon_IPSL-CM6A-LR_midHolocene_r1i1p1f1_gr_185001-239912.nc''),
         (''IPSLCM6A-f2'', ''PMIP4/%s/%s%s_Amon_IPSL-CM6A-LR_midHolocene_r1i1p1f2_gr_185001-204912.nc''),
         (''IPSLCM6A-f3'', ''PMIP4/%s/%s%s_Amon_IPSL-CM6A-LR_midHolocene_r1i1p1f3_gr_185001-204912.nc''),
         (''IPSLCM6A-f4'', ''PMIP4/%s/%s%s_Amon_IPSL-CM6A-LR_midHolocene_r1i1p1f4_gr_185001-214912.nc''),
         (''MIROC-ES2L'', ''PMIP4/%s/%s%s_Amon_MIROC-ES2L_midHolocene_r1i1p1f2_gn_800001-809912.nc''),
         (''MRI-ESM2'', ''PMIP4/%s/%s%s_Amon_MRI-ESM2-0_midHolocene_r1i1p1f1_gn_195101-215012.nc''),
         (''NESM3'', ''PMIP4/%s/%s%s_Amon_NESM3_midHolocene_r1i1p1f1_gn_179801-189712.nc''),
         (''NorESM1-F'', ''PMIP4/%s/%s%s_Amon_NorESM1-F_midHolocene_r1i1p1f1_gn_150101-170012.nc'')]),
     (''LGM'',
        [(''IPSL'', ''PMIP3/IPSL-CM5A-LR/%s_Amon_IPSL-CM5A-LR_lgm_r1i1p1_260101-280012_%s.nc''),
         (''CNRM'', ''PMIP3/CNRM-CM5/%s_Amon_CNRM-CM5_lgm_r1i1p1_180001-199912_%s.nc''),
         (''MIROC'', ''PMIP3/MIROC-ESM/%s_Amon_MIROC-ESM_lgm_r1i1p1_460001-469912_%s.nc''),
         (''MPI-p1'', ''PMIP3/MPI-ESM-P/%s_Amon_MPI-ESM-P_lgm_r1i1p1_185001-194912_%s.nc''),
         (''MPI-p2'', ''PMIP3/MPI-ESM-P/%s_Amon_MPI-ESM-P_lgm_r1i1p2_185001-194912_%s.nc''),
         (''MRI'', ''PMIP3/MRI-CGCM3/%s_Amon_MRI-CGCM3_lgm_r1i1p1_250101-260012_%s.nc''),
         (''GISSE2-p1'', ''PMIP3/GISS-E2-R/%s_Amon_GISS-E2-R_lgm_r1i1p150_300001-309912_%s.nc''),
         (''GISSE2-p2'', ''PMIP3/GISS-E2-R/%s_Amon_GISS-E2-R_lgm_r1i1p151_300001-309912_%s.nc''),
         (''CESM'', ''PMIP3/CCSM4/%s_Amon_CCSM4_lgm_r1i1p1_180001-190012_%s.nc''),
         (''MIROC-ES2L'', ''PMIP4/MIROC-ES2L/%s_Amon_MIROC-ES2L_lgm_r1i1p1f2_gn_320001-329912_%s.nc''),
         (''MPI-ESM1-2-LR'', ''PMIP4/MPI-ESM1-2-LR/%s-MPI-ESM_lgm_ATM_2000-2099_LGM_%s.nc''),
         (''UT-CCSM4'', ''PMIP4/UT-CCSM4/%s_Amon_UofT-CCSM4_LGM_r1i1p1f1_gn_last100yrs_%s.nc''),
         (''AWI-ESM-1-1-LR'', ''PMIP4/AWIESM1/%s_LGM-AWIESM1_lgm_ATM_%s.nc''),
         (''AWIESM2'', ''PMIP4/AWIESM2/%s_LGM-AWIESM2_lgm_ATM_%s.nc''),
         (''INM-CM4-8'', ''PMIP4/INM-CM4-8/%s_Amon_INM-CM4-8_lgm_r1i1p1f1_gr1_190001-209912_%s.nc''),
         (''iLOVECLIM-GLAC1D'', ''PMIP4/iLOVECLIM-GLAC-1D/%s_Amon_iLOVECLIM_GLAC-1D_LGM_%s.nc''),
         (''iLOVECLIM-ICE-6G'', ''PMIP4/iLOVECLIM-ICE-6G-C/%s_Amon_iLOVECLIM_ICE-6G-C_LGM_%s.nc''),
         (''CESM1-2'', ''PMIP4/CESM1.2/%s_CESM1.2_LGM_%s.nc''),
         (''IPSLCM5A2'', ''PMIP4/IPSLCM5A2/%s_IPSLCM5A2_LGM_%s.nc''),
         (''CESM2.1'', ''PMIP4/CESM2.1/%s_CESM2.1_LGM_%s.nc'')])]"

section \<open>Part I: the averaging stage\<close>

text \<open>
  The script's variables that matter after the statement that assigns them: the results
  dictionary, the names assigned under a condition (\<open>None\<close> while unassigned), the
  positions of the two random generators, and what Part II writes to its text files.
  Console output and the drawing calls of matplotlib are not modelled.
\<close>

record pystate =
  dic_res :: pyval
  list_models :: "string list option"
  dir_models :: "string option"
  chosenmask :: "bool list option"
  fnamepi :: "string option"
  fnamepast :: "string option"
  gauss_pos :: nat
  numpy_pos :: nat
  delta :: "flt option"
  deltaerr :: "flt option"
  index_i :: "nat option"
  pmipphase :: "string option"
  list_pmip4_models2 :: "string list option"
  reports :: "(string \<times> (string \<times> flt list) list) list"

definition start_state :: pystate where
  "start_state =
     \<lparr>dic_res = PDict [], list_models = None, dir_models = None, chosenmask = None,
      fnamepi = None, fnamepast = None, gauss_pos = 0, numpy_pos = 0, delta = None,
      deltaerr = None, index_i = None, pmipphase = None, list_pmip4_models2 = None,
      reports = []\<rparr>"

text \<open>Lines 437-447: the empty nested dictionaries.\<close>

definition init_dic_res :: "error + pyval" where
  "init_dic_res =
     foldM (\<lambda>period d.
       ebind (set_path d [] period (PDict [])) (
       foldM (\<lambda>var d.
         ebind (set_path d [period] var (PDict [])) (
         foldM (\<lambda>region d.
           ebind (set_path d [period, var] region (PDict [])) (
           foldM (\<lambda>rds d. set_path d [period, var, region] rds (PDict []))
             list_reconstructions))
           list_regions))
         [''MAT'', ''MTCO'', ''MTWA'', ''MAP'', ''MATocean'']))
       list_periods (PDict [])"

text \<open>Lines 476-483: the reconstructed means and standard errors of one data set.\<close>

definition read_reconstructions ::
  "env \<Rightarrow> latlon \<Rightarrow> latlon \<Rightarrow> string \<Rightarrow> string \<Rightarrow> string \<Rightarrow> error + (tvar \<times> tvar)" where
  "read_reconstructions e latrange lonrange period rds var =
     ebind (getitem dic_data_files rds) (\<lambda>by_var.
     ebind (getitem by_var var) (\<lambda>by_period.
     ebind (getitem by_period period) (\<lambda>file.
     ebind (c_open e (rep_data @ file)) (\<lambda>f.
     ebind (getitem dic_rec_varnames rds) (\<lambda>names.
     ebind (getitem names var) (\<lambda>(n0, n1, n2).
     ebind (read_rec e f (n0 @ n1) latrange lonrange) (\<lambda>rmeorig.
     ebind (read_rec e f (n0 @ n2) latrange lonrange) (\<lambda>rseorig.
     Inr (rmeorig, rseorig)))))))))"

text \<open>
  Lines 486-494: NaN values are masked for Tierney2019, then the sum of the two masks
  (the elementwise or of two boolean arrays) is imposed on both fields.
\<close>

definition common_mask :: "string \<Rightarrow> tvar \<Rightarrow> tvar \<Rightarrow> error + (bool list \<times> tvar \<times> tvar)" where
  "common_mask rds rmeorig rseorig =
     ebind (if rds \<in> set [''Tierney2019'']
            then ebind (masked_where (np_isnan rmeorig) rmeorig) (\<lambda>a.
                 ebind (masked_where (np_isnan rseorig) rseorig) (\<lambda>b.
                 Inr (a, b)))
            else Inr (rmeorig, rseorig)) (\<lambda>(rmeorig, rseorig).
     let rsemask = mask_of rseorig;
         rmemask = mask_of rmeorig
     in ebind (np_binop (\<or>) rsemask rmemask) (\<lambda>recmask.
        ebind (masked_where recmask rmeorig) (\<lambda>rmeorig.
        ebind (masked_where recmask rseorig) (\<lambda>rseorig.
        Inr (recmask, rmeorig, rseorig)))))"

text \<open>Lines 508-509.\<close>

definition normalised_weights :: "tvar \<Rightarrow> real marray" where
  "normalised_weights rmeorig =
     (let recweights = area_weights rmeorig
      in idiv recweights (ma_sum recweights))"

text \<open>Lines 503 and 511-513: the point count and the three compressed vectors.\<close>

definition compressed_fields :: "tvar \<Rightarrow> tvar \<Rightarrow> nat \<times> flt list \<times> real list \<times> flt list" where
  "compressed_fields rmeorig rseorig =
     (let nrec = ma_count rmeorig;
          recweights = normalised_weights rmeorig;
          rme = compressed (map snd rmeorig);
          recwei = compressed recweights;
          rse = compressed (map snd rseorig)
      in (nrec, rme, recwei, rse))"

text \<open>
  Lines 496-500, 505 and 529-531: what is stored for the reconstructions. Only a data
  set whose mask is its \<^verbatim>\<open>'own'\<close> assigns \<^verbatim>\<open>chosenmask\<close> and stores the mask.
\<close>

definition store_mask :: "string list \<Rightarrow> string \<Rightarrow> bool list \<Rightarrow> pystate \<Rightarrow> error + pystate" where
  "store_mask entry rds recmask st =
     ebind (getitem dic_rds_masks rds) (\<lambda>which.
     if which = ''own''
     then ebind (set_path (dic_res st) entry ''mask'' (PMask recmask)) (\<lambda>d.
          Inr (st\<lparr>chosenmask := Some recmask, dic_res := d\<rparr>))
     else Inr st)"

definition store_reconstructions :: "string list \<Rightarrow> flt \<Rightarrow> flt \<Rightarrow> pyval \<Rightarrow> error + pyval" where
  "store_reconstructions entry frave frstd d =
     ebind (set_path d entry ''reconstructions'' (PDict [])) (\<lambda>d.
     ebind (set_path d (entry @ [''reconstructions'']) ''mean'' (PFloat frave)) (\<lambda>d.
     set_path d (entry @ [''reconstructions'']) ''std'' (PFloat frstd)))"

text \<open>Lines 476-531 for one period, variable, region and data set; the grid is kept.\<close>

definition reconstructions_step ::
  "env \<Rightarrow> latlon \<Rightarrow> latlon \<Rightarrow> string \<Rightarrow> string \<Rightarrow> string \<Rightarrow> string \<Rightarrow> pystate \<Rightarrow>
   error + (real list \<times> pystate)" where
  "reconstructions_step e latrange lonrange period region rds var st =
     ebind (read_reconstructions e latrange lonrange period rds var) (\<lambda>(rmeorig, rseorig).
     let recgrid = getGrid rmeorig;
         entry = [period, var, region, rds]
     in ebind (common_mask rds rmeorig rseorig) (\<lambda>(recmask, rmeorig, rseorig).
        ebind (store_mask entry rds recmask st) (\<lambda>st.
        let (nrec, rme, recwei, rse) = compressed_fields rmeorig rseorig
        in ebind (set_path (dic_res st) entry ''nbpts'' (PInt nrec)) (\<lambda>d.
           ebind (reconstruction_average (gauss_deviates e) rme rse recwei (gauss_pos st))
             (\<lambda>(frave, frstd, p).
           ebind (store_reconstructions entry frave frstd d) (\<lambda>d.
           Inr (recgrid, st\<lparr>dic_res := d, gauss_pos := p\<rparr>)))))))"

text \<open>
  Lines 544-553 and 561-570: the name of the model file. For the Mid-Holocene the name
  is assigned only when the glob pattern matches exactly one file; otherwise a message
  is printed and the variable keeps what it held.
\<close>

definition glob_pattern :: "string \<Rightarrow> string \<Rightarrow> string \<Rightarrow> string \<Rightarrow> string \<Rightarrow> string" where
  "glob_pattern dir modvarname diag model experiment =
     path_join dir
       [''*'', modvarname, diag @ modvarname @ ''*'' @ model @ ''*'' @ experiment @ ''*.nc'']"

definition resolve_fnamepi ::
  "env \<Rightarrow> string \<Rightarrow> string \<Rightarrow> string \<Rightarrow> string \<Rightarrow> pystate \<Rightarrow> error + pystate" where
  "resolve_fnamepi e period model modvarname diag st =
     (if period = ''MH'' then
        ebind (bound (dir_models st)) (\<lambda>dir.
        let files = glob_pattern dir modvarname diag model ''piControl'';
            file_list = glob_glob e files
        in if length file_list = 1 then Inr (st\<lparr>fnamepi := Some (file_list ! 0)\<rparr>)
           else Inr st)
      else if period = ''LGM'' then
        ebind (bound (dir_models st)) (\<lambda>dir.
        ebind (getitem dic_models ''PI'') (\<lambda>templates.
        ebind (getitem templates model) (\<lambda>template.
        ebind (pyformat template [modvarname, diag]) (\<lambda>name.
        Inr (st\<lparr>fnamepi := Some (path_join dir [name])\<rparr>)))))
      else Inr st)"

definition resolve_fnamepast ::
  "env \<Rightarrow> string \<Rightarrow> string \<Rightarrow> string \<Rightarrow> string \<Rightarrow> pystate \<Rightarrow> error + pystate" where
  "resolve_fnamepast e period model modvarname diag st =
     (if period = ''MH'' then
        ebind (bound (dir_models st)) (\<lambda>dir.
        let files = glob_pattern dir modvarname diag model ''midHolocene'';
            file_list = glob_glob e files
        in if length file_list = 1 then Inr (st\<lparr>fnamepast := Some (file_list ! 0)\<rparr>)
           else Inr st)
      else if period = ''LGM'' then
        ebind (bound (dir_models st)) (\<lambda>dir.
        ebind (getitem dic_models period) (\<lambda>templates.
        ebind (getitem templates model) (\<lambda>template.
        ebind (pyformat template [modvarname, diag]) (\<lambda>name.
        Inr (st\<lparr>fnamepast := Some (path_join dir [name])\<rparr>)))))
      else Inr st)"

text \<open>Lines 556-558 and 571-573: open the file whose name the variable holds and read.\<close>

definition open_model ::
  "env \<Rightarrow> string option \<Rightarrow> string \<Rightarrow> latlon \<Rightarrow> latlon \<Rightarrow> error + mvar" where
  "open_model e fname modvarname latrange lonrange =
     ebind (bound fname) (\<lambda>name.
     ebind (c_open e name) (\<lambda>f.
     read_model e f modvarname latrange lonrange))"

text \<open>
  Lines 590-594: the reconstruction mask is repeated along the time axis of the model
  field and imposed on the regridded field; shapes that differ raise IndexError.
\<close>

definition masked_where_rows :: "bool list \<Rightarrow> nat \<Rightarrow> mvar \<Rightarrow> error + mvar" where
  "masked_where_rows m nt v =
     (if length (rows v) \<noteq> nt \<or> list_ex (\<lambda>r. length r \<noteq> length m) (rows v)
      then Inl IndexError
      else Inr (v\<lparr>rows := map (\<lambda>r. map2 (\<lambda>c x. if c then None else x) m r) (rows v)\<rparr>))"

text \<open>
  Lines 584-615: regridding, masking, and the four annual series of regional averages,
  as the dictionary \<^verbatim>\<open>dic_stat_vars\<close>: for each case the pre-industrial series first, the
  series of the past period second. The association list is in the order in which
  \<^verbatim>\<open>dic_stat_vars.keys()\<close> lists the keys: the string hashes of CPython 2.7 send both keys
  to slot 4 of the eight slots of the dictionary, \<^verbatim>\<open>'allmodelpts'\<close> is inserted first and
  keeps it, the probe sequence sends \<^verbatim>\<open>'modelonrecpts'\<close> to slot 1, and \<^verbatim>\<open>keys()\<close> reads
  the slots upwards.
\<close>

definition regional_averages ::
  "env \<Rightarrow> real list \<Rightarrow> bool list \<Rightarrow> mvar \<Rightarrow> mvar \<Rightarrow>
   error + (string \<times> flt list \<times> flt list) list" where
  "regional_averages e recgrid msk vpi vpast =
     (let vpir = regrid e recgrid vpi;
          vpastr = regrid e recgrid vpast
      in ebind (masked_where_rows msk (length (rows vpi)) vpir) (\<lambda>vpim.
         ebind (masked_where_rows msk (length (rows vpast)) vpastr) (\<lambda>vpastm.
         let vpimall = compressed (averager e vpi);
             vpastmall = compressed (averager e vpast);
             vpirall = compressed (averager e vpim);
             vpastrall = compressed (averager e vpastm)
         in Inr [(''modelonrecpts'', vpirall, vpastrall),
                 (''allmodelpts'', vpimall, vpastmall)])))"

text \<open>Lines 575-615: unit conversion first, then regridding and averaging.\<close>

definition model_series ::
  "env \<Rightarrow> real list \<Rightarrow> bool list \<Rightarrow> string \<Rightarrow> string \<Rightarrow> mvar \<Rightarrow> mvar \<Rightarrow>
   error + (string \<times> flt list \<times> flt list) list" where
  "model_series e recgrid msk var model vpi vpast =
     (let (vpi, vpast) = change_units var model (vpi, vpast)
      in regional_averages e recgrid msk vpi vpast)"

text \<open>Lines 630-642 for one case, and lines 620-627 when no resampling is asked for.\<close>

definition case_statistics ::
  "env \<Rightarrow> string list \<Rightarrow> (string \<times> flt list \<times> flt list) list \<Rightarrow> string \<Rightarrow> pystate \<Rightarrow>
   error + pystate" where
  "case_statistics e entry dic_stat_vars cas st =
     ebind (getitem dic_stat_vars cas) (\<lambda>(v0, v1).
     ebind (delta_statistics (numpy_draws e) v0 v1 (numpy_pos st)) (\<lambda>(dm, ds, q).
     ebind (set_path (dic_res st) (entry @ [cas]) ''delta_mean'' (PFloat dm)) (\<lambda>d.
     ebind (set_path d (entry @ [cas]) ''delta_std'' (PFloat ds)) (\<lambda>d.
     Inr (st\<lparr>dic_res := d, numpy_pos := q\<rparr>)))))"

definition single_averages ::
  "string list \<Rightarrow> (string \<times> flt list \<times> flt list) list \<Rightarrow> pystate \<Rightarrow> error + pystate" where
  "single_averages entry dic_stat_vars st =
     ebind (getitem dic_stat_vars ''allmodelpts'') (\<lambda>(vpimall, vpastmall).
     ebind (getitem dic_stat_vars ''modelonrecpts'') (\<lambda>(vpirall, vpastrall).
     let deltamave = fsub (np_average vpastmall) (np_average vpimall);
         deltarave = fsub (np_average vpastrall) (np_average vpirall)
     in ebind (set_path (dic_res st) (entry @ [''allmodelpts'']) ''delta_mean'' (PFloat deltamave)) (\<lambda>d.
        ebind (set_path d (entry @ [''modelonrecpts'']) ''delta_mean'' (PFloat deltarave)) (\<lambda>d.
        ebind (set_path d (entry @ [''allmodelpts'']) ''delta_std'' (PFloat (Fin 0))) (\<lambda>d.
        ebind (set_path d (entry @ [''modelonrecpts'']) ''delta_std'' (PFloat (Fin 0))) (\<lambda>d.
        Inr (st\<lparr>dic_res := d\<rparr>)))))))"

text \<open>
  Lines 540-573: the two model fields. Each file is opened under the name its variable
  holds after the resolution.
\<close>

definition read_model_fields ::
  "env \<Rightarrow> latlon \<Rightarrow> latlon \<Rightarrow> string \<Rightarrow> string \<Rightarrow> string \<Rightarrow> pystate \<Rightarrow>
   error + (mvar \<times> mvar \<times> pystate)" where
  "read_model_fields e latrange lonrange period var model st =
     ebind (getitem dic_model_diagnames var) (\<lambda>diag.
     ebind (getitem dic_model_varnames var) (\<lambda>modvarname.
     ebind (resolve_fnamepi e period model modvarname diag st) (\<lambda>st.
     ebind (open_model e (fnamepi st) modvarname latrange lonrange) (\<lambda>vpi.
     ebind (resolve_fnamepast e period model modvarname diag st) (\<lambda>st.
     ebind (open_model e (fnamepast st) modvarname latrange lonrange) (\<lambda>vpast.
     Inr (vpi, vpast, st)))))))"

text \<open>
  Lines 616-617, 619-642 and 643-646. The cases are taken in the order of
  \<^verbatim>\<open>dic_stat_vars.keys()\<close>, \<^verbatim>\<open>'modelonrecpts'\<close> before \<^verbatim>\<open>'allmodelpts'\<close>. The last lines
  print two of the stored numbers.
\<close>

definition init_cases ::
  "string list \<Rightarrow> (string \<times> flt list \<times> flt list) list \<Rightarrow> pystate \<Rightarrow> error + pystate" where
  "init_cases entry dic_stat_vars st =
     foldM (\<lambda>cas st.
       ebind (set_path (dic_res st) entry cas (PDict [])) (\<lambda>d. Inr (st\<lparr>dic_res := d\<rparr>)))
     (keys dic_stat_vars) st"

definition time_averages ::
  "env \<Rightarrow> options \<Rightarrow> string list \<Rightarrow> (string \<times> flt list \<times> flt list) list \<Rightarrow> pystate \<Rightarrow>
   error + pystate" where
  "time_averages e opts entry dic_stat_vars st =
     (if compute_monte_carlo_averages opts \<noteq> ''yes''
      then single_averages entry dic_stat_vars st
      else foldM (case_statistics e entry dic_stat_vars) (keys dic_stat_vars) st)"

definition print_results :: "string list \<Rightarrow> pystate \<Rightarrow> error + pystate" where
  "print_results entry st =
     ebind (get_path (dic_res st) (entry @ [''allmodelpts'', ''delta_mean''])) (\<lambda>m.
     ebind (as_float m) (\<lambda>m.
     ebind (get_path (dic_res st) (entry @ [''allmodelpts'', ''delta_std''])) (\<lambda>s.
     ebind (as_float s) (\<lambda>s.
     Inr st))))"

text \<open>
  Lines 535-646 for one model. \<open>entry\<close> is the path
  \<^verbatim>\<open>[period][var][region][rds][model]\<close>.
\<close>

definition model_step ::
  "env \<Rightarrow> options \<Rightarrow> latlon \<Rightarrow> latlon \<Rightarrow> real list \<Rightarrow> string \<Rightarrow> string \<Rightarrow> string \<Rightarrow> string \<Rightarrow>
   string \<Rightarrow> pystate \<Rightarrow> error + pystate" where
  "model_step e opts latrange lonrange recgrid period region rds var model st =
     ebind (set_path (dic_res st) [period, var, region, rds] model (PDict [])) (\<lambda>d.
     let st = st\<lparr>dic_res := d\<rparr>;
         entry = [period, var, region, rds, model]
     in ebind (read_model_fields e latrange lonrange period var model st) (\<lambda>(vpi, vpast, st).
        ebind (bound (chosenmask st)) (\<lambda>msk.
        ebind (model_series e recgrid msk var model vpi vpast) (\<lambda>dic_stat_vars.
        ebind (init_cases entry dic_stat_vars st) (\<lambda>st.
        ebind (time_averages e opts entry dic_stat_vars st) (\<lambda>st.
        print_results entry st))))))"

text \<open>Lines 450-646: the loops over the variables, data sets, regions and periods.\<close>

definition variable_step ::
  "env \<Rightarrow> options \<Rightarrow> latlon \<Rightarrow> latlon \<Rightarrow> string \<Rightarrow> string \<Rightarrow> string \<Rightarrow> string \<Rightarrow> pystate \<Rightarrow>
   error + pystate" where
  "variable_step e opts latrange lonrange period region rds var st =
     ebind (reconstructions_step e latrange lonrange period region rds var st) (\<lambda>(recgrid, st).
     ebind (bound (list_models st)) (\<lambda>models.
     foldM (model_step e opts latrange lonrange recgrid period region rds var) models st))"

definition rds_step ::
  "env \<Rightarrow> options \<Rightarrow> latlon \<Rightarrow> latlon \<Rightarrow> string \<Rightarrow> string \<Rightarrow> string \<Rightarrow> pystate \<Rightarrow>
   error + pystate" where
  "rds_step e opts latrange lonrange period region rds st =
     ebind (getitem dic_list_vars period) (\<lambda>by_rds.
     if rds \<in> set (keys by_rds)
     then ebind (getitem by_rds rds) (\<lambda>list_vars.
          foldM (variable_step e opts latrange lonrange period region rds) list_vars st)
     else Inr st)"

definition region_step :: "env \<Rightarrow> options \<Rightarrow> string \<Rightarrow> string \<Rightarrow> pystate \<Rightarrow> error + pystate" where
  "region_step e opts period region st =
     ebind (getitem dic_regions region) (\<lambda>(latrange, lonrange).
     foldM (rds_step e opts latrange lonrange period region) list_reconstructions st)"

definition period_step :: "env \<Rightarrow> options \<Rightarrow> string \<Rightarrow> pystate \<Rightarrow> error + pystate" where
  "period_step e opts period st =
     (let st = (if period = ''LGM''
                then st\<lparr>list_models := Some list_models_lgm, dir_models := Some dir_lgm\<rparr>
                else st);
          st = (if period = ''MH''
                then st\<lparr>list_models := Some list_models_mh, dir_models := Some dir_mh\<rparr>
                else st)
      in foldM (region_step e opts period) list_regions st)"

definition compute_averages :: "env \<Rightarrow> options \<Rightarrow> pystate \<Rightarrow> error + pystate" where
  "compute_averages e opts st =
     ebind init_dic_res (\<lambda>d.
     foldM (period_step e opts) list_periods (st\<lparr>dic_res := d\<rparr>))"

text \<open>
  Lines 431-651: Part I reads the saved dictionary, or computes it and saves it.
\<close>

definition part1 :: "env \<Rightarrow> options \<Rightarrow> disk \<times> pystate \<Rightarrow> error + (disk \<times> pystate)" where
  "part1 e opts w =
     (let (dk, st) = w
      in if compute_averages_again opts \<noteq> ''yes''
         then (let (dk, saved_dic) = shelve_open dk shelve_name
               in ebind (shelve_get saved_dic ''dic_res'') (\<lambda>d.
                  Inr (dk, st\<lparr>dic_res := d\<rparr>)))
         else ebind (compute_averages e opts st) (\<lambda>st.
              Inr (shelve_set dk shelve_name ''dic_res'' (dic_res st), st)))"

section \<open>Vocabulary of the properties\<close>

text \<open>
  The contract of \<^verbatim>\<open>rk_interval\<close>: the value returned for the bound \<open>mx\<close> is at most \<open>mx\<close>.
\<close>

definition in_range :: "(nat \<Rightarrow> nat \<Rightarrow> nat) \<Rightarrow> bool" where
  "in_range us = (\<forall>q mx. us q mx \<le> mx)"

text \<open>
  The sample \<^verbatim>\<open>N.random.choice(a, nbyrs, replace=0)\<close> returns when the generator stands at
  position \<open>q\<close> (empty when the call raises), and the number of calls of
  \<^verbatim>\<open>rk_interval\<close> one such sample costs.
\<close>

definition sample :: "(nat \<Rightarrow> nat \<Rightarrow> nat) \<Rightarrow> flt list \<Rightarrow> nat \<Rightarrow> flt list" where
  "sample us a q = (case choice us a nbyrs q of Inl err \<Rightarrow> [] | Inr (s, q') \<Rightarrow> s)"

definition draws_of :: "flt list \<Rightarrow> nat" where
  "draws_of a = length a - 1"

text \<open>
  The differences as the claim on the temporal averages words them, for a generator at
  position \<open>q\<close>: iteration \<open>k\<close> draws a sample of the pre-industrial series, then a sample
  of the series of the past period, each with a shuffle of its own, and takes the average
  of the second minus the average of the first.
\<close>

definition bootstrap_deltas ::
  "(nat \<Rightarrow> nat \<Rightarrow> nat) \<Rightarrow> flt list \<Rightarrow> flt list \<Rightarrow> nat \<Rightarrow> flt list" where
  "bootstrap_deltas us vpi vpast q =
     map (\<lambda>k. let q0 = q + k * (draws_of vpi + draws_of vpast)
              in fsub (np_average (sample us vpast (q0 + draws_of vpi)))
                      (np_average (sample us vpi q0)))
       [0..<niter]"

text \<open>The weighted sum of a vector, \<^verbatim>\<open>N.sum(x*w)\<close> on numbers.\<close>

definition dot :: "real list \<Rightarrow> real list \<Rightarrow> real" where
  "dot xs w = sum_list (map2 (*) xs w)"

text \<open>
  One realisation as the specification words it: every grid point has a Gaussian draw
  of its own, point \<open>i\<close> taking deviate \<open>p + i\<close> of the stream.
\<close>

definition independent_realisation ::
  "(nat \<Rightarrow> real) \<Rightarrow> real list \<Rightarrow> real list \<Rightarrow> real list \<Rightarrow> nat \<Rightarrow> real" where
  "independent_realisation zs rme rse recwei p =
     dot (map (\<lambda>(i, m, s). m + zs (p + i) * s) (zip [0..<length rme] (zip rme rse))) recwei"

text \<open>
  What a path of \<^verbatim>\<open>dic_res\<close> holds: \<open>has_path\<close> when every key along it is present,
  \<open>dict_at\<close> when it leads to a dictionary.
\<close>

definition has_path :: "pyval \<Rightarrow> string list \<Rightarrow> bool" where
  "has_path d ps = (case get_path d ps of Inl e \<Rightarrow> False | Inr v \<Rightarrow> True)"

fun is_dict :: "pyval \<Rightarrow> bool" where
  "is_dict (PDict kvs) = True"
| "is_dict _ = False"

definition dict_at :: "pyval \<Rightarrow> string list \<Rightarrow> bool" where
  "dict_at d ps = (case get_path d ps of Inl e \<Rightarrow> False | Inr v \<Rightarrow> is_dict v)"

definition nan_masked :: "string \<Rightarrow> tvar \<Rightarrow> tvar" where
  "nan_masked rds v =
     (if rds \<in> set [''Tierney2019'']
      then map (\<lambda>(a, x). (a, if x = Some NaN then None else x)) v
      else v)"

definition both :: "tvar \<Rightarrow> tvar \<Rightarrow> (flt \<times> flt) marray" where
  "both v w =
     map2 (\<lambda>(a, x) (b, y).
        case x of None \<Rightarrow> None
        | Some m \<Rightarrow> (case y of None \<Rightarrow> None | Some s \<Rightarrow> Some (m, s))) v w"

text \<open>
  \<open>same_outside P d d'\<close>: the two dictionaries agree on every path that neither lies
  below \<open>P\<close> nor leads to it, as after assignments at or below \<open>P\<close>.
\<close>

definition same_outside :: "string list \<Rightarrow> pyval \<Rightarrow> pyval \<Rightarrow> bool" where
  "same_outside P d d' = (\<forall>q. \<not> prefix P q \<and> \<not> prefix q P \<longrightarrow> get_path d' q = get_path d q)"

text \<open>What one step leaves alone: the names assigned once per period.\<close>

definition same_names :: "pystate \<Rightarrow> pystate \<Rightarrow> bool" where
  "same_names st st' = (list_models st' = list_models st \<and> dir_models st' = dir_models st)"

text \<open>The four numbers one model contributes to an entry.\<close>

definition model_complete :: "pyval \<Rightarrow> string list \<Rightarrow> bool" where
  "model_complete d P =
     (has_path d (P @ [''allmodelpts'', ''delta_mean'']) \<and>
      has_path d (P @ [''allmodelpts'', ''delta_std'']) \<and>
      has_path d (P @ [''modelonrecpts'', ''delta_mean'']) \<and>
      has_path d (P @ [''modelonrecpts'', ''delta_std'']))"

text \<open>
  What the claim on the structure of \<^verbatim>\<open>dic_res\<close> asks of an entry
  \<^verbatim>\<open>dic_res[period][var][region][rds]\<close>: the keys of the reconstructions, and the four
  numbers of every model.
\<close>

definition rec_complete :: "pyval \<Rightarrow> string list \<Rightarrow> bool" where
  "rec_complete d E =
     (has_path d (E @ [''mask'']) \<and> has_path d (E @ [''nbpts'']) \<and>
      has_path d (E @ [''reconstructions'', ''mean'']) \<and>
      has_path d (E @ [''reconstructions'', ''std'']))"

definition entry_complete :: "pyval \<Rightarrow> string list \<Rightarrow> string list \<Rightarrow> bool" where
  "entry_complete d E models =
     (rec_complete d E \<and> list_all (\<lambda>m. model_complete d (E @ [m])) models)"

text \<open>
  \<open>only_entries S d d'\<close>: outside the entries \<^verbatim>\<open>[period][var][region][rds]\<close> of \<open>S\<close> the two
  dictionaries hold the same, entry by entry and below.
\<close>

definition only_entries :: "string list set \<Rightarrow> pyval \<Rightarrow> pyval \<Rightarrow> bool" where
  "only_entries S d d' =
     (\<forall>E r. length E = 4 \<and> E \<notin> S \<longrightarrow> get_path d' (E @ r) = get_path d (E @ r))"

definition step_rel :: "string list set \<Rightarrow> pystate \<Rightarrow> pystate \<Rightarrow> bool" where
  "step_rel S st st' = (only_entries S (dic_res st) (dic_res st') \<and> same_names st st')"

text \<open>
  The variables a data set is compared on in a period, \<^verbatim>\<open>dic_list_vars[period][rds]\<close>, empty
  when the period does not list the data set; the models of a period; and the entries
  \<^verbatim>\<open>[period][var][region][rds]\<close> the loops of lines 450-470 reach.
\<close>

definition list_vars_of :: "string \<Rightarrow> string \<Rightarrow> string list" where
  "list_vars_of period rds =
     (case map_of dic_list_vars period of
        None \<Rightarrow> []
      | Some by_rds \<Rightarrow> (case map_of by_rds rds of None \<Rightarrow> [] | Some vs \<Rightarrow> vs))"

definition models_of :: "string \<Rightarrow> string list" where
  "models_of period = (if period = ''MH'' then list_models_mh else list_models_lgm)"

definition entries_rds :: "string \<Rightarrow> string \<Rightarrow> string \<Rightarrow> string list set" where
  "entries_rds period region rds = (\<lambda>var. [period, var, region, rds]) ` set (list_vars_of period rds)"

definition entries_region :: "string \<Rightarrow> string \<Rightarrow> string list set" where
  "entries_region period region = (\<Union>rds\<in>set list_reconstructions. entries_rds period region rds)"

definition entries_period :: "string \<Rightarrow> string list set" where
  "entries_period period = (\<Union>region\<in>set list_regions. entries_region period region)"

definition all_vars :: "string list" where
  "all_vars = [''MAT'', ''MTCO'', ''MTWA'', ''MAP'', ''MATocean'']"

text \<open>\<open>keeps n d d'\<close>: every dictionary at depth at most \<open>n\<close> is still a dictionary.\<close>

definition keeps :: "nat \<Rightarrow> pyval \<Rightarrow> pyval \<Rightarrow> bool" where
  "keeps n d d' = (\<forall>q. length q \<le> n \<and> dict_at d q \<longrightarrow> dict_at d' q)"

text \<open>
  An environment in which the script runs to its end: every file opens, every
  reconstruction variable is one unmasked grid cell, every model field has fifty years on
  one cell, and every glob pattern matches one file.
\<close>

definition one_cell :: tvar where
  "one_cell = [(1, Some (Fin 0))]"

definition fifty_years :: mvar where
  "fifty_years = \<lparr>rows = replicate 50 [Some (Fin 0)], cells = [1]\<rparr>"

definition ideal_env :: env where
  "ideal_env =
     \<lparr>can_open = \<lambda>f. True,
      read_rec = \<lambda>f v a b. Inr one_cell,
      read_model = \<lambda>f v a b. Inr fifty_years,
      glob_glob = \<lambda>p. [''model.nc''],
      regrid = \<lambda>g v. v,
      averager = \<lambda>v. map (\<lambda>r. Some (Fin 0)) (rows v),
      gauss_deviates = \<lambda>i. 0,
      numpy_draws = \<lambda>q mx. 0\<rparr>"

text \<open>
  Model fields and an environment on which the temporal averages are evaluated:
  fifty-one years on one grid cell, year \<open>k\<close> of the pre-industrial file at \<open>273.15 + k\<close>
  kelvin and of the Mid-Holocene file 100 kelvin warmer, a regridder that doubles every
  value, an averager that returns the value of the one cell, and a generator whose every
  draw is 0.
\<close>

definition warming_years :: "real \<Rightarrow> mvar" where
  "warming_years c = \<lparr>rows = map (\<lambda>k. [Some (Fin (273.15 + c + real k))]) [0..<51], cells = [1]\<rparr>"

definition warming_env :: env where
  "warming_env =
     \<lparr>can_open = \<lambda>f. True,
      read_rec = \<lambda>f v a b. Inl IOError,
      read_model = \<lambda>f v a b. Inr (if f = ''pi.nc'' then warming_years 0 else warming_years 100),
      glob_glob = \<lambda>p. if p = glob_pattern dir_mh ''tas'' ''YR'' ''CCSM4'' ''piControl''
                       then [''pi.nc''] else [''past.nc''],
      regrid = \<lambda>g v. imul v 2,
      averager = \<lambda>v. map hd (rows v),
      gauss_deviates = \<lambda>i. 0,
      numpy_draws = \<lambda>q mx. 0\<rparr>"

definition warming_state :: pystate where
  "warming_state =
     start_state\<lparr>dic_res := PDict [(''MH'', PDict [(''MAT'', PDict [(''Globe'',
                     PDict [(''Bartlein2011'', PDict [])])])])],
                 dir_models := Some dir_mh, chosenmask := Some [False]\<rparr>"

text \<open>
  The environment of the warming fields when no glob pattern matches any file, and a
  state in which an earlier model has left its two file names.
\<close>

definition no_match_env :: env where
  "no_match_env = warming_env\<lparr>glob_glob := \<lambda>p. []\<rparr>"

definition stale_state :: pystate where
  "stale_state = warming_state\<lparr>fnamepi := Some ''pi.nc'', fnamepast := Some ''past.nc''\<rparr>"

section \<open>Basic facts\<close>

lemma ebind_simps [simp]: "ebind (Inl e) f = Inl e" "ebind (Inr x) f = f x"
  by (simp_all add: ebind_def)

lemma ebind_Inr_iff: "ebind m f = Inr y \<longleftrightarrow> (\<exists>x. m = Inr x \<and> f x = Inr y)"
  by (cases m) simp_all

lemma mset_swap': "i < length x \<Longrightarrow> j < length x \<Longrightarrow> mset (swap i j x) = mset x"
  by (simp add: swap_def mset_swap)

lemma shuffle_loop_snd: "snd (shuffle_loop us i (x, q)) = q + i"
  by (induction i arbitrary: x q) (simp_all add: rk_interval_def)

lemma shuffle_loop_length: "length (fst (shuffle_loop us i (x, q))) = length x"
  by (induction i arbitrary: x q) (simp_all add: rk_interval_def swap_def)

lemma shuffle_loop_mset:
  "in_range us \<Longrightarrow> i < length x \<Longrightarrow> mset (fst (shuffle_loop us i (x, q))) = mset x"
proof (induction i arbitrary: x q)
  case 0
  then show ?case by simp
next
  case (Suc i)
  let ?j = "us q (Suc i)"
  have "?j \<le> Suc i" using Suc.prems(1) by (simp add: in_range_def)
  then have j: "?j < length x" using Suc.prems(2) by linarith
  have len: "i < length (swap (Suc i) ?j x)" using Suc.prems(2) by (simp add: swap_def)
  show ?case
    using Suc.IH[OF Suc.prems(1) len] mset_swap'[OF Suc.prems(2) j] by (simp add: rk_interval_def)
qed


lemma permutation_snd: "snd (permutation us n q) = q + (n - 1)"
  by (simp add: permutation_def shuffle_loop_snd)

lemma permutation_mset: "in_range us \<Longrightarrow> mset (fst (permutation us n q)) = mset [0..<n]"
  by (cases n) (simp_all add: permutation_def shuffle_loop_mset)

lemma permutation_length: "length (fst (permutation us n q)) = n"
  by (simp add: permutation_def shuffle_loop_length)



lemma choice_short: "length a < k \<Longrightarrow> choice us a k q = Inl ValueError"
  by (simp add: choice_def)

lemma choice_ok:
  assumes "k \<le> length a" "a \<noteq> []"
  shows "choice us a k q =
           Inr (map (\<lambda>i. a ! i) (take k (fst (permutation us (length a) q))), q + (length a - 1))"
proof -
  obtain idx q1 where p: "permutation us (length a) q = (idx, q1)"
    by (cases "permutation us (length a) q")
  then have "choice us a k q = Inr (map (\<lambda>i. a ! i) (take k idx), q1)"
    using assms by (simp add: choice_def)
  moreover have "q1 = q + (length a - 1)" using permutation_snd[of us "length a" q] p by simp
  moreover have "idx = fst (permutation us (length a) q)" using p by simp
  ultimately show ?thesis by simp
qed

lemma nbyrs_nonempty: "nbyrs \<le> length a \<Longrightarrow> a \<noteq> []"
  by (auto simp: nbyrs_def)

lemma choice_sample:
  assumes "nbyrs \<le> length a"
  shows "choice us a nbyrs q = Inr (sample us a q, q + draws_of a)"
  using choice_ok[OF assms nbyrs_nonempty[OF assms], of us q]
  by (simp add: sample_def draws_of_def)

lemma sample_indices:
  assumes "nbyrs \<le> length a"
  shows "sample us a q = map (\<lambda>i. a ! i) (take nbyrs (fst (permutation us (length a) q)))"
  using choice_ok[OF assms nbyrs_nonempty[OF assms], of us q]
  by (simp add: sample_def)


lemma sample_mset:
  assumes "in_range us" "nbyrs \<le> length a"
  shows "length (sample us a q) = nbyrs \<and> mset (sample us a q) \<subseteq># mset a"
proof -
  let ?p = "fst (permutation us (length a) q)"
  have s: "sample us a q = map (\<lambda>i. a ! i) (take nbyrs ?p)" by (rule sample_indices[OF assms(2)])
  have l: "length (sample us a q) = nbyrs" unfolding s using permutation_length assms(2) by simp
  have "mset (map (\<lambda>i. a ! i) ?p) = mset (map (\<lambda>i. a ! i) [0..<length a])"
    using permutation_mset[OF assms(1), of "length a" q] by (metis mset_map)
  then have all: "mset (map (\<lambda>i. a ! i) ?p) = mset a" by (simp add: map_nth)
  have "mset (map (\<lambda>i. a ! i) ?p) =
        mset (sample us a q) + mset (map (\<lambda>i. a ! i) (drop nbyrs ?p))"
    unfolding s by (metis append_take_drop_id map_append mset_append)
  then have "mset (sample us a q) \<subseteq># mset a" using all by (metis mset_subset_eq_add_left)
  then show ?thesis using l by simp
qed

lemma dist_loop_exact:
  assumes "nbyrs \<le> length vpi" "nbyrs \<le> length vpast"
  shows "dist_loop us n vpi vpast (dpi, dpast, q) =
           Inr (dpi @ map (\<lambda>k. np_average (sample us vpi (q + k * (draws_of vpi + draws_of vpast)))) [0..<n],
                dpast @ map (\<lambda>k. np_average (sample us vpast
                                  (q + k * (draws_of vpi + draws_of vpast) + draws_of vpi))) [0..<n],
                q + n * (draws_of vpi + draws_of vpast))"
proof (induction n arbitrary: dpi dpast q)
  case 0
  then show ?case by simp
next
  case (Suc n)
  let ?c = "draws_of vpi + draws_of vpast"
  have u: "[0..<Suc n] = 0 # map Suc [0..<n]"
    by (simp add: upt_conv_Cons map_Suc_upt del: upt_Suc)
  have q: "\<And>k. q + draws_of vpi + draws_of vpast + k * ?c = q + Suc k * ?c" by simp
  have q': "\<And>k. q + draws_of vpi + draws_of vpast + k * ?c + draws_of vpi = q + Suc k * ?c + draws_of vpi"
    by simp
  show ?case
    unfolding u
    by (simp add: choice_sample[OF assms(1)] choice_sample[OF assms(2)] Suc.IH q q' comp_def
        del: upt_Suc)
qed

lemma dist_loop_ok:
  assumes "nbyrs \<le> length vpi" "nbyrs \<le> length vpast"
  shows "\<exists>r. dist_loop us n vpi vpast (dpi, dpast, q) = Inr r"
  using dist_loop_exact[OF assms] by blast

lemma dist_loop_short:
  assumes "length vpi < nbyrs \<or> length vpast < nbyrs"
  shows "dist_loop us (Suc n) vpi vpast (dpi, dpast, q) = Inl ValueError"
proof (cases "length vpi < nbyrs")
  case True
  then show ?thesis by (simp add: choice_short)
next
  case False
  then have s: "length vpast < nbyrs" using assms by simp
  show ?thesis
  proof (cases "choice us vpi nbyrs q")
    case (Inl e)
    then have "e = ValueError" by (auto simp: choice_def split: if_splits prod.splits)
    then show ?thesis using Inl by simp
  next
    case (Inr r)
    then show ?thesis using s by (cases r) (simp add: choice_short)
  qed
qed

lemma np_binop_same: "length xs = length ys \<Longrightarrow> np_binop f xs ys = Inr (map2 f xs ys)"
  by (simp add: np_binop_def)

lemma map2_map_map: "map2 f (map g xs) (map h xs) = map (\<lambda>x. f (g x) (h x)) xs"
  by (induction xs) simp_all

lemma delta_statistics_exact:
  assumes "nbyrs \<le> length vpi" "nbyrs \<le> length vpast"
  shows "delta_statistics us vpi vpast q =
           Inr (np_average (bootstrap_deltas us vpi vpast q),
                np_std (bootstrap_deltas us vpi vpast q),
                q + niter * (draws_of vpi + draws_of vpast))"
  unfolding delta_statistics_def dist_loop_exact[OF assms] bootstrap_deltas_def
  by (simp add: np_binop_same map2_map_map Let_def)

lemma np_sum_Fin: "np_sum (map Fin xs) = Fin (sum_list xs)"
  by (induction xs) (simp_all add: np_sum_def)

lemma gauss_Fin:
  assumes "length mu = length sigma"
  shows "gauss zs (map Fin mu) (map Fin sigma) p =
           Inr (map Fin (map2 (\<lambda>m s. m + zs p * s) mu sigma), Suc p)"
proof -
  have "map2 fadd (map Fin mu) (map (fmul (Fin (zs p))) (map Fin sigma)) =
        map Fin (map2 (\<lambda>m s. m + zs p * s) mu sigma)"
    using assms by (induction mu sigma rule: list_induct2) simp_all
  then show ?thesis using assms by (simp add: gauss_def np_binop_same)
qed

lemma fmul_Fin_map2:
  "length xs = length w \<Longrightarrow> map2 fmul (map Fin xs) (map Fin w) = map Fin (map2 (*) xs w)"
  by (induction xs w rule: list_induct2) simp_all

lemma dot_shared:
  assumes "length mu = length sigma" "length sigma = length w"
  shows "dot (map2 (\<lambda>m s. m + z * s) mu sigma) w = dot mu w + z * dot sigma w"
  using assms unfolding dot_def
  by (induction mu sigma w rule: list_induct3) (simp_all add: algebra_simps)

lemma rrave_loop_step:
  assumes "length rme = length rse" "length rse = length recwei"
  shows "rrave_loop zs (Suc n) (map Fin rme) (map Fin rse) recwei (rrave, p) =
         rrave_loop zs n (map Fin rme) (map Fin rse) recwei
           (rrave @ [Fin (dot rme recwei + zs p * dot rse recwei)], Suc p)"
proof -
  define D where "D = map2 (\<lambda>m s. m + zs p * s) rme rse"
  have l: "length D = length recwei" using assms by (simp add: D_def)
  have g: "gauss zs (map Fin rme) (map Fin rse) p = Inr (map Fin D, Suc p)"
    unfolding D_def by (rule gauss_Fin[OF assms(1)])
  have b: "np_binop fmul (map Fin D) (map Fin recwei) = Inr (map Fin (map2 (*) D recwei))"
    using l by (simp only: np_binop_same length_map fmul_Fin_map2)
  have d: "dot D recwei = dot rme recwei + zs p * dot rse recwei"
    unfolding D_def by (rule dot_shared[OF assms])
  have s0: "np_sum (map Fin (map2 (*) D recwei)) = Fin (dot D recwei)"
    unfolding dot_def by (rule np_sum_Fin)
  have s: "np_sum (map Fin (map2 (*) D recwei)) = Fin (dot rme recwei + zs p * dot rse recwei)"
    unfolding s0 d ..
  show ?thesis
    by (simp only: rrave_loop.simps g b s ebind_simps prod.case)
qed

lemma rrave_loop_Fin:
  assumes "length rme = length rse" "length rse = length recwei"
  shows "rrave_loop zs n (map Fin rme) (map Fin rse) recwei (rrave, p) =
           Inr (rrave @ map (\<lambda>k. Fin (dot rme recwei + zs (p + k) * dot rse recwei)) [0..<n], p + n)"
proof (induction n arbitrary: rrave p)
  case 0
  then show ?case by simp
next
  case (Suc n)
  have "map (\<lambda>k. Fin (dot rme recwei + zs (p + k) * dot rse recwei)) [0..<Suc n] =
        Fin (dot rme recwei + zs p * dot rse recwei) #
        map (\<lambda>k. Fin (dot rme recwei + zs (Suc p + k) * dot rse recwei)) [0..<n]"
    by (simp add: upt_conv_Cons map_Suc_upt[symmetric] del: upt_Suc)
  then show ?case
    by (simp add: rrave_loop_step[OF assms] Suc.IH del: upt_Suc rrave_loop.simps)
qed

lemma niter_Suc: "niter = Suc 9999"
  by (simp add: niter_def)

lemma delta_statistics_short:
  assumes "length vpi < nbyrs \<or> length vpast < nbyrs"
  shows "delta_statistics us vpi vpast q = Inl ValueError"
  unfolding delta_statistics_def niter_Suc dist_loop_short[OF assms] by simp

lemma delta_statistics_ok:
  assumes "nbyrs \<le> length vpi" "nbyrs \<le> length vpast"
  shows "\<exists>r. delta_statistics us vpi vpast q = Inr r"
  using delta_statistics_exact[OF assms] by blast

lemma getitem_update:
  "getitem (AList.update k v al) k' = (if k' = k then Inr v else getitem al k')"
  by (simp add: getitem_def update_conv')

lemma py_setitem_Inr: "py_setitem d k v = Inr d' \<Longrightarrow> \<exists>kvs. d = PDict kvs \<and> d' = PDict (AList.update k v kvs)"
  by (cases d) auto

lemma set_path_get_same:
  "set_path d ps k v = Inr d' \<Longrightarrow> get_path d' (ps @ k # r) = get_path v r"
proof (induction ps arbitrary: d d')
  case Nil
  then show ?case by (auto dest!: py_setitem_Inr simp: getitem_update)
next
  case (Cons p ps)
  from Cons.prems obtain sub sub' where
    g: "py_getitem d p = Inr sub" and s: "set_path sub ps k v = Inr sub'" and
    u: "py_setitem d p sub' = Inr d'"
    by (auto simp: ebind_Inr_iff)
  from py_setitem_Inr[OF u] obtain kvs where d: "d = PDict kvs" "d' = PDict (AList.update p sub' kvs)"
    by blast
  show ?case using Cons.IH[OF s] d by (simp add: getitem_update)
qed

lemma set_path_get_other:
  "set_path d ps k v = Inr d' \<Longrightarrow> \<not> prefix q (ps @ [k]) \<Longrightarrow> \<not> prefix (ps @ [k]) q \<Longrightarrow>
   get_path d' q = get_path d q"
proof (induction ps arbitrary: d d' q)
  case Nil
  from Nil.prems(1) obtain kvs where d: "d = PDict kvs" "d' = PDict (AList.update k v kvs)"
    by (auto dest!: py_setitem_Inr)
  from Nil.prems(2,3) obtain k' r where q: "q = k' # r" "k' \<noteq> k"
    by (cases q) auto
  show ?case using d q by (simp add: getitem_update)
next
  case (Cons p ps)
  from Cons.prems(1) obtain sub sub' where
    g: "py_getitem d p = Inr sub" and s: "set_path sub ps k v = Inr sub'" and
    u: "py_setitem d p sub' = Inr d'"
    by (auto simp: ebind_Inr_iff)
  from py_setitem_Inr[OF u] obtain kvs where d: "d = PDict kvs" "d' = PDict (AList.update p sub' kvs)"
    by blast
  from Cons.prems(2) obtain k' r where q: "q = k' # r" by (cases q) auto
  show ?case
  proof (cases "k' = p")
    case True
    with Cons.prems(2,3) q have "\<not> prefix r (ps @ [k])" "\<not> prefix (ps @ [k]) r" by auto
    from Cons.IH[OF s this] show ?thesis using d q True g by (simp add: getitem_update)
  next
    case False
    then show ?thesis using d q by (simp add: getitem_update)
  qed
qed

lemma set_path_dict_prefix:
  "set_path d ps k v = Inr d' \<Longrightarrow> prefix q ps \<Longrightarrow> dict_at d' q"
proof (induction ps arbitrary: d d' q)
  case Nil
  then show ?case by (auto dest!: py_setitem_Inr simp: dict_at_def)
next
  case (Cons p ps)
  from Cons.prems(1) obtain sub sub' where
    g: "py_getitem d p = Inr sub" and s: "set_path sub ps k v = Inr sub'" and
    u: "py_setitem d p sub' = Inr d'"
    by (auto simp: ebind_Inr_iff)
  from py_setitem_Inr[OF u] obtain kvs where d: "d = PDict kvs" "d' = PDict (AList.update p sub' kvs)"
    by blast
  show ?case
  proof (cases q)
    case Nil
    then show ?thesis using d by (simp add: dict_at_def)
  next
    case (Cons k' r)
    with Cons.prems(2) have "k' = p" "prefix r ps" by auto
    from Cons.IH[OF s this(2)] show ?thesis using d Cons \<open>k' = p\<close>
      by (simp add: dict_at_def getitem_update)
  qed
qed

lemma set_path_ok:
  "dict_at d ps \<Longrightarrow> \<exists>d'. set_path d ps k v = Inr d'"
proof (induction ps arbitrary: d)
  case Nil
  then show ?case by (cases d) (auto simp: dict_at_def)
next
  case (Cons p ps)
  from Cons.prems obtain sub where g: "py_getitem d p = Inr sub" and s: "dict_at sub ps"
    by (cases "py_getitem d p") (auto simp: dict_at_def)
  from g obtain kvs where d: "d = PDict kvs" by (cases d) auto
  from Cons.IH[OF s] obtain sub' where "set_path sub ps k v = Inr sub'" by blast
  then show ?case using g d by simp
qed

lemma get_path_append: "get_path d (ps @ qs) = ebind (get_path d ps) (\<lambda>sub. get_path sub qs)"
  by (induction ps arbitrary: d) (auto simp: ebind_def split: sum.splits)

lemma reconstruction_average_Fin:
  assumes "length rme = length rse" "length rse = length recwei"
  shows "reconstruction_average zs (map Fin rme) (map Fin rse) recwei p =
           Inr (np_average (map (\<lambda>k. Fin (dot rme recwei + zs (p + k) * dot rse recwei)) [0..<niter]),
                np_std (map (\<lambda>k. Fin (dot rme recwei + zs (p + k) * dot rse recwei)) [0..<niter]),
                p + niter)"
  by (simp add: reconstruction_average_def rrave_loop_Fin[OF assms])

lemma masked_where_Inr:
  "masked_where c v = Inr v' \<longleftrightarrow>
     (length c = length v \<and> v' = map2 (\<lambda>c (a, x). (a, if c then None else x)) c v)"
  by (auto simp: masked_where_def)

lemma masked_where_isnan:
  "masked_where (np_isnan v) v = Inr (map (\<lambda>(a, x). (a, if x = Some NaN then None else x)) v)"
proof -
  have "map2 (\<lambda>c (a, x). (a, if c then None else x)) (np_isnan v) v =
        map (\<lambda>(a, x). (a, if x = Some NaN then None else x)) v"
    unfolding np_isnan_def
  proof (induction v)
    case Nil
    then show ?case by simp
  next
    case (Cons p v)
    obtain a x where p: "p = (a, x)" by (cases p)
    show ?case
    proof (cases x)
      case None
      then show ?thesis using Cons p by simp
    next
      case (Some y)
      then show ?thesis using Cons p by (cases y) simp_all
    qed
  qed
  then show ?thesis by (simp add: masked_where_def np_isnan_def)
qed

lemma nan_step:
  "(if rds \<in> set [''Tierney2019'']
    then ebind (masked_where (np_isnan rmeorig) rmeorig) (\<lambda>a.
         ebind (masked_where (np_isnan rseorig) rseorig) (\<lambda>b. Inr (a, b)))
    else Inr (rmeorig, rseorig)) = Inr (nan_masked rds rmeorig, nan_masked rds rseorig)"
  by (simp add: masked_where_isnan nan_masked_def)

lemma np_binop_Inr_length:
  "np_binop f xs ys = Inr zs \<Longrightarrow> length zs = length xs \<Longrightarrow> length zs = length ys \<Longrightarrow>
   zs = map2 f xs ys"
  by (auto simp: np_binop_def split: if_splits)

lemma common_mask_Inr:
  assumes "common_mask rds rmeorig rseorig = Inr (recmask, rme', rse')"
  shows "length rmeorig = length rseorig \<and>
         recmask = map2 (\<or>) (mask_of (nan_masked rds rseorig)) (mask_of (nan_masked rds rmeorig)) \<and>
         rme' = map2 (\<lambda>c (a, x). (a, if c then None else x)) recmask (nan_masked rds rmeorig) \<and>
         rse' = map2 (\<lambda>c (a, x). (a, if c then None else x)) recmask (nan_masked rds rseorig)"
proof -
  let ?A = "nan_masked rds rmeorig" and ?B = "nan_masked rds rseorig"
  from assms have
    b: "np_binop (\<or>) (mask_of ?B) (mask_of ?A) = Inr recmask" and
    m1: "masked_where recmask ?A = Inr rme'" and
    m2: "masked_where recmask ?B = Inr rse'"
    unfolding common_mask_def nan_step by (auto simp: ebind_Inr_iff Let_def)
  have lA: "length ?A = length rmeorig" and lB: "length ?B = length rseorig"
    by (simp_all add: nan_masked_def)
  from m1 m2 have l: "length recmask = length ?A" "length recmask = length ?B"
    by (simp_all add: masked_where_Inr)
  have l2: "length ?A = length ?B" using l by simp
  have "recmask = map2 (\<or>) (mask_of ?B) (mask_of ?A)"
    by (rule np_binop_Inr_length[OF b]) (simp_all add: l(1) l2 mask_of_def)
  moreover have "length rmeorig = length rseorig" using l lA lB by metis
  moreover have "rme' = map2 (\<lambda>c (a, x). (a, if c then None else x)) recmask ?A"
    using m1 unfolding masked_where_Inr by blast
  moreover have "rse' = map2 (\<lambda>c (a, x). (a, if c then None else x)) recmask ?B"
    using m2 unfolding masked_where_Inr by blast
  ultimately show ?thesis by blast
qed

lemma compressed_Cons [simp]:
  "compressed [] = []"
  "compressed (None # xs) = compressed xs"
  "compressed (Some x # xs) = x # compressed xs"
  by (simp_all add: compressed_def)

lemma length_compressed: "length (compressed xs) = length (filter (\<lambda>x. x \<noteq> None) xs)"
  by (induction xs) (auto split: option.splits)

lemma ma_count_compressed: "ma_count v = length (compressed (map snd v))"
  unfolding ma_count_def length_compressed by (induction v) auto

lemma area_weights_length: "length (compressed (area_weights v)) = ma_count v"
  unfolding ma_count_def area_weights_def
proof (induction v)
  case Nil
  then show ?case by simp
next
  case (Cons p v)
  obtain a x where p: "p = (a, x)" by (cases p)
  show ?case using Cons p by (cases x) simp_all
qed

lemma compressed_idiv:
  "d \<noteq> 0 \<Longrightarrow> compressed (idiv w d) = map (\<lambda>x. x / d) (compressed w)"
  unfolding idiv_def
proof (induction w)
  case Nil
  then show ?case by simp
next
  case (Cons x w)
  then show ?case by (cases x) simp_all
qed

lemma compressed_idiv_zero: "compressed (idiv w 0) = []"
  unfolding idiv_def by (induction w) simp_all

lemma area_weights_pos:
  "list_all (\<lambda>(a, x). 0 < a) v \<Longrightarrow> list_all (\<lambda>a. 0 < a) (compressed (area_weights v))"
  unfolding area_weights_def
proof (induction v)
  case Nil
  then show ?case by simp
next
  case (Cons p v)
  obtain a x where p: "p = (a, x)" by (cases p)
  show ?case using Cons p by (cases x) simp_all
qed

lemma sum_list_pos_all:
  "list_all (\<lambda>a. 0 < (a::real)) xs \<Longrightarrow> xs \<noteq> [] \<Longrightarrow> 0 < sum_list xs"
proof (induction xs)
  case Nil
  then show ?case by simp
next
  case (Cons x xs)
  then show ?case by (cases xs) (auto intro: add_pos_pos)
qed

lemma ma_sum_area_pos:
  assumes "list_all (\<lambda>(a, x). 0 < a) v" "0 < ma_count v"
  shows "0 < ma_sum (area_weights v)"
proof -
  have "compressed (area_weights v) \<noteq> []"
    using assms(2) area_weights_length[of v] by auto
  then show ?thesis
    unfolding ma_sum_def using area_weights_pos[OF assms(1)] by (rule sum_list_pos_all[rotated])
qed

lemma normalised_weights_length:
  assumes "list_all (\<lambda>(a, x). 0 < a) v"
  shows "length (compressed (normalised_weights v)) = ma_count v"
proof (cases "ma_count v = 0")
  case True
  then have "compressed (area_weights v) = []" using area_weights_length[of v] by simp
  then have "ma_sum (area_weights v) = 0" by (simp add: ma_sum_def)
  then show ?thesis using True by (simp add: normalised_weights_def Let_def compressed_idiv_zero)
next
  case False
  then have "ma_sum (area_weights v) \<noteq> 0" using ma_sum_area_pos[OF assms] by simp
  then show ?thesis
    by (simp add: normalised_weights_def Let_def compressed_idiv area_weights_length)
qed

lemma normalised_weights_values:
  assumes "list_all (\<lambda>(a, x). 0 < a) v" "0 < ma_count v"
  shows "compressed (normalised_weights v) =
           map (\<lambda>a. a / ma_sum (area_weights v)) (compressed (area_weights v))"
  using ma_sum_area_pos[OF assms] by (simp add: normalised_weights_def Let_def compressed_idiv)

lemma sum_list_div: "sum_list (map (\<lambda>a. a / (d::real)) xs) = sum_list xs / d"
  by (induction xs) (simp_all add: add_divide_distrib)

lemma masked_pairs:
  assumes "length A = length B"
  shows "compressed (map snd (map2 (\<lambda>c (a, x). (a, if c then None else x))
            (map2 (\<or>) (mask_of B) (mask_of A)) A)) = map fst (compressed (both A B)) \<and>
         compressed (map snd (map2 (\<lambda>c (a, x). (a, if c then None else x))
            (map2 (\<or>) (mask_of B) (mask_of A)) B)) = map snd (compressed (both A B))"
  using assms unfolding mask_of_def both_def
proof (induction A B rule: list_induct2)
  case Nil
  then show ?case by simp
next
  case (Cons p A q B)
  obtain a x where p: "p = (a, x)" by (cases p)
  obtain b y where q: "q = (b, y)" by (cases q)
  show ?case using Cons p q by (cases x; cases y) simp_all
qed

lemma area_weights_nonneg_div:
  assumes "list_all (\<lambda>a. 0 < (a::real)) xs" "0 < d"
  shows "list_all (\<lambda>w. 0 \<le> w) (map (\<lambda>a. a / d) xs)"
  using assms by (induction xs) simp_all

lemma same_outside_refl: "same_outside P d d"
  by (simp add: same_outside_def)

lemma same_outside_trans:
  "same_outside P d d1 \<Longrightarrow> same_outside P d1 d2 \<Longrightarrow> same_outside P d d2"
  by (simp add: same_outside_def)

lemma same_outside_mono:
  assumes "same_outside P d d'" "prefix P0 P"
  shows "same_outside P0 d d'"
  unfolding same_outside_def
proof (intro allI impI)
  fix q assume q: "\<not> prefix P0 q \<and> \<not> prefix q P0"
  have "\<not> prefix P q" using q assms(2) by (meson prefix_order.trans)
  moreover have "\<not> prefix q P" using q assms(2) by (meson prefix_same_cases)
  ultimately show "get_path d' q = get_path d q" using assms(1) by (simp add: same_outside_def)
qed

lemma set_path_same_outside:
  assumes "set_path d ps k v = Inr d'" "prefix P (ps @ [k])"
  shows "same_outside P d d'"
  unfolding same_outside_def
proof (intro allI impI)
  fix q assume q: "\<not> prefix P q \<and> \<not> prefix q P"
  have "\<not> prefix (ps @ [k]) q" using q assms(2) by (meson prefix_order.trans)
  moreover have "\<not> prefix q (ps @ [k])" using q assms(2) by (meson prefix_same_cases)
  ultimately show "get_path d' q = get_path d q" by (rule set_path_get_other[OF assms(1), rotated])
qed

lemma same_outside_get:
  "same_outside P d d' \<Longrightarrow> \<not> prefix P q \<Longrightarrow> \<not> prefix q P \<Longrightarrow> get_path d' q = get_path d q"
  by (simp add: same_outside_def)

lemma same_outside_has:
  "same_outside P d d' \<Longrightarrow> \<not> prefix P q \<Longrightarrow> \<not> prefix q P \<Longrightarrow> has_path d q \<Longrightarrow> has_path d' q"
  by (simp add: same_outside_def has_path_def)

lemma has_path_get: "has_path d q \<longleftrightarrow> (\<exists>v. get_path d q = Inr v)"
  by (cases "get_path d q") (simp_all add: has_path_def)

lemma dict_at_get: "dict_at d q \<longleftrightarrow> (\<exists>kvs. get_path d q = Inr (PDict kvs))"
proof (cases "get_path d q")
  case (Inl e)
  then show ?thesis by (simp add: dict_at_def)
next
  case (Inr v)
  then show ?thesis by (cases v) (simp_all add: dict_at_def)
qed

lemma set_path_has_same: "set_path d ps k v = Inr d' \<Longrightarrow> has_path d' (ps @ [k])"
  using set_path_get_same[of d ps k v d' "[]"] by (simp add: has_path_get)

lemma set_path_dict_same: "set_path d ps k (PDict kvs) = Inr d' \<Longrightarrow> dict_at d' (ps @ [k])"
  using set_path_get_same[of d ps k "PDict kvs" d' "[]"] by (simp add: dict_at_get)

lemma set_path_dict_short:
  assumes "set_path d ps k v = Inr d'" "length q \<le> length ps" "dict_at d q"
  shows "dict_at d' q"
proof (cases "prefix q ps")
  case True
  then show ?thesis by (rule set_path_dict_prefix[OF assms(1)])
next
  case False
  have a: "\<not> prefix q (ps @ [k])" using False assms(2)
    by (metis prefix_snoc prefix_length_le length_append_singleton not_less_eq_eq)
  have b: "\<not> prefix (ps @ [k]) q" using assms(2)
    by (metis prefix_length_le length_append_singleton not_less_eq_eq)
  show ?thesis using set_path_get_other[OF assms(1) a b] assms(3) by (simp add: dict_at_def)
qed

lemma set_path_has_other:
  assumes "set_path d ps k v = Inr d'" "has_path d q" "\<not> strict_prefix (ps @ [k]) q"
  shows "has_path d' q"
proof (cases "q = ps @ [k]")
  case True
  then show ?thesis using set_path_has_same[OF assms(1)] by simp
next
  case False
  show ?thesis
  proof (cases "prefix q ps")
    case True
    from set_path_dict_prefix[OF assms(1) True] show ?thesis
      by (auto simp: dict_at_get has_path_get)
  next
    case np: False
    have a: "\<not> prefix q (ps @ [k])" using False np by (simp add: prefix_snoc)
    have b: "\<not> prefix (ps @ [k]) q" using False assms(3) by (auto simp: strict_prefix_def)
    show ?thesis using set_path_get_other[OF assms(1) a b] assms(2) by (simp add: has_path_def)
  qed
qed

lemma foldM_append: "foldM f (xs @ ys) s = ebind (foldM f xs s) (foldM f ys)"
  by (induction xs arbitrary: s) (auto simp: ebind_def split: sum.splits)

lemma foldM_invariant:
  assumes "foldM f xs s = Inr s'" "I s"
    and "\<And>x s s'. x \<in> set xs \<Longrightarrow> I s \<Longrightarrow> f x s = Inr s' \<Longrightarrow> I s'"
  shows "I s'"
  using assms
proof (induction xs arbitrary: s)
  case Nil
  then show ?case by simp
next
  case (Cons x xs)
  from Cons.prems(1) obtain s1 where s1: "f x s = Inr s1" "foldM f xs s1 = Inr s'"
    by (auto simp: ebind_Inr_iff)
  have "I s1" using Cons.prems(2,3) s1(1) by auto
  then show ?case using Cons.IH[OF s1(2)] Cons.prems(3) by auto
qed

lemma foldM_establish:
  assumes "foldM f xs s = Inr s'"
    and est: "\<And>x s s'. x \<in> set xs \<Longrightarrow> f x s = Inr s' \<Longrightarrow> \<forall>k\<in>K x. C k s'"
    and pres: "\<And>x s s' k. x \<in> set xs \<Longrightarrow> f x s = Inr s' \<Longrightarrow> k \<notin> K x \<Longrightarrow> C k s \<Longrightarrow> C k s'"
    and "\<forall>k\<in>A. C k s"
  shows "\<forall>k\<in>A \<union> (\<Union>x\<in>set xs. K x). C k s'"
  using assms
proof (induction xs arbitrary: s A)
  case Nil
  then show ?case by simp
next
  case (Cons x xs)
  from Cons.prems(1) obtain s1 where s1: "f x s = Inr s1" "foldM f xs s1 = Inr s'"
    by (auto simp: ebind_Inr_iff)
  have a: "\<forall>k\<in>A \<union> K x. C k s1"
  proof
    fix k assume k: "k \<in> A \<union> K x"
    show "C k s1"
    proof (cases "k \<in> K x")
      case True
      then show ?thesis using Cons.prems(2)[OF _ s1(1)] by simp
    next
      case False
      then have "C k s" using k Cons.prems(4) by auto
      then show ?thesis using Cons.prems(3)[OF _ s1(1) False] by simp
    qed
  qed
  have e: "\<And>y s s'. y \<in> set xs \<Longrightarrow> f y s = Inr s' \<Longrightarrow> \<forall>k\<in>K y. C k s'"
    using Cons.prems(2) by (meson list.set_intros(2))
  have p: "\<And>y s s' k. y \<in> set xs \<Longrightarrow> f y s = Inr s' \<Longrightarrow> k \<notin> K y \<Longrightarrow> C k s \<Longrightarrow> C k s'"
    using Cons.prems(3) by (meson list.set_intros(2))
  have "\<forall>k\<in>(A \<union> K x) \<union> (\<Union>x\<in>set xs. K x). C k s'"
    by (rule Cons.IH[OF s1(2) e p a])
  then show ?case by auto
qed

lemma foldM_ok:
  assumes "I s"
    and "\<And>x s. x \<in> set xs \<Longrightarrow> I s \<Longrightarrow> \<exists>s'. f x s = Inr s' \<and> I s'"
  shows "\<exists>s'. foldM f xs s = Inr s' \<and> I s'"
  using assms
proof (induction xs arbitrary: s)
  case Nil
  then show ?case by simp
next
  case (Cons x xs)
  from Cons.prems obtain s1 where s1: "f x s = Inr s1" "I s1" by (meson list.set_intros(1))
  from Cons.IH[OF s1(2)] Cons.prems(2) obtain s' where "foldM f xs s1 = Inr s' \<and> I s'"
    by (meson list.set_intros(2))
  then show ?case using s1 by simp
qed

lemma strict_prefix_same_append [simp]:
  "strict_prefix (xs @ ys) (xs @ zs) = strict_prefix ys zs"
  by (simp add: strict_prefix_def)

lemma strict_prefix_Cons_Cons [simp]:
  "strict_prefix (x # xs) (y # ys) = (x = y \<and> strict_prefix xs ys)"
  by (auto simp: strict_prefix_def)

lemma case_statistics_Inr:
  assumes "case_statistics e entry dsv cas st = Inr st'"
  shows "same_outside (entry @ [cas]) (dic_res st) (dic_res st') \<and>
         has_path (dic_res st') (entry @ [cas, ''delta_mean'']) \<and>
         has_path (dic_res st') (entry @ [cas, ''delta_std'']) \<and>
         same_names st st' \<and> chosenmask st' = chosenmask st"
proof -
  from assms obtain v0 v1 dm ds q d1 d2 where
    d1: "set_path (dic_res st) (entry @ [cas]) ''delta_mean'' (PFloat dm) = Inr d1" and
    d2: "set_path d1 (entry @ [cas]) ''delta_std'' (PFloat ds) = Inr d2" and
    st': "st' = st\<lparr>dic_res := d2, numpy_pos := q\<rparr>"
    by (auto simp: case_statistics_def ebind_Inr_iff)
  have o: "same_outside (entry @ [cas]) (dic_res st) d2"
    by (rule same_outside_trans[OF set_path_same_outside[OF d1] set_path_same_outside[OF d2]])
       simp_all
  have h2: "has_path d2 ((entry @ [cas]) @ [''delta_std''])" by (rule set_path_has_same[OF d2])
  have h1: "has_path d2 ((entry @ [cas]) @ [''delta_mean''])"
    by (rule set_path_has_other[OF d2 set_path_has_same[OF d1]]) simp
  show ?thesis using o h1 h2 st' by (simp add: same_names_def)
qed

lemma single_averages_Inr:
  assumes "single_averages entry dsv st = Inr st'"
  shows "same_outside entry (dic_res st) (dic_res st') \<and>
         has_path (dic_res st') (entry @ [''allmodelpts'', ''delta_mean'']) \<and>
         has_path (dic_res st') (entry @ [''allmodelpts'', ''delta_std'']) \<and>
         has_path (dic_res st') (entry @ [''modelonrecpts'', ''delta_mean'']) \<and>
         has_path (dic_res st') (entry @ [''modelonrecpts'', ''delta_std'']) \<and>
         same_names st st' \<and> chosenmask st' = chosenmask st"
proof -
  from assms obtain a b c x d1 d2 d3 d4 where
    d1: "set_path (dic_res st) (entry @ [''allmodelpts'']) ''delta_mean'' (PFloat a) = Inr d1" and
    d2: "set_path d1 (entry @ [''modelonrecpts'']) ''delta_mean'' (PFloat b) = Inr d2" and
    d3: "set_path d2 (entry @ [''allmodelpts'']) ''delta_std'' (PFloat c) = Inr d3" and
    d4: "set_path d3 (entry @ [''modelonrecpts'']) ''delta_std'' (PFloat x) = Inr d4" and
    st': "st' = st\<lparr>dic_res := d4\<rparr>"
    by (auto simp: single_averages_def ebind_Inr_iff Let_def)
  have o: "same_outside entry (dic_res st) d4"
    by (rule same_outside_trans[OF same_outside_trans[OF same_outside_trans[OF
          set_path_same_outside[OF d1] set_path_same_outside[OF d2]]
          set_path_same_outside[OF d3]] set_path_same_outside[OF d4]]) simp_all
  have h1: "has_path d1 ((entry @ [''allmodelpts'']) @ [''delta_mean''])" by (rule set_path_has_same[OF d1])
  have h2: "has_path d2 ((entry @ [''modelonrecpts'']) @ [''delta_mean''])" by (rule set_path_has_same[OF d2])
  have h3: "has_path d3 ((entry @ [''allmodelpts'']) @ [''delta_std''])" by (rule set_path_has_same[OF d3])
  have h4: "has_path d4 ((entry @ [''modelonrecpts'']) @ [''delta_std''])" by (rule set_path_has_same[OF d4])
  have h1': "has_path d4 ((entry @ [''allmodelpts'']) @ [''delta_mean''])"
    by (intro set_path_has_other[OF d4] set_path_has_other[OF d3] set_path_has_other[OF d2] h1) simp_all
  have h2': "has_path d4 ((entry @ [''modelonrecpts'']) @ [''delta_mean''])"
    by (intro set_path_has_other[OF d4] set_path_has_other[OF d3] h2) simp_all
  have h3': "has_path d4 ((entry @ [''allmodelpts'']) @ [''delta_std''])"
    by (intro set_path_has_other[OF d4] h3) simp_all
  show ?thesis using o h1' h2' h3' h4 st' by (simp add: same_names_def)
qed

lemma regional_averages_keys:
  "regional_averages e recgrid msk vpi vpast = Inr dsv \<Longrightarrow>
   keys dsv = [''modelonrecpts'', ''allmodelpts'']"
  by (auto simp: regional_averages_def ebind_Inr_iff Let_def keys_def)

lemma model_series_keys:
  "model_series e recgrid msk var model vpi vpast = Inr dsv \<Longrightarrow>
   keys dsv = [''modelonrecpts'', ''allmodelpts'']"
  by (auto simp: model_series_def split: prod.splits dest: regional_averages_keys)

lemma ebind_InrE:
  assumes "ebind m f = Inr y"
  obtains x where "m = Inr x" "f x = Inr y"
  using assms by (auto simp: ebind_Inr_iff)

lemma resolve_fnamepi_Inr:
  "resolve_fnamepi e period model modvarname diag st = Inr st' \<Longrightarrow>
   dic_res st' = dic_res st \<and> same_names st st' \<and> chosenmask st' = chosenmask st"
  by (auto simp: resolve_fnamepi_def ebind_Inr_iff Let_def same_names_def split: if_splits)

lemma resolve_fnamepast_Inr:
  "resolve_fnamepast e period model modvarname diag st = Inr st' \<Longrightarrow>
   dic_res st' = dic_res st \<and> same_names st st' \<and> chosenmask st' = chosenmask st"
  by (auto simp: resolve_fnamepast_def ebind_Inr_iff Let_def same_names_def split: if_splits)

lemma same_names_trans: "same_names a b \<Longrightarrow> same_names b c \<Longrightarrow> same_names a c"
  by (simp add: same_names_def)

lemma read_model_fields_Inr:
  assumes "read_model_fields e latrange lonrange period var model st = Inr (vpi, vpast, st')"
  shows "dic_res st' = dic_res st \<and> same_names st st' \<and> chosenmask st' = chosenmask st"
proof -
  from assms obtain diag modvarname st1 where
    p1: "resolve_fnamepi e period model modvarname diag st = Inr st1" and
    p2: "resolve_fnamepast e period model modvarname diag st1 = Inr st'"
    unfolding read_model_fields_def by (elim ebind_InrE) simp
  from resolve_fnamepi_Inr[OF p1] resolve_fnamepast_Inr[OF p2]
  show ?thesis by (simp add: same_names_def)
qed

lemma init_cases_Inr:
  assumes "init_cases P dsv st = Inr st'" "keys dsv = [''modelonrecpts'', ''allmodelpts'']"
  shows "same_outside P (dic_res st) (dic_res st') \<and> same_names st st' \<and>
         chosenmask st' = chosenmask st"
proof -
  from assms obtain c1 c2 where
    c1: "set_path (dic_res st) P ''modelonrecpts'' (PDict []) = Inr c1" and
    c2: "set_path c1 P ''allmodelpts'' (PDict []) = Inr c2" and
    st': "st' = st\<lparr>dic_res := c2\<rparr>"
    unfolding init_cases_def by (auto simp: ebind_Inr_iff)
  have "same_outside P (dic_res st) c2"
    by (rule same_outside_trans[OF set_path_same_outside[OF c1] set_path_same_outside[OF c2]])
       simp_all
  then show ?thesis using st' by (simp add: same_names_def)
qed

lemma time_averages_Inr:
  assumes "time_averages e opts P dsv st = Inr st'" "keys dsv = [''modelonrecpts'', ''allmodelpts'']"
  shows "same_outside P (dic_res st) (dic_res st') \<and> model_complete (dic_res st') P \<and>
         same_names st st' \<and> chosenmask st' = chosenmask st"
proof (cases "compute_monte_carlo_averages opts \<noteq> ''yes''")
  case True
  with assms(1) have "single_averages P dsv st = Inr st'" by (simp add: time_averages_def)
  from single_averages_Inr[OF this] show ?thesis by (simp add: model_complete_def)
next
  case False
  with assms obtain s5 where
    a: "case_statistics e P dsv ''modelonrecpts'' st = Inr s5" and
    b: "case_statistics e P dsv ''allmodelpts'' s5 = Inr st'"
    by (auto simp: time_averages_def ebind_Inr_iff)
  note A = case_statistics_Inr[OF a] and B = case_statistics_Inr[OF b]
  have oa: "same_outside P (dic_res st) (dic_res s5)"
    by (rule same_outside_mono[of "P @ [''modelonrecpts'']"]) (use A in simp_all)
  have ob: "same_outside P (dic_res s5) (dic_res st')"
    by (rule same_outside_mono[of "P @ [''allmodelpts'']"]) (use B in simp_all)
  have o: "same_outside P (dic_res st) (dic_res st')"
    by (rule same_outside_trans[OF oa ob])
  have sb: "same_outside (P @ [''allmodelpts'']) (dic_res s5) (dic_res st')" using B by simp
  have h1: "has_path (dic_res st') (P @ [''modelonrecpts'', ''delta_mean''])"
    by (rule same_outside_has[OF sb]) (use A in simp_all)
  have h2: "has_path (dic_res st') (P @ [''modelonrecpts'', ''delta_std''])"
    by (rule same_outside_has[OF sb]) (use A in simp_all)
  have n: "same_names st st'" using A B by (simp add: same_names_def)
  have c: "chosenmask st' = chosenmask st" using A B by simp
  show ?thesis using o h1 h2 B n c by (simp add: model_complete_def)
qed

lemma print_results_Inr: "print_results P st = Inr st' \<Longrightarrow> st' = st"
  unfolding print_results_def by (elim ebind_InrE) simp

lemma model_step_Inr:
  assumes "model_step e opts latrange lonrange recgrid period region rds var model st = Inr st'"
  shows "same_outside [period, var, region, rds, model] (dic_res st) (dic_res st') \<and>
         model_complete (dic_res st') [period, var, region, rds, model] \<and>
         same_names st st' \<and> chosenmask st' = chosenmask st"
proof -
  let ?E = "[period, var, region, rds]"
  let ?P = "[period, var, region, rds, model]"
  from assms obtain d0 vpi vpast st2 msk dsv st3 st4 where
    d0: "set_path (dic_res st) ?E model (PDict []) = Inr d0" and
    rf: "read_model_fields e latrange lonrange period var model (st\<lparr>dic_res := d0\<rparr>) =
           Inr (vpi, vpast, st2)" and
    ms: "model_series e recgrid msk var model vpi vpast = Inr dsv" and
    f3: "init_cases ?P dsv st2 = Inr st3" and
    f4: "time_averages e opts ?P dsv st3 = Inr st4" and
    pr: "print_results ?P st4 = Inr st'"
    by (auto simp: model_step_def Let_def ebind_Inr_iff simp del: set_path.simps get_path.simps)
  have k: "keys dsv = [''modelonrecpts'', ''allmodelpts'']" by (rule model_series_keys[OF ms])
  note R = read_model_fields_Inr[OF rf] and I = init_cases_Inr[OF f3 k]
    and T = time_averages_Inr[OF f4 k] and e = print_results_Inr[OF pr]
  have o0: "same_outside ?P (dic_res st) d0"
    by (rule set_path_same_outside[OF d0]) simp
  have o2: "same_outside ?P (dic_res st) (dic_res st2)" using o0 R by simp
  have o3: "same_outside ?P (dic_res st) (dic_res st3)"
    by (rule same_outside_trans[OF o2]) (use I in simp)
  have o4: "same_outside ?P (dic_res st) (dic_res st4)"
    by (rule same_outside_trans[OF o3]) (use T in simp)
  have n: "same_names st st4" using R I T by (simp add: same_names_def)
  have c: "chosenmask st4 = chosenmask st" using R I T by simp
  show ?thesis using o4 T n c e by simp
qed

lemma store_mask_Inr:
  assumes "store_mask E rds recmask st = Inr st'" "getitem dic_rds_masks rds = Inr ''own''"
  shows "\<exists>d. set_path (dic_res st) E ''mask'' (PMask recmask) = Inr d \<and>
             st' = st\<lparr>chosenmask := Some recmask, dic_res := d\<rparr>"
  using assms by (auto simp: store_mask_def ebind_Inr_iff simp del: set_path.simps)

lemma store_reconstructions_Inr:
  assumes "store_reconstructions E frave frstd d = Inr d'"
  shows "same_outside (E @ [''reconstructions'']) d d' \<and>
         get_path d' (E @ [''reconstructions'', ''mean'']) = Inr (PFloat frave) \<and>
         get_path d' (E @ [''reconstructions'', ''std'']) = Inr (PFloat frstd)"
proof -
  let ?R = "E @ [''reconstructions'']"
  from assms obtain d1 d2 where
    d1: "set_path d E ''reconstructions'' (PDict []) = Inr d1" and
    d2: "set_path d1 ?R ''mean'' (PFloat frave) = Inr d2" and
    d3: "set_path d2 ?R ''std'' (PFloat frstd) = Inr d'"
    by (auto simp: store_reconstructions_def ebind_Inr_iff simp del: set_path.simps)
  have o: "same_outside ?R d d'"
    by (rule same_outside_trans[OF same_outside_trans[OF set_path_same_outside[OF d1]
          set_path_same_outside[OF d2]] set_path_same_outside[OF d3]]) simp_all
  have s: "get_path d' (?R @ [''std'']) = Inr (PFloat frstd)"
    using set_path_get_same[OF d3, of "[]"] by simp
  have "get_path d' (?R @ [''mean'']) = get_path d2 (?R @ [''mean''])"
    by (rule set_path_get_other[OF d3]) simp_all
  then have m: "get_path d' (?R @ [''mean'']) = Inr (PFloat frave)"
    using set_path_get_same[OF d2, of "[]"] by simp
  show ?thesis using o m s by simp
qed

lemma reconstructions_step_Inr:
  assumes "reconstructions_step e latrange lonrange period region rds var st = Inr (recgrid, st')"
    and "getitem dic_rds_masks rds = Inr ''own''"
  shows "\<exists>rmeorig rseorig recmask rme' rse' nrec rme recwei rse frave frstd.
     read_reconstructions e latrange lonrange period rds var = Inr (rmeorig, rseorig) \<and>
     common_mask rds rmeorig rseorig = Inr (recmask, rme', rse') \<and>
     compressed_fields rme' rse' = (nrec, rme, recwei, rse) \<and>
     reconstruction_average (gauss_deviates e) rme rse recwei (gauss_pos st) =
       Inr (frave, frstd, gauss_pos st') \<and>
     recgrid = getGrid rmeorig \<and> chosenmask st' = Some recmask \<and>
     get_path (dic_res st') [period, var, region, rds, ''mask''] = Inr (PMask recmask) \<and>
     get_path (dic_res st') [period, var, region, rds, ''nbpts''] = Inr (PInt nrec) \<and>
     get_path (dic_res st') [period, var, region, rds, ''reconstructions'', ''mean''] =
       Inr (PFloat frave) \<and>
     get_path (dic_res st') [period, var, region, rds, ''reconstructions'', ''std''] =
       Inr (PFloat frstd) \<and>
     same_outside [period, var, region, rds] (dic_res st) (dic_res st') \<and> same_names st st'"
proof -
  let ?E = "[period, var, region, rds]"
  from assms(1) obtain rmeorig rseorig recmask rme' rse' st1 nrec rme recwei rse d2 frave frstd p d3
    where
    rr: "read_reconstructions e latrange lonrange period rds var = Inr (rmeorig, rseorig)" and
    cm: "common_mask rds rmeorig rseorig = Inr (recmask, rme', rse')" and
    sm: "store_mask ?E rds recmask st = Inr st1" and
    cf: "compressed_fields rme' rse' = (nrec, rme, recwei, rse)" and
    d2: "set_path (dic_res st1) ?E ''nbpts'' (PInt nrec) = Inr d2" and
    ra: "reconstruction_average (gauss_deviates e) rme rse recwei (gauss_pos st1) =
           Inr (frave, frstd, p)" and
    sr: "store_reconstructions ?E frave frstd d2 = Inr d3" and
    g: "recgrid = getGrid rmeorig" and
    st': "st' = st1\<lparr>dic_res := d3, gauss_pos := p\<rparr>"
  proof -
    from assms(1) obtain rmeorig rseorig recmask rme' rse' where
      rr: "read_reconstructions e latrange lonrange period rds var = Inr (rmeorig, rseorig)" and
      cm: "common_mask rds rmeorig rseorig = Inr (recmask, rme', rse')" and
      r: "ebind (store_mask ?E rds recmask st) (\<lambda>st.
           let (nrec, rme, recwei, rse) = compressed_fields rme' rse'
           in ebind (set_path (dic_res st) ?E ''nbpts'' (PInt nrec)) (\<lambda>d.
              ebind (reconstruction_average (gauss_deviates e) rme rse recwei (gauss_pos st))
                (\<lambda>(frave, frstd, p).
              ebind (store_reconstructions ?E frave frstd d) (\<lambda>d.
              Inr (getGrid rmeorig, st\<lparr>dic_res := d, gauss_pos := p\<rparr>))))) = Inr (recgrid, st')"
      by (auto simp: reconstructions_step_def Let_def ebind_Inr_iff
          simp del: set_path.simps get_path.simps)
    obtain nrec rme recwei rse where cf: "compressed_fields rme' rse' = (nrec, rme, recwei, rse)"
      by (metis prod_cases4)
    from r obtain st1 d2 frave frstd p d3 where
      "store_mask ?E rds recmask st = Inr st1"
      "set_path (dic_res st1) ?E ''nbpts'' (PInt nrec) = Inr d2"
      "reconstruction_average (gauss_deviates e) rme rse recwei (gauss_pos st1) =
           Inr (frave, frstd, p)"
      "store_reconstructions ?E frave frstd d2 = Inr d3"
      "st' = st1\<lparr>dic_res := d3, gauss_pos := p\<rparr>"
      "recgrid = getGrid rmeorig"
      unfolding cf
      by (auto simp: ebind_Inr_iff simp del: set_path.simps get_path.simps)
    then show ?thesis using that rr cm cf by blast
  qed
  from store_mask_Inr[OF sm assms(2)] obtain d1 where
    d1: "set_path (dic_res st) ?E ''mask'' (PMask recmask) = Inr d1" and
    st1: "st1 = st\<lparr>chosenmask := Some recmask, dic_res := d1\<rparr>"
    by blast
  note S = store_reconstructions_Inr[OF sr]
  have d2': "set_path d1 ?E ''nbpts'' (PInt nrec) = Inr d2" using d2 st1 by simp
  have o1: "same_outside ?E (dic_res st) d1" by (rule set_path_same_outside[OF d1]) simp
  have o2: "same_outside ?E d1 d2" by (rule set_path_same_outside[OF d2']) simp
  have o3: "same_outside ?E d2 d3"
    by (rule same_outside_mono[of "?E @ [''reconstructions'']"]) (use S in simp_all)
  have o: "same_outside ?E (dic_res st) d3"
    by (rule same_outside_trans[OF same_outside_trans[OF o1 o2] o3])
  have sR: "same_outside (?E @ [''reconstructions'']) d2 d3" using S by simp
  have "get_path d3 (?E @ [''nbpts'']) = get_path d2 (?E @ [''nbpts''])"
    by (rule same_outside_get[OF sR]) simp_all
  then have nb: "get_path d3 (?E @ [''nbpts'']) = Inr (PInt nrec)"
    using set_path_get_same[OF d2', of "[]"] by simp
  have "get_path d3 (?E @ [''mask'']) = get_path d2 (?E @ [''mask''])"
    by (rule same_outside_get[OF sR]) simp_all
  also have "\<dots> = get_path d1 (?E @ [''mask''])"
    by (rule set_path_get_other[OF d2']) simp_all
  also have "\<dots> = Inr (PMask recmask)" using set_path_get_same[OF d1, of "[]"] by simp
  finally have mk: "get_path d3 (?E @ [''mask'']) = Inr (PMask recmask)" .
  have gp: "gauss_pos st1 = gauss_pos st" using st1 by simp
  have "read_reconstructions e latrange lonrange period rds var = Inr (rmeorig, rseorig) \<and>
     common_mask rds rmeorig rseorig = Inr (recmask, rme', rse') \<and>
     compressed_fields rme' rse' = (nrec, rme, recwei, rse) \<and>
     reconstruction_average (gauss_deviates e) rme rse recwei (gauss_pos st) =
       Inr (frave, frstd, gauss_pos st') \<and>
     recgrid = getGrid rmeorig \<and> chosenmask st' = Some recmask \<and>
     get_path (dic_res st') [period, var, region, rds, ''mask''] = Inr (PMask recmask) \<and>
     get_path (dic_res st') [period, var, region, rds, ''nbpts''] = Inr (PInt nrec) \<and>
     get_path (dic_res st') [period, var, region, rds, ''reconstructions'', ''mean''] =
       Inr (PFloat frave) \<and>
     get_path (dic_res st') [period, var, region, rds, ''reconstructions'', ''std''] =
       Inr (PFloat frstd) \<and>
     same_outside [period, var, region, rds] (dic_res st) (dic_res st') \<and> same_names st st'"
    using rr cm cf ra g st' st1 gp mk nb S o
    by (simp add: same_names_def del: get_path.simps)
  then show ?thesis by blast
qed

lemma only_entries_refl: "only_entries S d d"
  by (simp add: only_entries_def)

lemma only_entries_trans:
  "only_entries S d d1 \<Longrightarrow> only_entries S' d1 d2 \<Longrightarrow> only_entries (S \<union> S') d d2"
  by (simp add: only_entries_def)

lemma same_outside_only_entries:
  assumes "same_outside E0 d d'" "length E0 = 4"
  shows "only_entries {E0} d d'"
  unfolding only_entries_def
proof (intro allI impI)
  fix E r assume a: "length E = 4 \<and> E \<notin> {E0}"
  have "\<not> prefix E0 (E @ r)"
  proof
    assume "prefix E0 (E @ r)"
    then obtain z where "E @ r = E0 @ z" by (auto simp: prefix_def)
    then have "E = E0" using a assms(2) by simp
    then show False using a by simp
  qed
  moreover have "\<not> prefix (E @ r) E0"
  proof
    assume "prefix (E @ r) E0"
    then obtain z where z: "E0 @ [] = E @ (r @ z)" by (auto simp: prefix_def)
    have "length E0 = length E" using a assms(2) by simp
    from append_eq_append_conv[OF disjI1[OF this]] z have "E0 = E" by blast
    then show False using a by simp
  qed
  ultimately show "get_path d' (E @ r) = get_path d (E @ r)"
    by (rule same_outside_get[OF assms(1)])
qed

lemma step_rel_refl: "step_rel S st st"
  by (simp add: step_rel_def only_entries_refl same_names_def)

lemma step_rel_trans:
  "step_rel S a b \<Longrightarrow> step_rel S' b c \<Longrightarrow> step_rel (S \<union> S') a c"
  using only_entries_trans same_names_trans by (auto simp: step_rel_def)

lemma only_entries_has:
  "only_entries S d d' \<Longrightarrow> length E = 4 \<Longrightarrow> E \<notin> S \<Longrightarrow> has_path d (E @ r) \<Longrightarrow> has_path d' (E @ r)"
  by (simp add: only_entries_def has_path_def)

lemma entry_complete_pres:
  assumes "only_entries S d d'" "length E = 4" "E \<notin> S" "entry_complete d E ms"
  shows "entry_complete d' E ms"
proof -
  note h = only_entries_has[OF assms(1,2,3)]
  have r: "rec_complete d' E"
    using assms(4) h[of "[''mask'']"] h[of "[''nbpts'']"] h[of "[''reconstructions'', ''mean'']"]
      h[of "[''reconstructions'', ''std'']"]
    by (simp add: entry_complete_def rec_complete_def)
  have "model_complete d' (E @ [m])" if "model_complete d (E @ [m])" for m
    using that h[of "[m, ''allmodelpts'', ''delta_mean'']"] h[of "[m, ''allmodelpts'', ''delta_std'']"]
      h[of "[m, ''modelonrecpts'', ''delta_mean'']"] h[of "[m, ''modelonrecpts'', ''delta_std'']"]
    by (simp add: model_complete_def)
  then have "list_all (\<lambda>m. model_complete d' (E @ [m])) ms"
    using assms(4) by (simp add: entry_complete_def list_all_iff)
  then show ?thesis using r by (simp add: entry_complete_def)
qed

lemma rec_complete_pres:
  assumes "same_outside (E @ [m]) d d'" "m \<notin> set [''mask'', ''nbpts'', ''reconstructions'']"
    "rec_complete d E"
  shows "rec_complete d' E"
proof -
  note h = same_outside_has[OF assms(1)]
  have "has_path d' (E @ [''mask''])" by (rule h) (use assms(2,3) in \<open>auto simp: rec_complete_def\<close>)
  moreover have "has_path d' (E @ [''nbpts''])"
    by (rule h) (use assms(2,3) in \<open>auto simp: rec_complete_def\<close>)
  moreover have "has_path d' (E @ [''reconstructions'', ''mean''])"
    by (rule h) (use assms(2,3) in \<open>auto simp: rec_complete_def\<close>)
  moreover have "has_path d' (E @ [''reconstructions'', ''std''])"
    by (rule h) (use assms(2,3) in \<open>auto simp: rec_complete_def\<close>)
  ultimately show ?thesis by (simp add: rec_complete_def)
qed

lemma model_complete_pres:
  assumes "same_outside (E @ [m]) d d'" "k \<noteq> m" "model_complete d (E @ [k])"
  shows "model_complete d' (E @ [k])"
proof -
  note h = same_outside_has[OF assms(1)]
  have "\<And>r. has_path d (E @ [k] @ r) \<Longrightarrow> has_path d' (E @ [k] @ r)"
    by (rule h) (use assms(2) in auto)
  then show ?thesis using assms(3) by (simp add: model_complete_def)
qed

lemma foldM_level:
  assumes "foldM f xs s = Inr s'" "list_models s = Some ms"
    and step: "\<And>x s s'. x \<in> set xs \<Longrightarrow> list_models s = Some ms \<Longrightarrow> f x s = Inr s' \<Longrightarrow>
         step_rel (K x) s s' \<and> (\<forall>E\<in>K x. length E = 4 \<and> entry_complete (dic_res s') E ms)"
  shows "step_rel (\<Union>x\<in>set xs. K x) s s' \<and>
         (\<forall>E\<in>(\<Union>x\<in>set xs. K x). length E = 4 \<and> entry_complete (dic_res s') E ms)"
  using assms
proof (induction xs arbitrary: s)
  case Nil
  then show ?case by (simp add: step_rel_refl)
next
  case (Cons x xs)
  from Cons.prems(1) obtain s1 where s1: "f x s = Inr s1" and s2: "foldM f xs s1 = Inr s'"
    by (auto simp: ebind_Inr_iff)
  have x: "x \<in> set (x # xs)" by simp
  note X = Cons.prems(3)[OF x Cons.prems(2) s1]
  have C: "step_rel (K x) s s1" using X by (rule conjunct1)
  have D: "\<forall>E\<in>K x. length E = 4 \<and> entry_complete (dic_res s1) E ms" using X by (rule conjunct2)
  have lm: "list_models s1 = Some ms"
    using C Cons.prems(2) unfolding step_rel_def same_names_def by simp
  have st: "step_rel (K y) t t' \<and> (\<forall>E\<in>K y. length E = 4 \<and> entry_complete (dic_res t') E ms)"
    if "y \<in> set xs" "list_models t = Some ms" "f y t = Inr t'" for y t t'
  proof (rule Cons.prems(3))
    show "y \<in> set (x # xs)" using that(1) by simp
  qed (rule that(2), rule that(3))
  note Y = Cons.IH[OF s2 lm st]
  have A: "step_rel (\<Union>x\<in>set xs. K x) s1 s'" using Y by (rule conjunct1)
  have B: "\<forall>E\<in>(\<Union>x\<in>set xs. K x). length E = 4 \<and> entry_complete (dic_res s') E ms"
    using Y by (rule conjunct2)
  have r: "step_rel (K x \<union> (\<Union>x\<in>set xs. K x)) s s'" by (rule step_rel_trans[OF C A])
  have e: "length E = 4 \<and> entry_complete (dic_res s') E ms"
    if E: "E \<in> K x \<union> (\<Union>x\<in>set xs. K x)" for E
  proof (cases "E \<in> (\<Union>x\<in>set xs. K x)")
    case True
    with B show ?thesis by (rule bspec)
  next
    case False
    then have "E \<in> K x" using E by blast
    with D have l: "length E = 4" and c: "entry_complete (dic_res s1) E ms"
      by (auto dest: bspec)
    have o: "only_entries (\<Union>x\<in>set xs. K x) (dic_res s1) (dic_res s')"
      using A unfolding step_rel_def by (rule conjunct1)
    show ?thesis using l entry_complete_pres[OF o l False c] by (rule conjI)
  qed
  have u: "(\<Union>x\<in>set (x # xs). K x) = K x \<union> (\<Union>x\<in>set xs. K x)" by simp
  show ?case unfolding u using r e by blast
qed

lemma variable_step_Inr:
  assumes "variable_step e opts latrange lonrange period region rds var st = Inr st'"
    and "list_models st = Some ms" and "getitem dic_rds_masks rds = Inr ''own''"
    and "list_all (\<lambda>m. m \<notin> set [''mask'', ''nbpts'', ''reconstructions'']) ms"
  shows "step_rel {[period, var, region, rds]} st st' \<and>
         entry_complete (dic_res st') [period, var, region, rds] ms"
proof -
  let ?E = "[period, var, region, rds]"
  let ?f = "model_step e opts latrange lonrange"
  from assms(1) obtain recgrid st1 ms' where
    rs: "reconstructions_step e latrange lonrange period region rds var st = Inr (recgrid, st1)" and
    lm: "bound (list_models st1) = Inr ms'" and
    fm: "foldM (?f recgrid period region rds var) ms' st1 = Inr st'"
    by (auto simp: variable_step_def ebind_Inr_iff)
  from reconstructions_step_Inr[OF rs assms(3)] have
    r1: "rec_complete (dic_res st1) ?E" and o1: "same_outside ?E (dic_res st) (dic_res st1)" and
    n1: "same_names st st1"
    by (auto simp: rec_complete_def has_path_get simp del: get_path.simps)
  have ms': "ms' = ms" using lm n1 assms(2) by (simp add: same_names_def bound_def)
  define I where "I s = (rec_complete (dic_res s) ?E \<and> same_outside ?E (dic_res st1) (dic_res s) \<and>
    same_names st1 s)" for s
  have "I st'"
  proof (rule foldM_invariant[OF fm])
    show "I st1" using r1 by (simp add: I_def same_outside_refl same_names_def)
  next
    fix x s s' assume x: "x \<in> set ms'" and i: "I s" and
      f: "?f recgrid period region rds var x s = Inr s'"
    note M = model_step_Inr[OF f]
    have so: "same_outside (?E @ [x]) (dic_res s) (dic_res s')" using M by simp
    have nx: "x \<notin> set [''mask'', ''nbpts'', ''reconstructions'']"
      using x assms(4) ms' by (simp add: list_all_iff)
    have a: "rec_complete (dic_res s') ?E" using rec_complete_pres[OF so nx] i by (simp add: I_def)
    have "same_outside ?E (dic_res s) (dic_res s')"
      by (rule same_outside_mono[OF so]) simp
    then have b: "same_outside ?E (dic_res st1) (dic_res s')"
      using i same_outside_trans by (auto simp: I_def)
    have c: "same_names st1 s'" using i M same_names_trans by (auto simp: I_def)
    show "I s'" using a b c by (simp add: I_def)
  qed
  then have rc: "rec_complete (dic_res st') ?E" and
    o2: "same_outside ?E (dic_res st1) (dic_res st')" and n2: "same_names st1 st'"
    by (simp_all add: I_def)
  have "\<forall>k\<in>{} \<union> (\<Union>x\<in>set ms'. {x}). model_complete (dic_res st') (?E @ [k])"
  proof (rule foldM_establish[OF fm])
    fix x s s' assume "x \<in> set ms'" and f: "?f recgrid period region rds var x s = Inr s'"
    from model_step_Inr[OF f] show "\<forall>k\<in>{x}. model_complete (dic_res s') (?E @ [k])" by simp
  next
    fix x s s' k assume "x \<in> set ms'" and f: "?f recgrid period region rds var x s = Inr s'"
      and k: "k \<notin> {x}" and c: "model_complete (dic_res s) (?E @ [k])"
    from model_step_Inr[OF f] have so: "same_outside (?E @ [x]) (dic_res s) (dic_res s')" by simp
    show "model_complete (dic_res s') (?E @ [k])"
      by (rule model_complete_pres[OF so _ c]) (use k in simp)
  next
    show "\<forall>k\<in>{}. model_complete (dic_res st1) (?E @ [k])" by simp
  qed
  then have mc: "list_all (\<lambda>m. model_complete (dic_res st') (?E @ [m])) ms"
    using ms' by (simp add: list_all_iff)
  have "same_outside ?E (dic_res st) (dic_res st')" by (rule same_outside_trans[OF o1 o2])
  then have "only_entries {?E} (dic_res st) (dic_res st')"
    by (rule same_outside_only_entries) simp
  moreover have "same_names st st'" by (rule same_names_trans[OF n1 n2])
  ultimately show ?thesis using rc mc by (simp add: step_rel_def entry_complete_def)
qed

lemma keeps_refl: "keeps n d d"
  by (simp add: keeps_def)

lemma keeps_trans: "keeps n d d1 \<Longrightarrow> keeps n d1 d2 \<Longrightarrow> keeps n d d2"
  by (simp add: keeps_def)

lemma keeps_mono: "keeps n d d' \<Longrightarrow> m \<le> n \<Longrightarrow> keeps m d d'"
  by (simp add: keeps_def)

lemma keeps_dict: "keeps n d d' \<Longrightarrow> length q \<le> n \<Longrightarrow> dict_at d q \<Longrightarrow> dict_at d' q"
  by (simp add: keeps_def)

lemma set_path_keeps: "set_path d ps k v = Inr d' \<Longrightarrow> n \<le> length ps \<Longrightarrow> keeps n d d'"
  unfolding keeps_def using set_path_dict_short by (meson le_trans)

lemma ebind_Inr_right: "ebind m Inr = m"
  by (cases m) simp_all

lemma init_level:
  assumes fold: "foldM (\<lambda>x d. ebind (set_path d P x (PDict [])) (g x)) xs d = Inr d'"
    and inner: "\<And>x d1 d2. get_path d1 (P @ [x]) = Inr (PDict []) \<Longrightarrow> g x d1 = Inr d2 \<Longrightarrow>
                  same_outside (P @ [x]) d1 d2 \<and> Q x d2"
    and pres: "\<And>x y d1 d2. x \<noteq> y \<Longrightarrow> same_outside (P @ [y]) d1 d2 \<Longrightarrow> Q x d1 \<Longrightarrow> Q x d2"
  shows "same_outside P d d' \<and> (\<forall>x\<in>set xs. Q x d')"
proof -
  let ?f = "\<lambda>x d. ebind (set_path d P x (PDict [])) (g x)"
  have step: "same_outside (P @ [x]) s s' \<and> Q x s'" if "?f x s = Inr s'" for x s s'
  proof -
    from that obtain d1 where d1: "set_path s P x (PDict []) = Inr d1" and g: "g x d1 = Inr s'"
      by (auto simp: ebind_Inr_iff)
    have "get_path d1 (P @ [x]) = Inr (PDict [])" using set_path_get_same[OF d1, of "[]"] by simp
    from inner[OF this g] have a: "same_outside (P @ [x]) d1 s'" and b: "Q x s'" by simp_all
    have "same_outside (P @ [x]) s d1" by (rule set_path_same_outside[OF d1]) simp
    then show ?thesis using a b same_outside_trans by blast
  qed
  have 1: "same_outside P d d'"
  proof (rule foldM_invariant[OF fold, where I = "\<lambda>s. same_outside P d s"])
    show "same_outside P d d" by (rule same_outside_refl)
  next
    fix x s s' assume i: "same_outside P d s" and f: "?f x s = Inr s'"
    have "same_outside P s s'" by (rule same_outside_mono[of "P @ [x]"]) (use step[OF f] in simp_all)
    then show "same_outside P d s'" using i same_outside_trans by blast
  qed
  have "\<forall>k\<in>{} \<union> (\<Union>x\<in>set xs. {x}). Q k d'"
  proof (rule foldM_establish[OF fold])
    fix x s s' assume f: "?f x s = Inr s'"
    show "\<forall>k\<in>{x}. Q k s'" using step[OF f] by simp
  next
    fix x s s' k assume f: "?f x s = Inr s'" and k: "k \<notin> {x}" and q: "Q k s"
    show "Q k s'" by (rule pres[of k x s s']) (use k q step[OF f] in simp_all)
  next
    show "\<forall>k\<in>{}. Q k d" by simp
  qed
  then show ?thesis using 1 by simp
qed

lemma init_level_ok:
  assumes "dict_at d P"
    and inner: "\<And>x d1. dict_at d1 (P @ [x]) \<Longrightarrow> \<exists>d2. g x d1 = Inr d2 \<and> keeps (length P) d1 d2"
  shows "\<exists>d'. foldM (\<lambda>x d. ebind (set_path d P x (PDict [])) (g x)) xs d = Inr d' \<and>
              keeps (length P) d d'"
proof -
  let ?f = "\<lambda>x d. ebind (set_path d P x (PDict [])) (g x)"
  have "\<exists>d'. foldM ?f xs d = Inr d' \<and> (dict_at d' P \<and> keeps (length P) d d')"
  proof (rule foldM_ok[where I = "\<lambda>s. dict_at s P \<and> keeps (length P) d s"])
    show "dict_at d P \<and> keeps (length P) d d" using assms(1) by (simp add: keeps_refl)
  next
    fix x s assume i: "dict_at s P \<and> keeps (length P) d s"
    from set_path_ok[of s P x "PDict []"] i obtain d1 where
      d1: "set_path s P x (PDict []) = Inr d1" by blast
    have k1: "keeps (length P) s d1" by (rule set_path_keeps[OF d1]) simp
    have "dict_at d1 (P @ [x])" by (rule set_path_dict_same[OF d1])
    from inner[OF this] obtain d2 where d2: "g x d1 = Inr d2" "keeps (length P) d1 d2" by blast
    have k: "keeps (length P) s d2" by (rule keeps_trans[OF k1 d2(2)])
    have "dict_at d2 P" by (rule keeps_dict[OF k]) (use i in simp_all)
    moreover have "keeps (length P) d d2" using i k keeps_trans by blast
    ultimately show "\<exists>s'. ?f x s = Inr s' \<and> (dict_at s' P \<and> keeps (length P) d s')"
      using d1 d2(1) by simp
  qed
  then show ?thesis by blast
qed

lemma init_rds:
  assumes "foldM (\<lambda>rds d. set_path d P rds (PDict [])) ds d = Inr d'"
  shows "same_outside P d d' \<and> (\<forall>rds\<in>set ds. get_path d' (P @ [rds]) = Inr (PDict []))"
proof (rule init_level[where g = "\<lambda>x. Inr"])
  show "foldM (\<lambda>x d. ebind (set_path d P x (PDict [])) Inr) ds d = Inr d'"
    using assms by (simp add: ebind_Inr_right)
next
  fix x d1 d2 assume "get_path d1 (P @ [x]) = Inr (PDict [])" "Inr d1 = (Inr d2 :: error + pyval)"
  then show "same_outside (P @ [x]) d1 d2 \<and> get_path d2 (P @ [x]) = Inr (PDict [])"
    by (simp add: same_outside_refl)
next
  fix x y :: string and d1 d2
  assume "x \<noteq> y" "same_outside (P @ [y]) d1 d2" "get_path d1 (P @ [x]) = Inr (PDict [])"
  then show "get_path d2 (P @ [x]) = Inr (PDict [])"
    using same_outside_get[of "P @ [y]" d1 d2 "P @ [x]"] by simp
qed

lemma init_regions:
  assumes "foldM (\<lambda>region d. ebind (set_path d P region (PDict []))
             (foldM (\<lambda>rds d. set_path d (P @ [region]) rds (PDict [])) ds)) rs d = Inr d'"
  shows "same_outside P d d' \<and>
         (\<forall>region\<in>set rs. \<forall>rds\<in>set ds. get_path d' (P @ [region, rds]) = Inr (PDict []))"
proof (rule init_level[OF assms])
  fix x d1 d2
  assume "foldM (\<lambda>rds d. set_path d (P @ [x]) rds (PDict [])) ds d1 = Inr d2"
  from init_rds[OF this]
  show "same_outside (P @ [x]) d1 d2 \<and> (\<forall>rds\<in>set ds. get_path d2 (P @ [x, rds]) = Inr (PDict []))"
    by simp
next
  fix x y :: string and d1 d2
  assume a: "x \<noteq> y" "same_outside (P @ [y]) d1 d2"
    "\<forall>rds\<in>set ds. get_path d1 (P @ [x, rds]) = Inr (PDict [])"
  show "\<forall>rds\<in>set ds. get_path d2 (P @ [x, rds]) = Inr (PDict [])"
  proof
    fix rds assume "rds \<in> set ds"
    then show "get_path d2 (P @ [x, rds]) = Inr (PDict [])"
      using a same_outside_get[of "P @ [y]" d1 d2 "P @ [x, rds]"] by simp
  qed
qed

lemma init_vars:
  assumes "foldM (\<lambda>var d. ebind (set_path d P var (PDict []))
             (foldM (\<lambda>region d. ebind (set_path d (P @ [var]) region (PDict []))
               (foldM (\<lambda>rds d. set_path d (P @ [var, region]) rds (PDict [])) ds)) rs)) vs d = Inr d'"
  shows "same_outside P d d' \<and>
         (\<forall>var\<in>set vs. \<forall>region\<in>set rs. \<forall>rds\<in>set ds.
            get_path d' (P @ [var, region, rds]) = Inr (PDict []))"
proof (rule init_level[OF assms])
  fix x d1 d2
  assume "foldM (\<lambda>region d. ebind (set_path d (P @ [x]) region (PDict []))
               (foldM (\<lambda>rds d. set_path d (P @ [x, region]) rds (PDict [])) ds)) rs d1 = Inr d2"
  then have "foldM (\<lambda>region d. ebind (set_path d (P @ [x]) region (PDict []))
               (foldM (\<lambda>rds d. set_path d ((P @ [x]) @ [region]) rds (PDict [])) ds)) rs d1 = Inr d2"
    by simp
  from init_regions[OF this]
  show "same_outside (P @ [x]) d1 d2 \<and>
        (\<forall>region\<in>set rs. \<forall>rds\<in>set ds. get_path d2 (P @ [x, region, rds]) = Inr (PDict []))"
    by simp
next
  fix x y :: string and d1 d2
  assume a: "x \<noteq> y" "same_outside (P @ [y]) d1 d2"
    "\<forall>region\<in>set rs. \<forall>rds\<in>set ds. get_path d1 (P @ [x, region, rds]) = Inr (PDict [])"
  show "\<forall>region\<in>set rs. \<forall>rds\<in>set ds. get_path d2 (P @ [x, region, rds]) = Inr (PDict [])"
  proof (intro ballI)
    fix region rds assume "region \<in> set rs" "rds \<in> set ds"
    then show "get_path d2 (P @ [x, region, rds]) = Inr (PDict [])"
      using a same_outside_get[of "P @ [y]" d1 d2 "P @ [x, region, rds]"] by simp
  qed
qed

lemma init_dic_res_Inr:
  assumes "init_dic_res = Inr d0"
  shows "\<forall>period\<in>set list_periods. \<forall>var\<in>set all_vars. \<forall>region\<in>set list_regions.
           \<forall>rds\<in>set list_reconstructions.
             get_path d0 [period, var, region, rds] = Inr (PDict [])"
proof -
  let ?Q = "\<lambda>period d. \<forall>var\<in>set all_vars. \<forall>region\<in>set list_regions.
           \<forall>rds\<in>set list_reconstructions.
             get_path d ([] @ [period, var, region, rds]) = Inr (PDict [])"
  have "same_outside [] (PDict []) d0 \<and> (\<forall>period\<in>set list_periods. ?Q period d0)"
  proof (rule init_level[where g = "\<lambda>period. foldM (\<lambda>var d. ebind (set_path d [period] var (PDict []))
             (foldM (\<lambda>region d. ebind (set_path d [period, var] region (PDict []))
               (foldM (\<lambda>rds d. set_path d [period, var, region] rds (PDict []))
                  list_reconstructions)) list_regions)) all_vars"])
    show "foldM (\<lambda>x d. ebind (set_path d [] x (PDict []))
            (foldM (\<lambda>var d. ebind (set_path d [x] var (PDict []))
             (foldM (\<lambda>region d. ebind (set_path d [x, var] region (PDict []))
               (foldM (\<lambda>rds d. set_path d [x, var, region] rds (PDict []))
                  list_reconstructions)) list_regions)) all_vars)) list_periods (PDict []) = Inr d0"
      using assms unfolding init_dic_res_def all_vars_def .
  next
    fix x d1 d2
    assume "foldM (\<lambda>var d. ebind (set_path d [x] var (PDict []))
             (foldM (\<lambda>region d. ebind (set_path d [x, var] region (PDict []))
               (foldM (\<lambda>rds d. set_path d [x, var, region] rds (PDict []))
                  list_reconstructions)) list_regions)) all_vars d1 = Inr d2"
    then have "foldM (\<lambda>var d. ebind (set_path d [x] var (PDict []))
             (foldM (\<lambda>region d. ebind (set_path d ([x] @ [var]) region (PDict []))
               (foldM (\<lambda>rds d. set_path d ([x] @ [var, region]) rds (PDict []))
                  list_reconstructions)) list_regions)) all_vars d1 = Inr d2"
      by simp
    from init_vars[OF this] show "same_outside ([] @ [x]) d1 d2 \<and> ?Q x d2" by simp
  next
    fix x y :: string and d1 d2
    assume a: "x \<noteq> y" "same_outside ([] @ [y]) d1 d2" "?Q x d1"
    show "?Q x d2"
    proof (intro ballI)
      fix var region rds
      assume "var \<in> set all_vars" "region \<in> set list_regions" "rds \<in> set list_reconstructions"
      then show "get_path d2 ([] @ [x, var, region, rds]) = Inr (PDict [])"
        using a same_outside_get[of "[y]" d1 d2 "[x, var, region, rds]"] by simp
    qed
  qed
  then show ?thesis by simp
qed

lemma getitem_Inr: "getitem d k = Inr v \<longleftrightarrow> map_of d k = Some v"
  by (simp add: getitem_def split: option.splits)

lemma keys_map_of: "k \<in> set (keys d) \<longleftrightarrow> map_of d k \<noteq> None"
  by (simp add: keys_def map_of_eq_None_iff)

lemma own_masks: "rds \<in> set list_reconstructions \<Longrightarrow> getitem dic_rds_masks rds = Inr ''own''"
  by (auto simp: list_reconstructions_def dic_rds_masks_def getitem_def)

lemma models_not_reserved:
  "list_all (\<lambda>m. m \<notin> set [''mask'', ''nbpts'', ''reconstructions'']) (models_of period)"
  by (simp add: models_of_def list_models_mh_def list_models_lgm_def list_pmip3_models_mh_def
      list_pmip4_models_mh_def list_pmip3_models_lgm_def list_pmip4_models_lgm_def)

lemma rds_step_Inr:
  assumes "rds_step e opts latrange lonrange period region rds st = Inr st'"
    and "list_models st = Some ms" and "rds \<in> set list_reconstructions"
    and "list_all (\<lambda>m. m \<notin> set [''mask'', ''nbpts'', ''reconstructions'']) ms"
  shows "step_rel (entries_rds period region rds) st st' \<and>
         (\<forall>E\<in>entries_rds period region rds. length E = 4 \<and> entry_complete (dic_res st') E ms)"
proof -
  from assms(1) obtain by_rds where
    b: "getitem dic_list_vars period = Inr by_rds" and
    r: "(if rds \<in> set (keys by_rds)
         then ebind (getitem by_rds rds) (\<lambda>list_vars.
              foldM (variable_step e opts latrange lonrange period region rds) list_vars st)
         else Inr st) = Inr st'"
    by (auto simp: rds_step_def ebind_Inr_iff)
  have mp: "map_of dic_list_vars period = Some by_rds" using b by (simp add: getitem_Inr)
  show ?thesis
  proof (cases "rds \<in> set (keys by_rds)")
    case False
    then have "list_vars_of period rds = []"
      using mp by (simp add: list_vars_of_def keys_map_of)
    moreover have "st' = st" using r False by simp
    ultimately show ?thesis by (simp add: entries_rds_def step_rel_refl)
  next
    case True
    with r obtain list_vars where
      g: "getitem by_rds rds = Inr list_vars" and
      f: "foldM (variable_step e opts latrange lonrange period region rds) list_vars st = Inr st'"
      by (auto simp: ebind_Inr_iff)
    have lv: "list_vars_of period rds = list_vars"
      using mp g by (simp add: list_vars_of_def getitem_Inr)
    have u: "(\<Union>var\<in>set list_vars. {[period, var, region, rds]}) = entries_rds period region rds"
      by (auto simp: entries_rds_def lv)
    have "step_rel (\<Union>var\<in>set list_vars. {[period, var, region, rds]}) st st' \<and>
          (\<forall>E\<in>(\<Union>var\<in>set list_vars. {[period, var, region, rds]}).
             length E = 4 \<and> entry_complete (dic_res st') E ms)"
    proof (rule foldM_level[OF f assms(2)])
      fix x s s'
      assume l: "list_models s = Some ms" and
        v: "variable_step e opts latrange lonrange period region rds x s = Inr s'"
      from variable_step_Inr[OF v l own_masks[OF assms(3)] assms(4)]
      show "step_rel {[period, x, region, rds]} s s' \<and>
            (\<forall>E\<in>{[period, x, region, rds]}. length E = 4 \<and> entry_complete (dic_res s') E ms)"
        by simp
    qed
    then show ?thesis unfolding u .
  qed
qed

lemma region_step_Inr:
  assumes "region_step e opts period region st = Inr st'"
    and "list_models st = Some ms"
    and "list_all (\<lambda>m. m \<notin> set [''mask'', ''nbpts'', ''reconstructions'']) ms"
  shows "step_rel (entries_region period region) st st' \<and>
         (\<forall>E\<in>entries_region period region. length E = 4 \<and> entry_complete (dic_res st') E ms)"
proof -
  from assms(1) obtain latrange lonrange where
    f: "foldM (rds_step e opts latrange lonrange period region) list_reconstructions st = Inr st'"
    by (auto simp: region_step_def ebind_Inr_iff)
  show ?thesis unfolding entries_region_def
  proof (rule foldM_level[OF f assms(2)])
    fix x s s'
    assume "x \<in> set list_reconstructions" "list_models s = Some ms"
      "rds_step e opts latrange lonrange period region x s = Inr s'"
    then show "step_rel (entries_rds period region x) s s' \<and>
          (\<forall>E\<in>entries_rds period region x. length E = 4 \<and> entry_complete (dic_res s') E ms)"
      using rds_step_Inr assms(3) by blast
  qed
qed

lemma period_step_Inr:
  assumes "period_step e opts period st = Inr st'" and "period \<in> set list_periods"
  shows "only_entries (entries_period period) (dic_res st) (dic_res st') \<and>
         (\<forall>E\<in>entries_period period.
            length E = 4 \<and> entry_complete (dic_res st') E (models_of period))"
proof -
  define st1 where "st1 = (if period = ''MH''
      then st\<lparr>list_models := Some list_models_mh, dir_models := Some dir_mh\<rparr>
      else st\<lparr>list_models := Some list_models_lgm, dir_models := Some dir_lgm\<rparr>)"
  have p: "period = ''LGM'' \<or> period = ''MH''" using assms(2) by (simp add: list_periods_def)
  have f: "foldM (region_step e opts period) list_regions st1 = Inr st'"
    using assms(1) p by (auto simp: period_step_def st1_def Let_def)
  have lm: "list_models st1 = Some (models_of period)" by (simp add: st1_def models_of_def)
  have d: "dic_res st1 = dic_res st" by (simp add: st1_def)
  have "step_rel (\<Union>region\<in>set list_regions. entries_region period region) st1 st' \<and>
        (\<forall>E\<in>(\<Union>region\<in>set list_regions. entries_region period region).
           length E = 4 \<and> entry_complete (dic_res st') E (models_of period))"
  proof (rule foldM_level[OF f lm])
    fix x s s'
    assume "list_models s = Some (models_of period)" "region_step e opts period x s = Inr s'"
    then show "step_rel (entries_region period x) s s' \<and>
          (\<forall>E\<in>entries_region period x. length E = 4 \<and>
             entry_complete (dic_res s') E (models_of period))"
      using region_step_Inr models_not_reserved by blast
  qed
  then show ?thesis using d by (simp add: entries_period_def step_rel_def)
qed

lemma entries_period_iff:
  "[period, var, region, rds] \<in> entries_period p \<longleftrightarrow>
     (p = period \<and> region \<in> set list_regions \<and> rds \<in> set list_reconstructions \<and>
      var \<in> set (list_vars_of period rds))"
  by (auto simp: entries_period_def entries_region_def entries_rds_def)

lemma only_entries_get:
  "only_entries S d d' \<Longrightarrow> length E = 4 \<Longrightarrow> E \<notin> S \<Longrightarrow> get_path d' E = get_path d E"
  unfolding only_entries_def by (metis append_Nil2)

lemma compute_averages_Inr:
  assumes "compute_averages e opts st = Inr st'"
    and "period \<in> set list_periods" and "var \<in> set all_vars"
    and "region \<in> set list_regions" and "rds \<in> set list_reconstructions"
  shows "(var \<in> set (list_vars_of period rds) \<longrightarrow>
            entry_complete (dic_res st') [period, var, region, rds] (models_of period)) \<and>
         (var \<notin> set (list_vars_of period rds) \<longrightarrow>
            get_path (dic_res st') [period, var, region, rds] = Inr (PDict []))"
proof -
  let ?E = "[period, var, region, rds]"
  from assms(1) obtain d0 st1 where
    i: "init_dic_res = Inr d0" and
    a: "period_step e opts ''LGM'' (st\<lparr>dic_res := d0\<rparr>) = Inr st1" and
    b: "period_step e opts ''MH'' st1 = Inr st'"
    by (auto simp: compute_averages_def list_periods_def ebind_Inr_iff)
  have l1: "''LGM'' \<in> set list_periods" and l2: "''MH'' \<in> set list_periods"
    by (simp_all add: list_periods_def)
  note A = period_step_Inr[OF a l1] and B = period_step_Inr[OF b l2]
  have oa: "only_entries (entries_period ''LGM'') d0 (dic_res st1)" using A by simp
  have ob: "only_entries (entries_period ''MH'') (dic_res st1) (dic_res st')" using B by simp
  have p: "period = ''LGM'' \<or> period = ''MH''" using assms(2) by (simp add: list_periods_def)
  have g0: "get_path d0 ?E = Inr (PDict [])"
    using init_dic_res_Inr[OF i] assms(2-5) by blast
  have 1: "entry_complete (dic_res st') ?E (models_of period)"
    if v: "var \<in> set (list_vars_of period rds)"
  proof (cases "period = ''MH''")
    case True
    have "?E \<in> entries_period ''MH''" using True v assms(4,5) by (simp add: entries_period_iff)
    then show ?thesis using B True by blast
  next
    case False
    then have lg: "period = ''LGM''" using p by simp
    have "?E \<in> entries_period ''LGM''" using lg v assms(4,5) by (simp add: entries_period_iff)
    then have c: "entry_complete (dic_res st1) ?E (models_of period)" using A lg by blast
    have n: "?E \<notin> entries_period ''MH''" using lg by (simp add: entries_period_iff)
    show ?thesis by (rule entry_complete_pres[OF ob _ n c]) simp
  qed
  have 2: "get_path (dic_res st') ?E = Inr (PDict [])"
    if v: "var \<notin> set (list_vars_of period rds)"
  proof -
    have n1: "?E \<notin> entries_period ''LGM''" and n2: "?E \<notin> entries_period ''MH''"
      using v by (auto simp: entries_period_iff)
    have "get_path (dic_res st') ?E = get_path (dic_res st1) ?E"
      by (rule only_entries_get[OF ob _ n2]) simp
    also have "\<dots> = get_path d0 ?E" by (rule only_entries_get[OF oa _ n1]) simp
    finally show ?thesis using g0 by simp
  qed
  show ?thesis using 1 2 by blast
qed

lemma list_vars_of_values:
  "list_vars_of ''LGM'' ''Bartlein2011'' = [''MTCO'', ''MAT'', ''MTWA'', ''MAP'']"
  "list_vars_of ''LGM'' ''Cleator2019'' = [''MTCO'', ''MAT'', ''MTWA'', ''MAP'']"
  "list_vars_of ''LGM'' ''Tierney2019'' = [''MATocean'']"
  "list_vars_of ''MH'' ''Bartlein2011'' = [''MTCO'', ''MAT'', ''MTWA'', ''MAP'']"
  "list_vars_of ''MH'' ''Cleator2019'' = []"
  "list_vars_of ''MH'' ''Tierney2019'' = []"
  by (simp_all add: list_vars_of_def dic_list_vars_def)

lemma init_rds_ok:
  assumes "dict_at d P"
  shows "\<exists>d'. foldM (\<lambda>rds d. set_path d P rds (PDict [])) ds d = Inr d' \<and> keeps (length P) d d'"
proof -
  have "\<exists>d'. foldM (\<lambda>x d. ebind (set_path d P x (PDict [])) Inr) ds d = Inr d' \<and>
          keeps (length P) d d'"
    by (rule init_level_ok[OF assms]) (simp add: keeps_refl)
  then show ?thesis by (simp add: ebind_Inr_right)
qed

lemma init_regions_ok:
  assumes "dict_at d P"
  shows "\<exists>d'. foldM (\<lambda>region d. ebind (set_path d P region (PDict []))
             (foldM (\<lambda>rds d. set_path d (P @ [region]) rds (PDict [])) ds)) rs d = Inr d' \<and>
           keeps (length P) d d'"
proof (rule init_level_ok[OF assms])
  fix x d1 assume "dict_at d1 (P @ [x])"
  from init_rds_ok[OF this, of ds] obtain d2 where
    "foldM (\<lambda>rds d. set_path d (P @ [x]) rds (PDict [])) ds d1 = Inr d2"
    "keeps (length (P @ [x])) d1 d2" by blast
  then show "\<exists>d2. foldM (\<lambda>rds d. set_path d (P @ [x]) rds (PDict [])) ds d1 = Inr d2 \<and>
                 keeps (length P) d1 d2"
    using keeps_mono[of "length (P @ [x])" d1 d2 "length P"] by auto
qed

lemma init_vars_ok:
  assumes "dict_at d P"
  shows "\<exists>d'. foldM (\<lambda>var d. ebind (set_path d P var (PDict []))
             (foldM (\<lambda>region d. ebind (set_path d (P @ [var]) region (PDict []))
               (foldM (\<lambda>rds d. set_path d (P @ [var, region]) rds (PDict [])) ds)) rs)) vs d = Inr d' \<and>
           keeps (length P) d d'"
proof (rule init_level_ok[OF assms])
  fix x d1 assume "dict_at d1 (P @ [x])"
  from init_regions_ok[OF this, of ds rs] obtain d2 where
    "foldM (\<lambda>region d. ebind (set_path d (P @ [x]) region (PDict []))
             (foldM (\<lambda>rds d. set_path d ((P @ [x]) @ [region]) rds (PDict [])) ds)) rs d1 = Inr d2"
    "keeps (length (P @ [x])) d1 d2" by blast
  then show "\<exists>d2. foldM (\<lambda>region d. ebind (set_path d (P @ [x]) region (PDict []))
               (foldM (\<lambda>rds d. set_path d (P @ [x, region]) rds (PDict [])) ds)) rs d1 = Inr d2 \<and>
                 keeps (length P) d1 d2"
    using keeps_mono[of "length (P @ [x])" d1 d2 "length P"] by auto
qed

lemma init_dic_res_ok: "\<exists>d0. init_dic_res = Inr d0"
proof -
  have "\<exists>d'. foldM (\<lambda>x d. ebind (set_path d [] x (PDict []))
            (foldM (\<lambda>var d. ebind (set_path d [x] var (PDict []))
             (foldM (\<lambda>region d. ebind (set_path d [x, var] region (PDict []))
               (foldM (\<lambda>rds d. set_path d [x, var, region] rds (PDict []))
                  list_reconstructions)) list_regions)) [''MAT'', ''MTCO'', ''MTWA'', ''MAP'', ''MATocean'']))
           list_periods (PDict []) = Inr d' \<and> keeps (length ([] :: string list)) (PDict []) d'"
  proof (rule init_level_ok)
    show "dict_at (PDict []) []" by (simp add: dict_at_def)
  next
    fix x d1 assume "dict_at d1 ([] @ [x])"
    from init_vars_ok[OF this, of list_reconstructions list_regions]
    show "\<exists>d2. foldM (\<lambda>var d. ebind (set_path d [x] var (PDict []))
             (foldM (\<lambda>region d. ebind (set_path d [x, var] region (PDict []))
               (foldM (\<lambda>rds d. set_path d [x, var, region] rds (PDict []))
                  list_reconstructions)) list_regions)) [''MAT'', ''MTCO'', ''MTWA'', ''MAP'', ''MATocean''] d1 = Inr d2 \<and>
            keeps (length ([] :: string list)) d1 d2"
      using keeps_mono by (simp del: foldM.simps set_path.simps) blast
  qed
  then show ?thesis unfolding init_dic_res_def by blast
qed

lemma has_path_dict:
  assumes "has_path d (E @ k # r)"
  shows "dict_at d E"
proof -
  from assms obtain sub where s: "get_path d E = Inr sub" and g: "has_path sub (k # r)"
    by (auto simp: has_path_get get_path_append ebind_Inr_iff)
  from g have "is_dict sub" by (cases sub) (auto simp: has_path_get)
  then show ?thesis using s by (simp add: dict_at_def)
qed

lemma case_statistics_exact:
  assumes "getitem dsv cas = Inr (v0, v1)"
    and "nbyrs \<le> length v0" and "nbyrs \<le> length v1"
    and "dict_at (dic_res st) (entry @ [cas])"
  shows "\<exists>d. case_statistics e entry dsv cas st =
               Inr (st\<lparr>dic_res := d,
                      numpy_pos := numpy_pos st + niter * (draws_of v0 + draws_of v1)\<rparr>) \<and>
             get_path d (entry @ [cas, ''delta_mean'']) =
               Inr (PFloat (np_average (bootstrap_deltas (numpy_draws e) v0 v1 (numpy_pos st)))) \<and>
             get_path d (entry @ [cas, ''delta_std'']) =
               Inr (PFloat (np_std (bootstrap_deltas (numpy_draws e) v0 v1 (numpy_pos st)))) \<and>
             same_outside (entry @ [cas]) (dic_res st) d"
proof -
  let ?D = "bootstrap_deltas (numpy_draws e) v0 v1 (numpy_pos st)"
  let ?m = "PFloat (np_average ?D)"
  let ?s = "PFloat (np_std ?D)"
  let ?p = "entry @ [cas]"
  note ds = delta_statistics_exact[OF assms(2,3), of "numpy_draws e" "numpy_pos st"]
  from set_path_ok[OF assms(4)] obtain d1 where
    d1: "set_path (dic_res st) ?p ''delta_mean'' ?m = Inr d1" by blast
  have "dict_at d1 ?p" by (rule set_path_dict_prefix[OF d1]) simp
  from set_path_ok[OF this] obtain d2 where
    d2: "set_path d1 ?p ''delta_std'' ?s = Inr d2" by blast
  have r: "case_statistics e entry dsv cas st =
      Inr (st\<lparr>dic_res := d2, numpy_pos := numpy_pos st + niter * (draws_of v0 + draws_of v1)\<rparr>)"
    by (simp add: case_statistics_def assms(1) ds d1 d2)
  have g2: "get_path d2 (?p @ [''delta_std'']) = Inr ?s"
    using set_path_get_same[OF d2, of "[]"] by simp
  have "get_path d2 (?p @ [''delta_mean'']) = get_path d1 (?p @ [''delta_mean''])"
    by (rule set_path_get_other[OF d2]) simp_all
  also have "\<dots> = Inr ?m" using set_path_get_same[OF d1, of "[]"] by simp
  finally have g1: "get_path d2 (?p @ [''delta_mean'']) = Inr ?m" .
  have o: "same_outside ?p (dic_res st) d2"
    by (rule same_outside_trans[OF set_path_same_outside[OF d1] set_path_same_outside[OF d2]])
       simp_all
  show ?thesis using r g1 g2 o by auto
qed

lemma time_averages_exact:
  assumes "dsv = [(''modelonrecpts'', r0, r1), (''allmodelpts'', a0, a1)]"
    and "compute_monte_carlo_averages opts = ''yes''"
    and "nbyrs \<le> length r0" "nbyrs \<le> length r1" "nbyrs \<le> length a0" "nbyrs \<le> length a1"
    and "dict_at (dic_res st) (P @ [''modelonrecpts''])"
    and "dict_at (dic_res st) (P @ [''allmodelpts''])"
  shows "\<exists>d. time_averages e opts P dsv st =
               Inr (st\<lparr>dic_res := d,
                      numpy_pos := numpy_pos st + niter * (draws_of r0 + draws_of r1) +
                                   niter * (draws_of a0 + draws_of a1)\<rparr>) \<and>
             get_path d (P @ [''modelonrecpts'', ''delta_mean'']) =
               Inr (PFloat (np_average (bootstrap_deltas (numpy_draws e) r0 r1 (numpy_pos st)))) \<and>
             get_path d (P @ [''modelonrecpts'', ''delta_std'']) =
               Inr (PFloat (np_std (bootstrap_deltas (numpy_draws e) r0 r1 (numpy_pos st)))) \<and>
             get_path d (P @ [''allmodelpts'', ''delta_mean'']) =
               Inr (PFloat (np_average (bootstrap_deltas (numpy_draws e) a0 a1
                  (numpy_pos st + niter * (draws_of r0 + draws_of r1))))) \<and>
             get_path d (P @ [''allmodelpts'', ''delta_std'']) =
               Inr (PFloat (np_std (bootstrap_deltas (numpy_draws e) a0 a1
                  (numpy_pos st + niter * (draws_of r0 + draws_of r1))))) \<and>
             same_outside P (dic_res st) d"
proof -
  let ?q1 = "numpy_pos st + niter * (draws_of r0 + draws_of r1)"
  have g1: "getitem dsv ''modelonrecpts'' = Inr (r0, r1)" by (simp add: assms(1) getitem_def)
  have g2: "getitem dsv ''allmodelpts'' = Inr (a0, a1)" by (simp add: assms(1) getitem_def)
  from case_statistics_exact[OF g1 assms(3,4,7), of e] obtain d1 where
    c1: "case_statistics e P dsv ''modelonrecpts'' st = Inr (st\<lparr>dic_res := d1, numpy_pos := ?q1\<rparr>)" and
    m1: "get_path d1 (P @ [''modelonrecpts'', ''delta_mean'']) =
           Inr (PFloat (np_average (bootstrap_deltas (numpy_draws e) r0 r1 (numpy_pos st))))" and
    s1: "get_path d1 (P @ [''modelonrecpts'', ''delta_std'']) =
           Inr (PFloat (np_std (bootstrap_deltas (numpy_draws e) r0 r1 (numpy_pos st))))" and
    o1: "same_outside (P @ [''modelonrecpts'']) (dic_res st) d1"
    by blast
  let ?s1 = "st\<lparr>dic_res := d1, numpy_pos := ?q1\<rparr>"
  have "get_path d1 (P @ [''allmodelpts'']) = get_path (dic_res st) (P @ [''allmodelpts''])"
    by (rule same_outside_get[OF o1]) simp_all
  then have da: "dict_at (dic_res ?s1) (P @ [''allmodelpts''])"
    using assms(8) by (simp add: dict_at_def)
  from case_statistics_exact[OF g2 assms(5,6) da, of e] obtain d2 where
    c2: "case_statistics e P dsv ''allmodelpts'' ?s1 =
           Inr (?s1\<lparr>dic_res := d2, numpy_pos := numpy_pos ?s1 + niter * (draws_of a0 + draws_of a1)\<rparr>)" and
    m2: "get_path d2 (P @ [''allmodelpts'', ''delta_mean'']) =
           Inr (PFloat (np_average (bootstrap_deltas (numpy_draws e) a0 a1 (numpy_pos ?s1))))" and
    s2: "get_path d2 (P @ [''allmodelpts'', ''delta_std'']) =
           Inr (PFloat (np_std (bootstrap_deltas (numpy_draws e) a0 a1 (numpy_pos ?s1))))" and
    o2: "same_outside (P @ [''allmodelpts'']) (dic_res ?s1) d2"
    by blast
  have o2': "same_outside (P @ [''allmodelpts'']) d1 d2" using o2 by simp
  have m1': "get_path d2 (P @ [''modelonrecpts'', ''delta_mean'']) =
           Inr (PFloat (np_average (bootstrap_deltas (numpy_draws e) r0 r1 (numpy_pos st))))"
    using same_outside_get[OF o2', of "P @ [''modelonrecpts'', ''delta_mean'']"] m1 by simp
  have s1': "get_path d2 (P @ [''modelonrecpts'', ''delta_std'']) =
           Inr (PFloat (np_std (bootstrap_deltas (numpy_draws e) r0 r1 (numpy_pos st))))"
    using same_outside_get[OF o2', of "P @ [''modelonrecpts'', ''delta_std'']"] s1 by simp
  have oa: "same_outside P (dic_res st) d1"
    by (rule same_outside_mono[OF o1]) simp
  have ob: "same_outside P d1 d2"
    by (rule same_outside_mono[OF o2']) simp
  have o: "same_outside P (dic_res st) d2" by (rule same_outside_trans[OF oa ob])
  have t: "time_averages e opts P dsv st =
      Inr (st\<lparr>dic_res := d2, numpy_pos := ?q1 + niter * (draws_of a0 + draws_of a1)\<rparr>)"
    using c1 c2 by (simp add: time_averages_def assms(1,2) keys_def)
  show ?thesis using t m1' s1' m2 s2 o by auto
qed

lemma init_cases_ok:
  assumes "dsv = [(''modelonrecpts'', r0, r1), (''allmodelpts'', a0, a1)]" "dict_at (dic_res st) P"
  shows "\<exists>d. init_cases P dsv st = Inr (st\<lparr>dic_res := d\<rparr>) \<and>
           dict_at d (P @ [''allmodelpts'']) \<and>
           dict_at d (P @ [''modelonrecpts'']) \<and> same_outside P (dic_res st) d"
proof -
  from set_path_ok[OF assms(2)] obtain c1 where
    c1: "set_path (dic_res st) P ''modelonrecpts'' (PDict []) = Inr c1" by blast
  have "dict_at c1 P" by (rule set_path_dict_prefix[OF c1]) simp
  from set_path_ok[OF this] obtain c2 where
    c2: "set_path c1 P ''allmodelpts'' (PDict []) = Inr c2" by blast
  have a: "dict_at c2 (P @ [''allmodelpts''])" by (rule set_path_dict_same[OF c2])
  have "get_path c2 (P @ [''modelonrecpts'']) = get_path c1 (P @ [''modelonrecpts''])"
    by (rule set_path_get_other[OF c2]) simp_all
  then have b: "dict_at c2 (P @ [''modelonrecpts''])"
    using set_path_dict_same[OF c1] by (simp add: dict_at_def)
  have o: "same_outside P (dic_res st) c2"
    by (rule same_outside_trans[OF set_path_same_outside[OF c1] set_path_same_outside[OF c2]])
       simp_all
  have "init_cases P dsv st = Inr (st\<lparr>dic_res := c2\<rparr>)"
    using c1 c2 by (simp add: init_cases_def assms(1) keys_def)
  then show ?thesis using a b o by auto
qed

lemma print_results_ok:
  assumes "get_path (dic_res st) (P @ [''allmodelpts'', ''delta_mean'']) = Inr (PFloat m)"
    and "get_path (dic_res st) (P @ [''allmodelpts'', ''delta_std'']) = Inr (PFloat s)"
  shows "print_results P st = Inr st"
  using assms by (simp add: print_results_def del: get_path.simps)

lemma resolve_fnamepi_dic:
  "resolve_fnamepi e period model modvarname diag (st\<lparr>dic_res := d\<rparr>) =
     (case resolve_fnamepi e period model modvarname diag st of
        Inl err \<Rightarrow> Inl err | Inr s \<Rightarrow> Inr (s\<lparr>dic_res := d\<rparr>))"
  by (simp add: resolve_fnamepi_def bound_def Let_def ebind_def split: option.splits sum.splits)

lemma resolve_fnamepast_dic:
  "resolve_fnamepast e period model modvarname diag (st\<lparr>dic_res := d\<rparr>) =
     (case resolve_fnamepast e period model modvarname diag st of
        Inl err \<Rightarrow> Inl err | Inr s \<Rightarrow> Inr (s\<lparr>dic_res := d\<rparr>))"
  by (simp add: resolve_fnamepast_def bound_def Let_def ebind_def split: option.splits sum.splits)

lemma resolve_fnamepi_frame:
  "resolve_fnamepi e period model modvarname diag st = Inr s \<Longrightarrow> s = st\<lparr>fnamepi := fnamepi s\<rparr>"
  by (auto simp: resolve_fnamepi_def bound_def Let_def ebind_Inr_iff split: option.splits if_splits)

lemma resolve_fnamepast_frame:
  "resolve_fnamepast e period model modvarname diag st = Inr s \<Longrightarrow> s = st\<lparr>fnamepast := fnamepast s\<rparr>"
  by (auto simp: resolve_fnamepast_def bound_def Let_def ebind_Inr_iff split: option.splits if_splits)

lemma read_model_fields_dic:
  assumes "read_model_fields e latrange lonrange period var model st = Inr (vpi, vpast, st1)"
  shows "read_model_fields e latrange lonrange period var model (st\<lparr>dic_res := d\<rparr>) =
           Inr (vpi, vpast, st1\<lparr>dic_res := d\<rparr>) \<and>
         numpy_pos st1 = numpy_pos st \<and> chosenmask st1 = chosenmask st"
proof -
  from assms obtain diag modvarname sa sb where
    g1: "getitem dic_model_diagnames var = Inr diag" and
    g2: "getitem dic_model_varnames var = Inr modvarname" and
    p1: "resolve_fnamepi e period model modvarname diag st = Inr sa" and
    o1: "open_model e (fnamepi sa) modvarname latrange lonrange = Inr vpi" and
    p2: "resolve_fnamepast e period model modvarname diag sa = Inr sb" and
    o2: "open_model e (fnamepast sb) modvarname latrange lonrange = Inr vpast" and
    s: "st1 = sb"
    unfolding read_model_fields_def by (elim ebind_InrE) simp
  have r1: "resolve_fnamepi e period model modvarname diag (st\<lparr>dic_res := d\<rparr>) = Inr (sa\<lparr>dic_res := d\<rparr>)"
    unfolding resolve_fnamepi_dic p1 by simp
  have r2: "resolve_fnamepast e period model modvarname diag (sa\<lparr>dic_res := d\<rparr>) = Inr (sb\<lparr>dic_res := d\<rparr>)"
    unfolding resolve_fnamepast_dic p2 by simp
  have f: "numpy_pos sb = numpy_pos st" "chosenmask sb = chosenmask st"
    using resolve_fnamepi_frame[OF p1] resolve_fnamepast_frame[OF p2]
    by (metis pystate.select_convs pystate.surjective pystate.update_convs)+
  show ?thesis
    using g1 g2 r1 r2 o1 o2 s f by (simp add: read_model_fields_def)
qed

lemma regional_averages_exact:
  assumes "masked_where_rows msk (length (rows vpi)) (regrid e recgrid vpi) = Inr vpim"
    and "masked_where_rows msk (length (rows vpast)) (regrid e recgrid vpast) = Inr vpastm"
  shows "regional_averages e recgrid msk vpi vpast =
           Inr [(''modelonrecpts'', compressed (averager e vpim), compressed (averager e vpastm)),
                (''allmodelpts'', compressed (averager e vpi), compressed (averager e vpast))]"
  using assms by (simp add: regional_averages_def Let_def)

lemma model_step_exact:
  assumes "compute_monte_carlo_averages opts = ''yes''"
    and "dict_at (dic_res st) [period, var, region, rds]"
    and "read_model_fields e latrange lonrange period var model st = Inr (vpi0, vpast0, st1)"
    and "chosenmask st = Some msk"
    and "change_units var model (vpi0, vpast0) = (vpi, vpast)"
    and "masked_where_rows msk (length (rows vpi)) (regrid e recgrid vpi) = Inr vpim"
    and "masked_where_rows msk (length (rows vpast)) (regrid e recgrid vpast) = Inr vpastm"
    and "pi_all = compressed (averager e vpi)" and "past_all = compressed (averager e vpast)"
    and "pi_rec = compressed (averager e vpim)" and "past_rec = compressed (averager e vpastm)"
    and "nbyrs \<le> length pi_rec" and "nbyrs \<le> length past_rec"
    and "nbyrs \<le> length pi_all" and "nbyrs \<le> length past_all"
    and "q_rec = numpy_pos st"
    and "q_all = numpy_pos st + niter * (draws_of pi_rec + draws_of past_rec)"
  shows "\<exists>d. model_step e opts latrange lonrange recgrid period region rds var model st =
             Inr (st1\<lparr>dic_res := d, numpy_pos := q_all + niter * (draws_of pi_all + draws_of past_all)\<rparr>) \<and>
           get_path d [period, var, region, rds, model, ''modelonrecpts'', ''delta_mean''] =
             Inr (PFloat (np_average (bootstrap_deltas (numpy_draws e) pi_rec past_rec q_rec))) \<and>
           get_path d [period, var, region, rds, model, ''modelonrecpts'', ''delta_std''] =
             Inr (PFloat (np_std (bootstrap_deltas (numpy_draws e) pi_rec past_rec q_rec))) \<and>
           get_path d [period, var, region, rds, model, ''allmodelpts'', ''delta_mean''] =
             Inr (PFloat (np_average (bootstrap_deltas (numpy_draws e) pi_all past_all q_all))) \<and>
           get_path d [period, var, region, rds, model, ''allmodelpts'', ''delta_std''] =
             Inr (PFloat (np_std (bootstrap_deltas (numpy_draws e) pi_all past_all q_all))) \<and>
           same_outside [period, var, region, rds, model] (dic_res st) d"
proof -
  let ?E = "[period, var, region, rds]"
  let ?P = "[period, var, region, rds, model]"
  from set_path_ok[OF assms(2)] obtain d0 where
    d0: "set_path (dic_res st) ?E model (PDict []) = Inr d0" by blast
  have dP: "dict_at d0 (?E @ [model])" by (rule set_path_dict_same[OF d0])
  have o0: "same_outside ?P (dic_res st) d0"
    by (rule set_path_same_outside[OF d0]) simp
  note R = read_model_fields_dic[OF assms(3), of d0]
  let ?s1 = "st1\<lparr>dic_res := d0\<rparr>"
  have cm: "chosenmask ?s1 = Some msk" using R assms(4) by simp
  let ?dsv = "[(''modelonrecpts'', pi_rec, past_rec), (''allmodelpts'', pi_all, past_all)]"
  have ms: "model_series e recgrid msk var model vpi0 vpast0 = Inr ?dsv"
    unfolding model_series_def assms(5) prod.case Let_def
    using regional_averages_exact[OF assms(6,7)] assms(8-11) by simp
  have "dict_at (dic_res ?s1) ?P" using dP by simp
  from init_cases_ok[OF refl this, of pi_rec past_rec pi_all past_all] obtain d1 where
    ic: "init_cases ?P ?dsv ?s1 = Inr (?s1\<lparr>dic_res := d1\<rparr>)" and
    da: "dict_at d1 (?P @ [''allmodelpts''])" and
    dr: "dict_at d1 (?P @ [''modelonrecpts''])" and
    o1: "same_outside ?P (dic_res ?s1) d1"
    by blast
  let ?s2 = "?s1\<lparr>dic_res := d1\<rparr>"
  have np: "numpy_pos ?s2 = numpy_pos st" using R by simp
  have dr': "dict_at (dic_res ?s2) (?P @ [''modelonrecpts''])" using dr by simp
  have da': "dict_at (dic_res ?s2) (?P @ [''allmodelpts''])" using da by simp
  from time_averages_exact[OF refl assms(1,12,13,14,15) dr' da', of e] obtain d2 where
    ta: "time_averages e opts ?P ?dsv ?s2 =
           Inr (?s2\<lparr>dic_res := d2,
                  numpy_pos := numpy_pos ?s2 + niter * (draws_of pi_rec + draws_of past_rec) +
                               niter * (draws_of pi_all + draws_of past_all)\<rparr>)" and
    m1: "get_path d2 (?P @ [''modelonrecpts'', ''delta_mean'']) =
           Inr (PFloat (np_average (bootstrap_deltas (numpy_draws e) pi_rec past_rec (numpy_pos ?s2))))" and
    s1: "get_path d2 (?P @ [''modelonrecpts'', ''delta_std'']) =
           Inr (PFloat (np_std (bootstrap_deltas (numpy_draws e) pi_rec past_rec (numpy_pos ?s2))))" and
    m2: "get_path d2 (?P @ [''allmodelpts'', ''delta_mean'']) =
           Inr (PFloat (np_average (bootstrap_deltas (numpy_draws e) pi_all past_all
              (numpy_pos ?s2 + niter * (draws_of pi_rec + draws_of past_rec)))))" and
    s2: "get_path d2 (?P @ [''allmodelpts'', ''delta_std'']) =
           Inr (PFloat (np_std (bootstrap_deltas (numpy_draws e) pi_all past_all
              (numpy_pos ?s2 + niter * (draws_of pi_rec + draws_of past_rec)))))" and
    o2: "same_outside ?P (dic_res ?s2) d2"
    by blast
  let ?s3 = "?s2\<lparr>dic_res := d2,
                  numpy_pos := numpy_pos ?s2 + niter * (draws_of pi_rec + draws_of past_rec) +
                               niter * (draws_of pi_all + draws_of past_all)\<rparr>"
  have pr: "print_results ?P ?s3 = Inr ?s3"
    by (rule print_results_ok[where m = "np_average (bootstrap_deltas (numpy_draws e) pi_all past_all
              (numpy_pos ?s2 + niter * (draws_of pi_rec + draws_of past_rec)))"
          and s = "np_std (bootstrap_deltas (numpy_draws e) pi_all past_all
              (numpy_pos ?s2 + niter * (draws_of pi_rec + draws_of past_rec)))"])
       (use m2 s2 in simp_all)
  have run: "model_step e opts latrange lonrange recgrid period region rds var model st = Inr ?s3"
    unfolding model_step_def Let_def
    by (simp only: d0 ebind_simps R prod.case cm bound_def option.case ms ic ta pr)
  have o: "same_outside ?P (dic_res st) d2"
    using same_outside_trans[OF same_outside_trans[OF o0 _] _, of d1 d2] o1 o2 by simp
  have e3: "?s3 = st1\<lparr>dic_res := d2, numpy_pos := q_all + niter * (draws_of pi_all + draws_of past_all)\<rparr>"
    using np assms(17) by simp
  show ?thesis
    using run m1 s1 m2 s2 o np assms(16,17) unfolding e3 by (intro exI[of _ d2]) simp
qed

lemma perm_zero_51: "take 50 (fst (permutation (\<lambda>q mx. 0) 51 0)) = [1..<51]"
  by code_simp

lemma shuffle_loop_const:
  "fst (shuffle_loop (\<lambda>q. f) i (x, q)) = fst (shuffle_loop (\<lambda>q. f) i (x, q'))"
  by (induction i arbitrary: x q q') (simp_all add: rk_interval_def)

lemma sample_const:
  "sample (\<lambda>q. f) a q = sample (\<lambda>q. f) a 0"
proof -
  have "fst (permutation (\<lambda>q. f) (length a) q) = fst (permutation (\<lambda>q. f) (length a) 0)"
    unfolding permutation_def by (rule shuffle_loop_const)
  then show ?thesis
    by (simp add: sample_def choice_def case_prod_beta)
qed

lemma bootstrap_deltas_const:
  "bootstrap_deltas (\<lambda>q. f) vpi vpast q =
     replicate niter (fsub (np_average (sample (\<lambda>q. f) vpast 0)) (np_average (sample (\<lambda>q. f) vpi 0)))"
  unfolding bootstrap_deltas_def Let_def
  by (subst sample_const, subst (2) sample_const) (simp add: map_replicate_const)

lemma np_average_replicate: "0 < n \<Longrightarrow> np_average (replicate n (Fin x)) = Fin x"
proof -
  assume n: "0 < n"
  have "np_sum (map Fin (replicate n x)) = Fin (sum_list (replicate n x))" by (rule np_sum_Fin)
  then have "np_sum (replicate n (Fin x)) = Fin (real n * x)"
    by (simp add: sum_list_replicate)
  then show ?thesis using n by (simp add: np_average_def)
qed

lemma np_std_replicate: "0 < n \<Longrightarrow> np_std (replicate n (Fin x)) = Fin 0"
  using np_average_replicate[of n 0] by (simp add: np_std_def np_average_replicate Let_def)

lemma sample_zero_51:
  "sample (\<lambda>q mx. 0) (map f [0..<51]) 0 = map f [1..<51]"
proof -
  have l: "nbyrs \<le> length (map f [0..<51])" by (simp add: nbyrs_def)
  have "sample (\<lambda>q mx. 0) (map f [0..<51]) 0 = map (\<lambda>i. map f [0..<51] ! i) [1..<51]"
    using sample_indices[OF l, of "\<lambda>q mx. 0" 0] perm_zero_51 by (simp add: nbyrs_def)
  also have "\<dots> = map f [1..<51]"
    by (rule map_cong[OF refl]) (simp del: upt_Suc)
  finally show ?thesis .
qed

lemma average_years: "np_average (map (\<lambda>k. Fin (c + real k)) [1..<51]) = Fin (c + 51 / 2)"
proof -
  define xs where "xs = map (\<lambda>k. c + real k) [1..<51]"
  have m: "map (\<lambda>k. Fin (c + real k)) [1..<51] = map Fin xs" by (simp add: xs_def)
  have s: "sum_list xs = 50 * c + 1275" unfolding xs_def by (simp add: upt_conv_Cons)
  have l: "length xs = 50" by (simp add: xs_def)
  have "np_average (map Fin xs) = Fin (c + 51 / 2)"
    using l by (auto simp: np_average_def np_sum_Fin s)
  then show ?thesis unfolding m .
qed

lemma compressed_map_Some: "compressed (map (\<lambda>k. Some (f k)) xs) = map f xs"
  by (induction xs) simp_all

lemma average_years2:
  "np_average (map (\<lambda>k. Fin (c + m * real k)) [1..<51]) = Fin (c + m * (51 / 2))"
proof -
  define xs where "xs = map (\<lambda>k. c + m * real k) [1..<51]"
  have m: "map (\<lambda>k. Fin (c + m * real k)) [1..<51] = map Fin xs" by (simp add: xs_def)
  have s: "sum_list xs = 50 * c + m * 1275" unfolding xs_def by (simp add: upt_conv_Cons algebra_simps)
  have l: "length xs = 50" by (simp add: xs_def)
  have "np_average (map Fin xs) = Fin (c + m * (51 / 2))"
    using l by (auto simp: np_average_def np_sum_Fin s algebra_simps)
  then show ?thesis unfolding m .
qed

lemma warming_deltas:
  "bootstrap_deltas (\<lambda>q mx. 0) (map (\<lambda>k. Fin (c0 + m * real k)) [0..<51])
     (map (\<lambda>k. Fin (c1 + m * real k)) [0..<51]) q = replicate niter (Fin (c1 - c0))"
  unfolding bootstrap_deltas_const sample_zero_51 average_years2 by simp


lemma warming_units:
  "change_units ''MAT'' ''CCSM4'' (warming_years 0, warming_years 100) =
     (\<lparr>rows = map (\<lambda>k. [Some (Fin (0 + 1 * real k))]) [0..<51], cells = [1]\<rparr>,
      \<lparr>rows = map (\<lambda>k. [Some (Fin (100 + 1 * real k))]) [0..<51], cells = [1]\<rparr>)"
  by (simp add: change_units_def isub_def warming_years_def comp_def del: upt_Suc)

lemma warming_masked:
  "masked_where_rows [False]
     (length (rows \<lparr>rows = map (\<lambda>k. [Some (Fin (c + 1 * real k))]) [0..<51], cells = [1]\<rparr>))
     (regrid warming_env recgrid \<lparr>rows = map (\<lambda>k. [Some (Fin (c + 1 * real k))]) [0..<51], cells = [1]\<rparr>) =
   Inr \<lparr>rows = map (\<lambda>k. [Some (Fin (2 * c + 2 * real k))]) [0..<51], cells = [1]\<rparr>"
  by (simp add: masked_where_rows_def warming_env_def imul_def comp_def list_ex_iff algebra_simps
      del: upt_Suc)

lemma no_match_open:
  "open_model no_match_env (Some name) ''tas'' latrange lonrange =
     Inr (if name = ''pi.nc'' then warming_years 0 else warming_years 100)"
  by (simp add: open_model_def bound_def c_open_def no_match_env_def warming_env_def)

lemma stale_tables:
  "getitem dic_model_diagnames ''MAT'' = Inr ''YR''" "getitem dic_model_varnames ''MAT'' = Inr ''tas''"
  by (simp_all add: getitem_def dic_model_diagnames_def dic_model_varnames_def)

section \<open>The claims\<close>

text \<open>
  Claim C1. The claim asks for an independent Gaussian draw at every grid point. Evaluated on
  two points with anomaly 0, standard error 1 and weights 1/2, and a deviate stream that
  starts 1, -1, the call \<^verbatim>\<open>random.gauss(rme,rse)\<close> perturbs both points with the same
  deviate, so the realisation of the script is 1, while one draw per point gives 0.
\<close>

theorem C1_one_deviate_for_all_points:
  "gauss (\<lambda>k. if even k then 1 else - 1) [Fin 0, Fin 0] [Fin 1, Fin 1] 0 =
     Inr ([Fin 1, Fin 1], Suc 0) \<and>
   rrave_loop (\<lambda>k. if even k then 1 else - 1) (Suc 0) [Fin 0, Fin 0] [Fin 1, Fin 1]
     [1 / 2, 1 / 2] ([], 0) = Inr ([Fin 1], Suc 0) \<and>
   independent_realisation (\<lambda>k. if even k then 1 else - 1) [0, 0] [1, 1] [1 / 2, 1 / 2] 0 = 0"
  by (simp add: gauss_def np_binop_def np_sum_def independent_realisation_def dot_def)



text \<open>
  Claim C4. The claim as stated fails for a field without an unmasked grid point: its
  weight vector is empty and sums to 0. For a field with at least one unmasked grid point
  (cell areas are positive) the weights used in the weighted sum are the area weights of
  the unmasked points divided by their total, they sum to 1, and none is negative.
\<close>

theorem C4_weights_sum_to_one:
  assumes "list_all (\<lambda>(a, x). 0 < a) rmeorig" and "0 < ma_count rmeorig"
    and "compressed_fields rmeorig rseorig = (nrec, rme, recwei, rse)"
  shows "recwei = map (\<lambda>a. a / ma_sum (area_weights rmeorig)) (compressed (area_weights rmeorig)) \<and>
         sum_list recwei = 1 \<and> list_all (\<lambda>w. 0 \<le> w) recwei"
proof -
  let ?tot = "ma_sum (area_weights rmeorig)"
  have pos: "0 < ?tot" by (rule ma_sum_area_pos[OF assms(1,2)])
  from assms(3) have r: "recwei = compressed (normalised_weights rmeorig)"
    by (simp add: compressed_fields_def Let_def)
  have v: "recwei = map (\<lambda>a. a / ?tot) (compressed (area_weights rmeorig))"
    unfolding r by (rule normalised_weights_values[OF assms(1,2)])
  have "sum_list recwei = sum_list (compressed (area_weights rmeorig)) / ?tot"
    unfolding v by (rule sum_list_div)
  then have s: "sum_list recwei = 1" using pos by (simp add: ma_sum_def)
  have n: "list_all (\<lambda>w. 0 \<le> w) recwei"
    unfolding v by (rule area_weights_nonneg_div[OF area_weights_pos[OF assms(1)] pos])
  show ?thesis using v s n by blast
qed

theorem C4_weights_sum_to_one_witness:
  "compressed_fields [(1, Some (Fin 2)), (3, None), (3, Some (Fin 5))]
      [(1, Some (Fin 1)), (3, None), (3, Some (Fin 1))] =
     (2, [Fin 2, Fin 5], [1 / 4, 3 / 4], [Fin 1, Fin 1]) \<and>
   sum_list [1 / 4, 3 / 4 :: real] = 1 \<and> list_all (\<lambda>w. 0 \<le> w) [1 / 4, 3 / 4 :: real]"
proof -
  have c: "compressed_fields [(1, Some (Fin 2)), (3, None), (3, Some (Fin 5))]
      [(1, Some (Fin 1)), (3, None), (3, Some (Fin 1))] =
     (2, [Fin 2, Fin 5], [1 / 4, 3 / 4], [Fin 1, Fin 1])"
    by (simp add: compressed_fields_def normalised_weights_def area_weights_def ma_sum_def
        idiv_def ma_count_def Let_def)
  have a: "list_all (\<lambda>(a, x). 0 < a) [(1 :: real, Some (Fin 2)), (3, None), (3, Some (Fin 5))]"
    by simp
  have b: "0 < ma_count [(1, Some (Fin 2)), (3, None), (3, Some (Fin 5))]"
    by (simp add: ma_count_def)
  from C4_weights_sum_to_one[OF a b c] c show ?thesis by blast
qed

theorem C4_all_masked_counterexample:
  "compressed_fields [(1, None)] [(1, None)] = (0, [], [], []) \<and>
   sum_list (fst (snd (snd (compressed_fields [(1, None)] [(1, None)])))) \<noteq> 1"
  by (simp add: compressed_fields_def normalised_weights_def area_weights_def ma_sum_def
      idiv_def ma_count_def Let_def)

text \<open>
  Claim C7. For the temperature variables 273.15 is subtracted from every unmasked
  value of both fields, for MAP every value is multiplied by 86400*365 unless the model is
  one of the two iLOVECLIM runs, whose fields are unchanged; the regridding and the
  averages work on the converted fields.
\<close>

theorem C7_unit_conversion:
  "(var \<in> set [''MAT'', ''MTCO'', ''MTWA'', ''MATocean''] \<longrightarrow>
      change_units var model (vpi, vpast) =
        (vpi\<lparr>rows := map (map (map_option (\<lambda>x. fsub x (Fin 273.15)))) (rows vpi)\<rparr>,
         vpast\<lparr>rows := map (map (map_option (\<lambda>x. fsub x (Fin 273.15)))) (rows vpast)\<rparr>)) \<and>
   (var = ''MAP'' \<and> model \<notin> set [''iLOVECLIM-ICE-6G'', ''iLOVECLIM-GLAC1D''] \<longrightarrow>
      change_units var model (vpi, vpast) =
        (vpi\<lparr>rows := map (map (map_option (\<lambda>x. fmul x (Fin (86400 * 365))))) (rows vpi)\<rparr>,
         vpast\<lparr>rows := map (map (map_option (\<lambda>x. fmul x (Fin (86400 * 365))))) (rows vpast)\<rparr>)) \<and>
   (var = ''MAP'' \<and> model \<in> set [''iLOVECLIM-ICE-6G'', ''iLOVECLIM-GLAC1D''] \<longrightarrow>
      change_units var model (vpi, vpast) = (vpi, vpast)) \<and>
   model_series e recgrid msk var model vpi vpast =
     regional_averages e recgrid msk
       (fst (change_units var model (vpi, vpast))) (snd (change_units var model (vpi, vpast))) \<and>
   fsub (Fin x) (Fin 273.15) = Fin (x - 273.15) \<and>
   fmul (Fin x) (Fin (86400 * 365)) = Fin (x * 31536000)"
proof -
  have a: "var \<in> set [''MAT'', ''MTCO'', ''MTWA'', ''MATocean''] \<longrightarrow>
      change_units var model (vpi, vpast) =
        (vpi\<lparr>rows := map (map (map_option (\<lambda>x. fsub x (Fin 273.15)))) (rows vpi)\<rparr>,
         vpast\<lparr>rows := map (map (map_option (\<lambda>x. fsub x (Fin 273.15)))) (rows vpast)\<rparr>)"
    by (auto simp: change_units_def isub_def)
  have b: "var = ''MAP'' \<and> model \<notin> set [''iLOVECLIM-ICE-6G'', ''iLOVECLIM-GLAC1D''] \<longrightarrow>
      change_units var model (vpi, vpast) =
        (vpi\<lparr>rows := map (map (map_option (\<lambda>x. fmul x (Fin (86400 * 365))))) (rows vpi)\<rparr>,
         vpast\<lparr>rows := map (map (map_option (\<lambda>x. fmul x (Fin (86400 * 365))))) (rows vpast)\<rparr>)"
    by (simp add: change_units_def imul_def)
  have c: "var = ''MAP'' \<and> model \<in> set [''iLOVECLIM-ICE-6G'', ''iLOVECLIM-GLAC1D''] \<longrightarrow>
      change_units var model (vpi, vpast) = (vpi, vpast)"
    by (auto simp: change_units_def)
  have d: "model_series e recgrid msk var model vpi vpast =
     regional_averages e recgrid msk
       (fst (change_units var model (vpi, vpast))) (snd (change_units var model (vpi, vpast)))"
    by (simp add: model_series_def split_beta)
  show ?thesis using a b c d by simp
qed

theorem C7_unit_conversion_witness:
  "change_units ''MAT'' ''IPSL''
     (\<lparr>rows = [[Some (Fin 300), None]], cells = [1, 1]\<rparr>,
      \<lparr>rows = [[Some (Fin 280), Some NaN]], cells = [1, 1]\<rparr>) =
     (\<lparr>rows = [[Some (Fin (2685 / 100)), None]], cells = [1, 1]\<rparr>,
      \<lparr>rows = [[Some (Fin (685 / 100)), Some NaN]], cells = [1, 1]\<rparr>) \<and>
   change_units ''MAP'' ''IPSL''
     (\<lparr>rows = [[Some (Fin 1)]], cells = [1]\<rparr>, \<lparr>rows = [[Some (Fin 2)]], cells = [1]\<rparr>) =
     (\<lparr>rows = [[Some (Fin 31536000)]], cells = [1]\<rparr>,
      \<lparr>rows = [[Some (Fin 63072000)]], cells = [1]\<rparr>) \<and>
   change_units ''MAP'' ''iLOVECLIM-GLAC1D''
     (\<lparr>rows = [[Some (Fin 1)]], cells = [1]\<rparr>, \<lparr>rows = [[Some (Fin 2)]], cells = [1]\<rparr>) =
     (\<lparr>rows = [[Some (Fin 1)]], cells = [1]\<rparr>, \<lparr>rows = [[Some (Fin 2)]], cells = [1]\<rparr>)"
  using
    C7_unit_conversion [of "''MAT''" "''IPSL''"
      "\<lparr>rows = [[Some (Fin 300), None]], cells = [1, 1]\<rparr>"
      "\<lparr>rows = [[Some (Fin 280), Some NaN]], cells = [1, 1]\<rparr>"]
    C7_unit_conversion [of "''MAP''" "''IPSL''"
      "\<lparr>rows = [[Some (Fin 1)]], cells = [1]\<rparr>" "\<lparr>rows = [[Some (Fin 2)]], cells = [1]\<rparr>"]
    C7_unit_conversion [of "''MAP''" "''iLOVECLIM-GLAC1D''"
      "\<lparr>rows = [[Some (Fin 1)]], cells = [1]\<rparr>" "\<lparr>rows = [[Some (Fin 2)]], cells = [1]\<rparr>"]
  by simp

text \<open>
  Claim C9. Sampling \<open>nbyrs\<close> = 50 years without replacement from a shorter series
  raises ValueError, so the statistics of a case return a result exactly when both of its
  series have at least 50 years.
\<close>

theorem C9_short_series_fail:
  "(length a < nbyrs \<longrightarrow> choice us a nbyrs q = Inl ValueError) \<and>
   (length vpi < nbyrs \<or> length vpast < nbyrs \<longrightarrow>
      delta_statistics us vpi vpast q = Inl ValueError) \<and>
   ((\<exists>r. delta_statistics us vpi vpast q = Inr r) \<longleftrightarrow>
      (nbyrs \<le> length vpi \<and> nbyrs \<le> length vpast)) \<and>
   nbyrs = 50"
proof -
  have a: "length a < nbyrs \<longrightarrow> choice us a nbyrs q = Inl ValueError"
    by (simp add: choice_short)
  have b: "length vpi < nbyrs \<or> length vpast < nbyrs \<longrightarrow>
      delta_statistics us vpi vpast q = Inl ValueError"
    using delta_statistics_short by blast
  have c: "(\<exists>r. delta_statistics us vpi vpast q = Inr r) \<longleftrightarrow>
      (nbyrs \<le> length vpi \<and> nbyrs \<le> length vpast)"
  proof
    assume "\<exists>r. delta_statistics us vpi vpast q = Inr r"
    then show "nbyrs \<le> length vpi \<and> nbyrs \<le> length vpast"
      using b by (metis Inl_Inr_False not_le_imp_less)
  next
    assume "nbyrs \<le> length vpi \<and> nbyrs \<le> length vpast"
    then show "\<exists>r. delta_statistics us vpi vpast q = Inr r"
      using delta_statistics_ok[of vpi vpast us q] by blast
  qed
  show ?thesis using a b c by (simp add: nbyrs_def)
qed

theorem C9_short_series_fail_witness:
  "choice (\<lambda>q mx. 0) (replicate 49 (Fin 1)) nbyrs 0 = Inl ValueError \<and>
   delta_statistics (\<lambda>q mx. 0) (replicate 50 (Fin 1)) (replicate 49 (Fin 2)) 0 = Inl ValueError \<and>
   (\<exists>r. delta_statistics (\<lambda>q mx. 0) (replicate 50 (Fin 1)) (replicate 50 (Fin 2)) 0 = Inr r)"
proof -
  have l: "length (replicate 49 (Fin 1)) < nbyrs" "length (replicate 49 (Fin 2)) < nbyrs"
    "nbyrs \<le> length (replicate 50 (Fin 1))" "nbyrs \<le> length (replicate 50 (Fin 2))"
    by (simp_all add: nbyrs_def)
  note t1 = C9_short_series_fail [of "replicate 49 (Fin 1)" "\<lambda>q mx. 0" 0
      "replicate 50 (Fin 1)" "replicate 49 (Fin 2)"]
  note t2 = C9_short_series_fail [of "replicate 49 (Fin 1)" "\<lambda>q mx. 0" 0
      "replicate 50 (Fin 1)" "replicate 50 (Fin 2)"]
  have a: "choice (\<lambda>q mx. 0) (replicate 49 (Fin 1)) nbyrs 0 = Inl ValueError"
    using t1 l(1) by blast
  have b: "delta_statistics (\<lambda>q mx. 0) (replicate 50 (Fin 1)) (replicate 49 (Fin 2)) 0 = Inl ValueError"
    using t1 l(2) by blast
  have c: "\<exists>r. delta_statistics (\<lambda>q mx. 0) (replicate 50 (Fin 1)) (replicate 50 (Fin 2)) 0 = Inr r"
    using t2 l(3,4) by blast
  show ?thesis using a b c by blast
qed

text \<open>
  Claim C10. Lines 540-573 for the Mid-Holocene, as one computation. Each of the two file
  names is assigned only when its glob pattern matches exactly one file; any other number
  of matches raises nothing and leaves the name as it was. The statements that follow
  open the name the variable then holds: with a name left by an earlier model the fields
  are read from that file and the model is processed like any other, and with no name
  bound the open raises NameError. The same holds for the pre-industrial and for the
  Mid-Holocene file; a failed match of the second does not undo the assignment of the
  first.
\<close>

theorem C10_glob_resolution:
  assumes "dir_models st = Some dir"
    and "getitem dic_model_diagnames var = Inr diag"
    and "getitem dic_model_varnames var = Inr modvarname"
    and "pi_files = glob_glob e (glob_pattern dir modvarname diag model ''piControl'')"
    and "past_files = glob_glob e (glob_pattern dir modvarname diag model ''midHolocene'')"
  shows
    "(length pi_files \<noteq> 1 \<longrightarrow> resolve_fnamepi e ''MH'' model modvarname diag st = Inr st) \<and>
     (pi_files = [f] \<longrightarrow>
        resolve_fnamepi e ''MH'' model modvarname diag st = Inr (st\<lparr>fnamepi := Some f\<rparr>)) \<and>
     (length past_files \<noteq> 1 \<longrightarrow> resolve_fnamepast e ''MH'' model modvarname diag st = Inr st) \<and>
     (past_files = [g] \<longrightarrow>
        resolve_fnamepast e ''MH'' model modvarname diag st = Inr (st\<lparr>fnamepast := Some g\<rparr>)) \<and>
     read_model_fields e latrange lonrange ''MH'' var model st =
       ebind (open_model e (if length pi_files = 1 then Some (pi_files ! 0) else fnamepi st)
                modvarname latrange lonrange) (\<lambda>vpi.
       ebind (open_model e (if length past_files = 1 then Some (past_files ! 0) else fnamepast st)
                modvarname latrange lonrange) (\<lambda>vpast.
       Inr (vpi, vpast,
            st\<lparr>fnamepi := if length pi_files = 1 then Some (pi_files ! 0) else fnamepi st,
               fnamepast := if length past_files = 1 then Some (past_files ! 0)
                            else fnamepast st\<rparr>))) \<and>
     (length pi_files \<noteq> 1 \<and> fnamepi st = Some old \<and>
      open_model e (Some old) modvarname latrange lonrange = Inr vpi \<and>
      length past_files \<noteq> 1 \<and> fnamepast st = Some oldpast \<and>
      open_model e (Some oldpast) modvarname latrange lonrange = Inr vpast \<longrightarrow>
        read_model_fields e latrange lonrange ''MH'' var model st = Inr (vpi, vpast, st)) \<and>
     (length pi_files \<noteq> 1 \<and> fnamepi st = Some old \<and>
      open_model e (Some old) modvarname latrange lonrange = Inr vpi \<and>
      past_files = [g] \<and> open_model e (Some g) modvarname latrange lonrange = Inr vpast \<longrightarrow>
        read_model_fields e latrange lonrange ''MH'' var model st =
          Inr (vpi, vpast, st\<lparr>fnamepast := Some g\<rparr>)) \<and>
     (pi_files = [f] \<and> open_model e (Some f) modvarname latrange lonrange = Inr vpi \<and>
      length past_files \<noteq> 1 \<and> fnamepast st = Some oldpast \<and>
      open_model e (Some oldpast) modvarname latrange lonrange = Inr vpast \<longrightarrow>
        read_model_fields e latrange lonrange ''MH'' var model st =
          Inr (vpi, vpast, st\<lparr>fnamepi := Some f\<rparr>)) \<and>
     (length pi_files \<noteq> 1 \<and> fnamepi st = None \<longrightarrow>
        read_model_fields e latrange lonrange ''MH'' var model st = Inl NameError) \<and>
     (pi_files = [f] \<and> open_model e (Some f) modvarname latrange lonrange = Inr vpi \<and>
      length past_files \<noteq> 1 \<and> fnamepast st = None \<longrightarrow>
        read_model_fields e latrange lonrange ''MH'' var model st = Inl NameError) \<and>
     open_model e (Some old) modvarname latrange lonrange =
       ebind (c_open e old) (\<lambda>file. read_model e file modvarname latrange lonrange)"
proof -
  have r1: "resolve_fnamepi e ''MH'' model modvarname diag st =
      Inr (if length pi_files = 1 then st\<lparr>fnamepi := Some (pi_files ! 0)\<rparr> else st)"
    using assms(1,4) by (simp add: resolve_fnamepi_def bound_def Let_def)
  have r2: "resolve_fnamepast e ''MH'' model modvarname diag s =
      Inr (if length past_files = 1 then s\<lparr>fnamepast := Some (past_files ! 0)\<rparr> else s)"
    if "dir_models s = Some dir" for s
    using that assms(5) by (simp add: resolve_fnamepast_def bound_def Let_def)
  have eq: "read_model_fields e latrange lonrange ''MH'' var model st =
       ebind (open_model e (if length pi_files = 1 then Some (pi_files ! 0) else fnamepi st)
                modvarname latrange lonrange) (\<lambda>vpi.
       ebind (open_model e (if length past_files = 1 then Some (past_files ! 0) else fnamepast st)
                modvarname latrange lonrange) (\<lambda>vpast.
       Inr (vpi, vpast,
            st\<lparr>fnamepi := if length pi_files = 1 then Some (pi_files ! 0) else fnamepi st,
               fnamepast := if length past_files = 1 then Some (past_files ! 0)
                            else fnamepast st\<rparr>)))"
    unfolding read_model_fields_def assms(2,3) ebind_simps r1
    using assms(1) by (simp add: r2)
  have o: "open_model e None modvarname latrange lonrange = Inl NameError"
    by (simp add: open_model_def bound_def)
  have c1: "length pi_files \<noteq> 1 \<longrightarrow> resolve_fnamepi e ''MH'' model modvarname diag st = Inr st"
    by (simp add: r1)
  have c2: "pi_files = [f] \<longrightarrow>
        resolve_fnamepi e ''MH'' model modvarname diag st = Inr (st\<lparr>fnamepi := Some f\<rparr>)"
    by (simp add: r1)
  have c3: "length past_files \<noteq> 1 \<longrightarrow> resolve_fnamepast e ''MH'' model modvarname diag st = Inr st"
    by (simp add: r2[OF assms(1)])
  have c4: "past_files = [g] \<longrightarrow>
        resolve_fnamepast e ''MH'' model modvarname diag st = Inr (st\<lparr>fnamepast := Some g\<rparr>)"
    by (simp add: r2[OF assms(1)])
  have c6: "length pi_files \<noteq> 1 \<and> fnamepi st = Some old \<and>
      open_model e (Some old) modvarname latrange lonrange = Inr vpi \<and>
      length past_files \<noteq> 1 \<and> fnamepast st = Some oldpast \<and>
      open_model e (Some oldpast) modvarname latrange lonrange = Inr vpast \<longrightarrow>
        read_model_fields e latrange lonrange ''MH'' var model st = Inr (vpi, vpast, st)"
    unfolding eq by auto
  have c7: "length pi_files \<noteq> 1 \<and> fnamepi st = Some old \<and>
      open_model e (Some old) modvarname latrange lonrange = Inr vpi \<and>
      past_files = [g] \<and> open_model e (Some g) modvarname latrange lonrange = Inr vpast \<longrightarrow>
        read_model_fields e latrange lonrange ''MH'' var model st =
          Inr (vpi, vpast, st\<lparr>fnamepast := Some g\<rparr>)"
    unfolding eq by auto
  have c8: "pi_files = [f] \<and> open_model e (Some f) modvarname latrange lonrange = Inr vpi \<and>
      length past_files \<noteq> 1 \<and> fnamepast st = Some oldpast \<and>
      open_model e (Some oldpast) modvarname latrange lonrange = Inr vpast \<longrightarrow>
        read_model_fields e latrange lonrange ''MH'' var model st =
          Inr (vpi, vpast, st\<lparr>fnamepi := Some f\<rparr>)"
    unfolding eq by auto
  have c9: "length pi_files \<noteq> 1 \<and> fnamepi st = None \<longrightarrow>
        read_model_fields e latrange lonrange ''MH'' var model st = Inl NameError"
    unfolding eq using o by auto
  have c10: "pi_files = [f] \<and> open_model e (Some f) modvarname latrange lonrange = Inr vpi \<and>
      length past_files \<noteq> 1 \<and> fnamepast st = None \<longrightarrow>
        read_model_fields e latrange lonrange ''MH'' var model st = Inl NameError"
    unfolding eq using o by auto
  have c11: "open_model e (Some old) modvarname latrange lonrange =
       ebind (c_open e old) (\<lambda>file. read_model e file modvarname latrange lonrange)"
    by (simp add: open_model_def bound_def)
  show ?thesis
    by (intro conjI c1 c2 c3 c4 eq c6 c7 c8 c9 c10 c11)
qed

theorem C10_glob_resolution_witness:
  "read_model_fields no_match_env (0, 30, ''cc'') (- 20, 30, ''cc'') ''MH'' ''MAT'' ''CCSM4''
     stale_state = Inr (warming_years 0, warming_years 100, stale_state) \<and>
   read_model_fields no_match_env (0, 30, ''cc'') (- 20, 30, ''cc'') ''MH'' ''MAT'' ''CCSM4''
     warming_state = Inl NameError \<and>
   read_model_fields
     (no_match_env\<lparr>glob_glob := \<lambda>p. if p = glob_pattern dir_mh ''tas'' ''YR'' ''CCSM4'' ''piControl''
                                       then [''a.nc'', ''b.nc''] else [''new.nc'']\<rparr>)
     (0, 30, ''cc'') (- 20, 30, ''cc'') ''MH'' ''MAT'' ''CCSM4'' stale_state =
     Inr (warming_years 0, warming_years 100, stale_state\<lparr>fnamepast := Some ''new.nc''\<rparr>) \<and>
   read_model_fields
     (no_match_env\<lparr>glob_glob := \<lambda>p. if p = glob_pattern dir_mh ''tas'' ''YR'' ''CCSM4'' ''piControl''
                                       then [''pi.nc''] else []\<rparr>)
     (0, 30, ''cc'') (- 20, 30, ''cc'') ''MH'' ''MAT'' ''CCSM4'' warming_state = Inl NameError \<and>
   (\<exists>st'. model_step no_match_env script_options (0, 30, ''cc'') (- 20, 30, ''cc'') [1]
            ''MH'' ''Globe'' ''Bartlein2011'' ''MAT'' ''CCSM4'' stale_state = Inr st' \<and>
      get_path (dic_res st')
        [''MH'', ''MAT'', ''Globe'', ''Bartlein2011'', ''CCSM4'', ''allmodelpts'', ''delta_mean''] =
        Inr (PFloat (Fin 100)))"
proof -
  let ?lat = "(0, 30, ''cc'') :: latlon"
  let ?lon = "(- 20, 30, ''cc'') :: latlon"
  let ?two = "no_match_env\<lparr>glob_glob := \<lambda>p. if p = glob_pattern dir_mh ''tas'' ''YR'' ''CCSM4'' ''piControl''
                                       then [''a.nc'', ''b.nc''] else [''new.nc'']\<rparr>"
  let ?one = "no_match_env\<lparr>glob_glob := \<lambda>p. if p = glob_pattern dir_mh ''tas'' ''YR'' ''CCSM4'' ''piControl''
                                       then [''pi.nc''] else []\<rparr>"
  have n: "glob_pattern dir_mh ''tas'' ''YR'' ''CCSM4'' ''midHolocene'' \<noteq>
           glob_pattern dir_mh ''tas'' ''YR'' ''CCSM4'' ''piControl''"
    by (simp add: glob_pattern_def path_join_def path_join2_def dir_mh_def)
  have d1: "dir_models stale_state = Some dir_mh" by (simp add: stale_state_def warming_state_def)
  have d2: "dir_models warming_state = Some dir_mh" by (simp add: warming_state_def)
  have names: "fnamepi stale_state = Some ''pi.nc''" "fnamepast stale_state = Some ''past.nc''"
    "fnamepi warming_state = None" "fnamepast warming_state = None"
    by (simp_all add: stale_state_def warming_state_def start_state_def)
  have none: "length (glob_glob no_match_env p) \<noteq> 1" for p by (simp add: no_match_env_def)
  have two: "length (glob_glob ?two (glob_pattern dir_mh ''tas'' ''YR'' ''CCSM4'' ''piControl'')) \<noteq> 1"
    "glob_glob ?two (glob_pattern dir_mh ''tas'' ''YR'' ''CCSM4'' ''midHolocene'') = [''new.nc'']"
    using n by simp_all
  have one: "glob_glob ?one (glob_pattern dir_mh ''tas'' ''YR'' ''CCSM4'' ''piControl'') = [''pi.nc'']"
    "length (glob_glob ?one (glob_pattern dir_mh ''tas'' ''YR'' ''CCSM4'' ''midHolocene'')) \<noteq> 1"
    using n by simp_all
  have o1: "open_model no_match_env (Some ''pi.nc'') ''tas'' ?lat ?lon = Inr (warming_years 0)"
    "open_model no_match_env (Some ''past.nc'') ''tas'' ?lat ?lon = Inr (warming_years 100)"
    by (simp_all add: no_match_open)
  have o2: "open_model ?two (Some ''pi.nc'') ''tas'' ?lat ?lon = Inr (warming_years 0)"
    "open_model ?two (Some ''new.nc'') ''tas'' ?lat ?lon = Inr (warming_years 100)"
    by (simp_all add: open_model_def bound_def c_open_def no_match_env_def warming_env_def)
  have o3: "open_model ?one (Some ''pi.nc'') ''tas'' ?lat ?lon = Inr (warming_years 0)"
    by (simp add: open_model_def bound_def c_open_def no_match_env_def warming_env_def)
  note T1 = C10_glob_resolution[OF d1 stale_tables refl refl, where e = no_match_env
      and model = "''CCSM4''" and latrange = ?lat and lonrange = ?lon
      and old = "''pi.nc''" and oldpast = "''past.nc''"
      and vpi = "warming_years 0" and vpast = "warming_years 100"]
  note T2 = C10_glob_resolution[OF d2 stale_tables refl refl, where e = no_match_env
      and model = "''CCSM4''" and latrange = ?lat and lonrange = ?lon]
  note T3 = C10_glob_resolution[OF d1 stale_tables refl refl, where e = ?two
      and model = "''CCSM4''" and latrange = ?lat and lonrange = ?lon
      and old = "''pi.nc''" and g = "''new.nc''"
      and vpi = "warming_years 0" and vpast = "warming_years 100"]
  note T4 = C10_glob_resolution[OF d2 stale_tables refl refl, where e = ?one
      and model = "''CCSM4''" and latrange = ?lat and lonrange = ?lon
      and f = "''pi.nc''" and vpi = "warming_years 0"]
  have W1: "read_model_fields no_match_env ?lat ?lon ''MH'' ''MAT'' ''CCSM4'' stale_state =
      Inr (warming_years 0, warming_years 100, stale_state)"
    using T1[THEN conjunct2, THEN conjunct2, THEN conjunct2, THEN conjunct2, THEN conjunct2,
        THEN conjunct1] none names(1,2) o1 by blast
  have W2: "read_model_fields no_match_env ?lat ?lon ''MH'' ''MAT'' ''CCSM4'' warming_state =
      Inl NameError"
    using T2[THEN conjunct2, THEN conjunct2, THEN conjunct2, THEN conjunct2, THEN conjunct2,
        THEN conjunct2, THEN conjunct2, THEN conjunct2, THEN conjunct1] none names(3) by blast
  have W3: "read_model_fields ?two ?lat ?lon ''MH'' ''MAT'' ''CCSM4'' stale_state =
      Inr (warming_years 0, warming_years 100, stale_state\<lparr>fnamepast := Some ''new.nc''\<rparr>)"
    using T3[THEN conjunct2, THEN conjunct2, THEN conjunct2, THEN conjunct2, THEN conjunct2,
        THEN conjunct2, THEN conjunct1] two names(1) o2 by blast
  have W4: "read_model_fields ?one ?lat ?lon ''MH'' ''MAT'' ''CCSM4'' warming_state = Inl NameError"
    using T4[THEN conjunct2, THEN conjunct2, THEN conjunct2, THEN conjunct2, THEN conjunct2,
        THEN conjunct2, THEN conjunct2, THEN conjunct2, THEN conjunct2, THEN conjunct1]
      one names(4) o3 by blast
  let ?vpi = "\<lparr>rows = map (\<lambda>k. [Some (Fin (0 + 1 * real k))]) [0..<51], cells = [1]\<rparr>"
  let ?vpast = "\<lparr>rows = map (\<lambda>k. [Some (Fin (100 + 1 * real k))]) [0..<51], cells = [1]\<rparr>"
  let ?vpim = "\<lparr>rows = map (\<lambda>k. [Some (Fin (2 * 0 + 2 * real k))]) [0..<51], cells = [1]\<rparr>"
  let ?vpastm = "\<lparr>rows = map (\<lambda>k. [Some (Fin (2 * 100 + 2 * real k))]) [0..<51], cells = [1]\<rparr>"
  let ?pi_all = "map (\<lambda>k. Fin (0 + 1 * real k)) [0..<51]"
  let ?past_all = "map (\<lambda>k. Fin (100 + 1 * real k)) [0..<51]"
  let ?pi_rec = "map (\<lambda>k. Fin (0 + 2 * real k)) [0..<51]"
  let ?past_rec = "map (\<lambda>k. Fin (200 + 2 * real k)) [0..<51]"
  have rg: "regrid no_match_env = regrid warming_env" "averager no_match_env = averager warming_env"
    "numpy_draws no_match_env = (\<lambda>q mx. 0)"
    by (simp_all add: no_match_env_def warming_env_def)
  have h1: "compute_monte_carlo_averages script_options = ''yes''" by (simp add: script_options_def)
  have h2: "dict_at (dic_res stale_state) [''MH'', ''MAT'', ''Globe'', ''Bartlein2011'']"
    by (simp add: dict_at_def stale_state_def warming_state_def getitem_def)
  have h4: "chosenmask stale_state = Some [False]" by (simp add: stale_state_def warming_state_def)
  have m1: "masked_where_rows [False] (length (rows ?vpi)) (regrid no_match_env [1] ?vpi) = Inr ?vpim"
    unfolding rg by (rule warming_masked)
  have m2: "masked_where_rows [False] (length (rows ?vpast)) (regrid no_match_env [1] ?vpast) = Inr ?vpastm"
    unfolding rg by (rule warming_masked)
  have a1: "?pi_all = compressed (averager no_match_env ?vpi)"
    unfolding rg by (simp add: warming_env_def comp_def compressed_map_Some del: upt_Suc)
  have a2: "?past_all = compressed (averager no_match_env ?vpast)"
    unfolding rg by (simp add: warming_env_def comp_def compressed_map_Some del: upt_Suc)
  have a3: "?pi_rec = compressed (averager no_match_env ?vpim)"
    unfolding rg by (simp add: warming_env_def comp_def compressed_map_Some del: upt_Suc)
  have a4: "?past_rec = compressed (averager no_match_env ?vpastm)"
    unfolding rg by (simp add: warming_env_def comp_def compressed_map_Some del: upt_Suc)
  have l: "nbyrs \<le> length ?pi_rec" "nbyrs \<le> length ?past_rec"
    "nbyrs \<le> length ?pi_all" "nbyrs \<le> length ?past_all"
    by (simp_all add: nbyrs_def)
  have n0: "0 < niter" by (simp add: niter_def)
  from model_step_exact[where recgrid = "[1]" and region = "''Globe''" and rds = "''Bartlein2011''",
      OF h1 h2 W1 h4 warming_units m1 m2 a1 a2 a3 a4 l refl refl]
  have W5: "\<exists>st'. model_step no_match_env script_options ?lat ?lon [1]
            ''MH'' ''Globe'' ''Bartlein2011'' ''MAT'' ''CCSM4'' stale_state = Inr st' \<and>
      get_path (dic_res st')
        [''MH'', ''MAT'', ''Globe'', ''Bartlein2011'', ''CCSM4'', ''allmodelpts'', ''delta_mean''] =
        Inr (PFloat (Fin 100))"
    unfolding rg warming_deltas np_average_replicate[OF n0] np_std_replicate[OF n0]
    by (auto simp del: get_path.simps)
  show ?thesis using W1 W2 W3 W4 W5 by (intro conjI)
qed

end
